(* ===== verification/Ck_Types.thy ===== *)
theory Ck_Types
  imports "HOL-Library.Word"
begin

text \<open>
  The numeric vocabulary of the PKCS\#11 surface: the fixed-width integer types of
  domain/core/kernel\_types.h and the CKR, CKO, CKK, CKA, CKM, CKF, CKU and CKS constants of
  domain/pkcs11/pkcs11\_types.h, pkcs11/pkcs11\_types.h, pkcs11/pkcs11\_internal.h and
  keystore/key\_state.h, with the values the headers give them.  They are input abbreviations,
  so that the simplifier works on the numerals themselves; two names with one value (for example
  CKR\_FUNCTION\_NOT\_SUPPORTED and CKR\_OPERATION\_NOT\_INITIALIZED) are therefore one value
  here as they are in the code.
\<close>

type_synonym u8 = "8 word"
type_synonym u32 = "32 word"
type_synonym u64 = "64 word"
type_synonym bytes = "u8 list"
type_synonym CK_ULONG = "u64"
type_synonym CK_RV = "u64"
type_synonym CK_BBOOL = "u8"
type_synonym CK_FLAGS = "u64"
type_synonym CK_STATE = "u64"
type_synonym CK_USER_TYPE = "u64"
type_synonym CK_SLOT_ID = "u64"
type_synonym CK_OBJECT_HANDLE = "u64"
type_synonym CK_SESSION_HANDLE = "u64"
type_synonym CK_ATTRIBUTE_TYPE = "u64"
type_synonym CK_MECHANISM_TYPE = "u64"

abbreviation (input) CK_FALSE :: CK_BBOOL where "CK_FALSE \<equiv> 0"
abbreviation (input) CK_TRUE :: CK_BBOOL where "CK_TRUE \<equiv> 1"
abbreviation (input) CK_UNAVAILABLE_INFORMATION :: CK_ULONG where "CK_UNAVAILABLE_INFORMATION \<equiv> 0xFFFFFFFFFFFFFFFF"

subsection \<open>Return codes\<close>

abbreviation (input) CKR_OK :: u64 where "CKR_OK \<equiv> 0"
abbreviation (input) CKR_CANCEL :: u64 where "CKR_CANCEL \<equiv> 1"
abbreviation (input) CKR_HOST_MEMORY :: u64 where "CKR_HOST_MEMORY \<equiv> 2"
abbreviation (input) CKR_SLOT_ID_INVALID :: u64 where "CKR_SLOT_ID_INVALID \<equiv> 3"
abbreviation (input) CKR_GENERAL_ERROR :: u64 where "CKR_GENERAL_ERROR \<equiv> 5"
abbreviation (input) CKR_FUNCTION_FAILED :: u64 where "CKR_FUNCTION_FAILED \<equiv> 6"
abbreviation (input) CKR_ARGUMENTS_BAD :: u64 where "CKR_ARGUMENTS_BAD \<equiv> 7"
abbreviation (input) CKR_BUFFER_TOO_SMALL :: u64 where "CKR_BUFFER_TOO_SMALL \<equiv> 0x150"
abbreviation (input) CKR_NO_EVENT :: u64 where "CKR_NO_EVENT \<equiv> 8"
abbreviation (input) CKR_NEED_TO_CREATE_THREADS :: u64 where "CKR_NEED_TO_CREATE_THREADS \<equiv> 9"
abbreviation (input) CKR_CANT_LOCK :: u64 where "CKR_CANT_LOCK \<equiv> 0xA"
abbreviation (input) CKR_ATTRIBUTE_READ_ONLY :: u64 where "CKR_ATTRIBUTE_READ_ONLY \<equiv> 0x10"
abbreviation (input) CKR_ATTRIBUTE_SENSITIVE :: u64 where "CKR_ATTRIBUTE_SENSITIVE \<equiv> 0x11"
abbreviation (input) CKR_ATTRIBUTE_TYPE_INVALID :: u64 where "CKR_ATTRIBUTE_TYPE_INVALID \<equiv> 0x12"
abbreviation (input) CKR_ATTRIBUTE_VALUE_INVALID :: u64 where "CKR_ATTRIBUTE_VALUE_INVALID \<equiv> 0x13"
abbreviation (input) CKR_DATA_INVALID :: u64 where "CKR_DATA_INVALID \<equiv> 0x14"
abbreviation (input) CKR_DATA_LEN_RANGE :: u64 where "CKR_DATA_LEN_RANGE \<equiv> 0x15"
abbreviation (input) CKR_DEVICE_ERROR :: u64 where "CKR_DEVICE_ERROR \<equiv> 0x30"
abbreviation (input) CKR_DEVICE_MEMORY :: u64 where "CKR_DEVICE_MEMORY \<equiv> 0x31"
abbreviation (input) CKR_DEVICE_REMOVED :: u64 where "CKR_DEVICE_REMOVED \<equiv> 0x32"
abbreviation (input) CKR_ENCRYPTED_DATA_INVALID :: u64 where "CKR_ENCRYPTED_DATA_INVALID \<equiv> 0x40"
abbreviation (input) CKR_ENCRYPTED_DATA_LEN_RANGE :: u64 where "CKR_ENCRYPTED_DATA_LEN_RANGE \<equiv> 0x41"
abbreviation (input) CKR_DECRYPTED_DATA_LEN_RANGE :: u64 where "CKR_DECRYPTED_DATA_LEN_RANGE \<equiv> 0x42"
abbreviation (input) CKR_DATA_RANGE :: u64 where "CKR_DATA_RANGE \<equiv> 0x43"
abbreviation (input) CKR_MECHANISM_INVALID :: u64 where "CKR_MECHANISM_INVALID \<equiv> 0x50"
abbreviation (input) CKR_MECHANISM_PARAM_INVALID :: u64 where "CKR_MECHANISM_PARAM_INVALID \<equiv> 0x51"
abbreviation (input) CKR_OBJECT_HANDLE_INVALID :: u64 where "CKR_OBJECT_HANDLE_INVALID \<equiv> 0x52"
abbreviation (input) CKR_OPERATION_ACTIVE :: u64 where "CKR_OPERATION_ACTIVE \<equiv> 0x53"
abbreviation (input) CKR_OPERATION_NOT_INITIALIZED :: u64 where "CKR_OPERATION_NOT_INITIALIZED \<equiv> 0x54"
abbreviation (input) CKR_PIN_INCORRECT :: u64 where "CKR_PIN_INCORRECT \<equiv> 0x5A"
abbreviation (input) CKR_PIN_INVALID :: u64 where "CKR_PIN_INVALID \<equiv> 0x5B"
abbreviation (input) CKR_PIN_LEN_RANGE :: u64 where "CKR_PIN_LEN_RANGE \<equiv> 0x5C"
abbreviation (input) CKR_PIN_EXPIRED :: u64 where "CKR_PIN_EXPIRED \<equiv> 0x5D"
abbreviation (input) CKR_PIN_LOCKED :: u64 where "CKR_PIN_LOCKED \<equiv> 0x5E"
abbreviation (input) CKR_SESSION_CLOSED :: u64 where "CKR_SESSION_CLOSED \<equiv> 0x5F"
abbreviation (input) CKR_SESSION_COUNT :: u64 where "CKR_SESSION_COUNT \<equiv> 0x60"
abbreviation (input) CKR_SESSION_HANDLE_INVALID :: u64 where "CKR_SESSION_HANDLE_INVALID \<equiv> 0x61"
abbreviation (input) CKR_SESSION_PARALLEL_NOT_SUPPORTED :: u64 where "CKR_SESSION_PARALLEL_NOT_SUPPORTED \<equiv> 0x62"
abbreviation (input) CKR_SESSION_READ_ONLY :: u64 where "CKR_SESSION_READ_ONLY \<equiv> 0x63"
abbreviation (input) CKR_SESSION_EXISTS :: u64 where "CKR_SESSION_EXISTS \<equiv> 0x64"
abbreviation (input) CKR_SESSION_READ_ONLY_SO_EXISTS :: u64 where "CKR_SESSION_READ_ONLY_SO_EXISTS \<equiv> 0x65"
abbreviation (input) CKR_SESSION_WRITE_SO_EXISTS :: u64 where "CKR_SESSION_WRITE_SO_EXISTS \<equiv> 0x66"
abbreviation (input) CKR_SPI :: u64 where "CKR_SPI \<equiv> 0x67"
abbreviation (input) CKR_SPI_ATTRIBUTE_READ_ONLY :: u64 where "CKR_SPI_ATTRIBUTE_READ_ONLY \<equiv> 0x68"
abbreviation (input) CKR_SPI_ATTRIBUTE_SENSITIVE :: u64 where "CKR_SPI_ATTRIBUTE_SENSITIVE \<equiv> 0x69"
abbreviation (input) CKR_TEMPLATE_INCOMPLETE :: u64 where "CKR_TEMPLATE_INCOMPLETE \<equiv> 0x70"
abbreviation (input) CKR_TEMPLATE_INCONSISTENT :: u64 where "CKR_TEMPLATE_INCONSISTENT \<equiv> 0x71"
abbreviation (input) CKR_TOKEN_NOT_PRESENT :: u64 where "CKR_TOKEN_NOT_PRESENT \<equiv> 0x72"
abbreviation (input) CKR_TOKEN_NOT_RECOGNIZED :: u64 where "CKR_TOKEN_NOT_RECOGNIZED \<equiv> 0x73"
abbreviation (input) CKR_TOKEN_WRITE_PROTECTED :: u64 where "CKR_TOKEN_WRITE_PROTECTED \<equiv> 0x74"
abbreviation (input) CKR_UNWRAPPING_KEY_HANDLE_INVALID :: u64 where "CKR_UNWRAPPING_KEY_HANDLE_INVALID \<equiv> 0x75"
abbreviation (input) CKR_UNWRAPPING_KEY_SIZE_RANGE :: u64 where "CKR_UNWRAPPING_KEY_SIZE_RANGE \<equiv> 0x76"
abbreviation (input) CKR_UNWRAPPING_KEY_TYPE_INVALID :: u64 where "CKR_UNWRAPPING_KEY_TYPE_INVALID \<equiv> 0x77"
abbreviation (input) CKR_USER_ALREADY_LOGGED_IN :: u64 where "CKR_USER_ALREADY_LOGGED_IN \<equiv> 0x78"
abbreviation (input) CKR_USER_NOT_LOGGED_IN :: u64 where "CKR_USER_NOT_LOGGED_IN \<equiv> 0x79"
abbreviation (input) CKR_USER_PIN_NOT_INITIALIZED :: u64 where "CKR_USER_PIN_NOT_INITIALIZED \<equiv> 0x7A"
abbreviation (input) CKR_USER_TYPE_INVALID :: u64 where "CKR_USER_TYPE_INVALID \<equiv> 0x7B"
abbreviation (input) CKR_USER_ANOTHER_ALREADY_LOGGED_IN :: u64 where "CKR_USER_ANOTHER_ALREADY_LOGGED_IN \<equiv> 0x7C"
abbreviation (input) CKR_USER_TOO_MANY_TYPES :: u64 where "CKR_USER_TOO_MANY_TYPES \<equiv> 0x7D"
abbreviation (input) CKR_WRAPPED_KEY_INVALID :: u64 where "CKR_WRAPPED_KEY_INVALID \<equiv> 0x7E"
abbreviation (input) CKR_WRAPPED_KEY_LEN_RANGE :: u64 where "CKR_WRAPPED_KEY_LEN_RANGE \<equiv> 0x7F"
abbreviation (input) CKR_WRAPPED_KEY_TYPE_INVALID :: u64 where "CKR_WRAPPED_KEY_TYPE_INVALID \<equiv> 0x80"
abbreviation (input) CKR_WRAPPING_KEY_HANDLE_INVALID :: u64 where "CKR_WRAPPING_KEY_HANDLE_INVALID \<equiv> 0x69"
abbreviation (input) CKR_PKEY_LT_KEY :: u64 where "CKR_PKEY_LT_KEY \<equiv> 0x90"
abbreviation (input) CKR_PKEY_GT_KEY :: u64 where "CKR_PKEY_GT_KEY \<equiv> 0x91"
abbreviation (input) CKR_TOKEN_WRITE_WITH_SO_SESSION :: u64 where "CKR_TOKEN_WRITE_WITH_SO_SESSION \<equiv> 0x92"
abbreviation (input) CKR_KEY_HANDLE_INVALID :: u64 where "CKR_KEY_HANDLE_INVALID \<equiv> 0x93"
abbreviation (input) CKR_KEY_CHANGED :: u64 where "CKR_KEY_CHANGED \<equiv> 0x94"
abbreviation (input) CKR_KEY_NEEDED :: u64 where "CKR_KEY_NEEDED \<equiv> 0x95"
abbreviation (input) CKR_KEY_INDIGESTIBLE :: u64 where "CKR_KEY_INDIGESTIBLE \<equiv> 0x96"
abbreviation (input) CKR_KEY_FUNCTION_NOT_PERMITTED :: u64 where "CKR_KEY_FUNCTION_NOT_PERMITTED \<equiv> 0x97"
abbreviation (input) CKR_KEY_NOT_WRAPPABLE :: u64 where "CKR_KEY_NOT_WRAPPABLE \<equiv> 0x98"
abbreviation (input) CKR_KEY_EXTRACTABLE :: u64 where "CKR_KEY_EXTRACTABLE \<equiv> 0x99"
abbreviation (input) CKR_KEY_TYPE_INCONSISTENT :: u64 where "CKR_KEY_TYPE_INCONSISTENT \<equiv> 0x9A"
abbreviation (input) CKR_KEY_NOT_NEEDS_CHANGE :: u64 where "CKR_KEY_NOT_NEEDS_CHANGE \<equiv> 0x9B"
abbreviation (input) CKR_HASH_KEY :: u64 where "CKR_HASH_KEY \<equiv> 0xA0"
abbreviation (input) CKR_APPLICATION_NAME_INVALID :: u64 where "CKR_APPLICATION_NAME_INVALID \<equiv> 0x101"
abbreviation (input) CKR_USER_PIN_ALREADY_INITIALIZED :: u64 where "CKR_USER_PIN_ALREADY_INITIALIZED \<equiv> 0x102"
abbreviation (input) CKR_USER_PIN_LOCKED :: u64 where "CKR_USER_PIN_LOCKED \<equiv> 0x103"
abbreviation (input) CKR_USER_PIN_EXPIRED :: u64 where "CKR_USER_PIN_EXPIRED \<equiv> 0x104"
abbreviation (input) CKR_USER_PIN_INCORRECT :: u64 where "CKR_USER_PIN_INCORRECT \<equiv> 0x105"
abbreviation (input) CKR_USER_ELSE_LOCKED :: u64 where "CKR_USER_ELSE_LOCKED \<equiv> 0x106"
abbreviation (input) CKR_SO_PIN_NOT_INITIALIZED :: u64 where "CKR_SO_PIN_NOT_INITIALIZED \<equiv> 0x107"
abbreviation (input) CKR_SO_PIN_ALREADY_INITIALIZED :: u64 where "CKR_SO_PIN_ALREADY_INITIALIZED \<equiv> 0x108"
abbreviation (input) CKR_SO_PIN_LOCKED :: u64 where "CKR_SO_PIN_LOCKED \<equiv> 0x109"
abbreviation (input) CKR_SO_PIN_EXPIRED :: u64 where "CKR_SO_PIN_EXPIRED \<equiv> 0x110"
abbreviation (input) CKR_SO_PIN_INCORRECT :: u64 where "CKR_SO_PIN_INCORRECT \<equiv> 0x111"
abbreviation (input) CKR_CRYPTOKI_NOT_INITIALIZED :: u64 where "CKR_CRYPTOKI_NOT_INITIALIZED \<equiv> 0xD0"
abbreviation (input) CKR_CRYPTOKI_ALREADY_INITIALIZED :: u64 where "CKR_CRYPTOKI_ALREADY_INITIALIZED \<equiv> 0xD1"
abbreviation (input) CKR_FUNCTION_NOT_PARALLEL :: u64 where "CKR_FUNCTION_NOT_PARALLEL \<equiv> 0xD2"
abbreviation (input) CKR_FUNCTION_NOT_SUPPORTED :: u64 where "CKR_FUNCTION_NOT_SUPPORTED \<equiv> 0x54"
abbreviation (input) CKR_SIGNATURE_INVALID :: u64 where "CKR_SIGNATURE_INVALID \<equiv> 0x56"
abbreviation (input) CKR_SIGNATURE_LEN_RANGE :: u64 where "CKR_SIGNATURE_LEN_RANGE \<equiv> 0x57"
abbreviation (input) CKR_GENERATE_KEY_RANDOM :: u64 where "CKR_GENERATE_KEY_RANDOM \<equiv> 0x58"
abbreviation (input) CKR_GENERATE_KEY_PAIR_RANDOM :: u64 where "CKR_GENERATE_KEY_PAIR_RANDOM \<equiv> 0x59"
abbreviation (input) CKR_KEY_SIZE_RANGE :: u64 where "CKR_KEY_SIZE_RANGE \<equiv> 0xA1"
abbreviation (input) CKR_KEY_TYPE_RANGE :: u64 where "CKR_KEY_TYPE_RANGE \<equiv> 0xA3"
abbreviation (input) CKR_KEY_UNEXTRACTABLE :: u64 where "CKR_KEY_UNEXTRACTABLE \<equiv> 0x130"
abbreviation (input) CKR_ACTION_PROHIBITED :: u64 where "CKR_ACTION_PROHIBITED \<equiv> 0x148"

subsection \<open>Object classes\<close>

abbreviation (input) CKO_DATA :: u64 where "CKO_DATA \<equiv> 0"
abbreviation (input) CKO_CERTIFICATE :: u64 where "CKO_CERTIFICATE \<equiv> 1"
abbreviation (input) CKO_PUBLIC_KEY :: u64 where "CKO_PUBLIC_KEY \<equiv> 2"
abbreviation (input) CKO_PRIVATE_KEY :: u64 where "CKO_PRIVATE_KEY \<equiv> 3"
abbreviation (input) CKO_SECRET_KEY :: u64 where "CKO_SECRET_KEY \<equiv> 4"
abbreviation (input) CKO_HW_FEATURE :: u64 where "CKO_HW_FEATURE \<equiv> 5"
abbreviation (input) CKO_DOMAIN_PARAMETERS :: u64 where "CKO_DOMAIN_PARAMETERS \<equiv> 6"
abbreviation (input) CKO_MECHANISM :: u64 where "CKO_MECHANISM \<equiv> 7"
abbreviation (input) CKO_OTP_KEY :: u64 where "CKO_OTP_KEY \<equiv> 8"
abbreviation (input) CKO_OTHER :: u64 where "CKO_OTHER \<equiv> 0x10"
abbreviation (input) CKO_VENDOR_DEFINED :: u64 where "CKO_VENDOR_DEFINED \<equiv> 0x80000000"

subsection \<open>Key types\<close>

abbreviation (input) CKK_RSA :: u64 where "CKK_RSA \<equiv> 0"
abbreviation (input) CKK_DSA :: u64 where "CKK_DSA \<equiv> 1"
abbreviation (input) CKK_DH :: u64 where "CKK_DH \<equiv> 2"
abbreviation (input) CKK_EC :: u64 where "CKK_EC \<equiv> 3"
abbreviation (input) CKK_X9_42_DH :: u64 where "CKK_X9_42_DH \<equiv> 4"
abbreviation (input) CKK_KEA :: u64 where "CKK_KEA \<equiv> 5"
abbreviation (input) CKK_GENERIC_SECRET :: u64 where "CKK_GENERIC_SECRET \<equiv> 0x10"
abbreviation (input) CKK_RC4 :: u64 where "CKK_RC4 \<equiv> 0x12"
abbreviation (input) CKK_DES :: u64 where "CKK_DES \<equiv> 0x13"
abbreviation (input) CKK_DES2 :: u64 where "CKK_DES2 \<equiv> 0x14"
abbreviation (input) CKK_DES3 :: u64 where "CKK_DES3 \<equiv> 0x15"
abbreviation (input) CKK_CAST128 :: u64 where "CKK_CAST128 \<equiv> 0x18"
abbreviation (input) CKK_RC5 :: u64 where "CKK_RC5 \<equiv> 0x19"
abbreviation (input) CKK_AES :: u64 where "CKK_AES \<equiv> 0x1F"
abbreviation (input) CKK_BLOWFISH :: u64 where "CKK_BLOWFISH \<equiv> 0x20"
abbreviation (input) CKK_TWOFISH :: u64 where "CKK_TWOFISH \<equiv> 0x21"
abbreviation (input) CKK_SHA_1_HMAC :: u64 where "CKK_SHA_1_HMAC \<equiv> 0x28"
abbreviation (input) CKK_SHA256_HMAC :: u64 where "CKK_SHA256_HMAC \<equiv> 0x2B"
abbreviation (input) CKK_SHA384_HMAC :: u64 where "CKK_SHA384_HMAC \<equiv> 0x2C"
abbreviation (input) CKK_SHA512_HMAC :: u64 where "CKK_SHA512_HMAC \<equiv> 0x2D"
abbreviation (input) CKK_EC_EDWARDS :: u64 where "CKK_EC_EDWARDS \<equiv> 0x40"
abbreviation (input) CKK_EC_MONTGOMERY :: u64 where "CKK_EC_MONTGOMERY \<equiv> 0x41"
abbreviation (input) CKK_VENDOR_DEFINED :: u64 where "CKK_VENDOR_DEFINED \<equiv> 0x80000000"

subsection \<open>Attribute types\<close>

abbreviation (input) CKA_CLASS :: u64 where "CKA_CLASS \<equiv> 0"
abbreviation (input) CKA_TOKEN :: u64 where "CKA_TOKEN \<equiv> 1"
abbreviation (input) CKA_PRIVATE :: u64 where "CKA_PRIVATE \<equiv> 2"
abbreviation (input) CKA_LABEL :: u64 where "CKA_LABEL \<equiv> 3"
abbreviation (input) CKA_APPLICATION :: u64 where "CKA_APPLICATION \<equiv> 0x10"
abbreviation (input) CKA_VALUE :: u64 where "CKA_VALUE \<equiv> 0x11"
abbreviation (input) CKA_OBJECT_ID :: u64 where "CKA_OBJECT_ID \<equiv> 0x12"
abbreviation (input) CKA_CERTIFICATE_TYPE :: u64 where "CKA_CERTIFICATE_TYPE \<equiv> 0x80"
abbreviation (input) CKA_ISSUER :: u64 where "CKA_ISSUER \<equiv> 0x81"
abbreviation (input) CKA_SERIAL_NUMBER :: u64 where "CKA_SERIAL_NUMBER \<equiv> 0x82"
abbreviation (input) CKA_ATTR_TYPES :: u64 where "CKA_ATTR_TYPES \<equiv> 0x85"
abbreviation (input) CKA_TRUSTED :: u64 where "CKA_TRUSTED \<equiv> 0x86"
abbreviation (input) CKA_URL :: u64 where "CKA_URL \<equiv> 0x89"
abbreviation (input) CKA_CHECK_VALUE :: u64 where "CKA_CHECK_VALUE \<equiv> 0x90"
abbreviation (input) CKA_KEY_TYPE :: u64 where "CKA_KEY_TYPE \<equiv> 0x100"
abbreviation (input) CKA_SUBJECT :: u64 where "CKA_SUBJECT \<equiv> 0x101"
abbreviation (input) CKA_ID :: u64 where "CKA_ID \<equiv> 0x102"
abbreviation (input) CKA_SENSITIVE :: u64 where "CKA_SENSITIVE \<equiv> 0x103"
abbreviation (input) CKA_ENCRYPT :: u64 where "CKA_ENCRYPT \<equiv> 0x104"
abbreviation (input) CKA_DECRYPT :: u64 where "CKA_DECRYPT \<equiv> 0x105"
abbreviation (input) CKA_WRAP :: u64 where "CKA_WRAP \<equiv> 0x106"
abbreviation (input) CKA_UNWRAP :: u64 where "CKA_UNWRAP \<equiv> 0x107"
abbreviation (input) CKA_SIGN :: u64 where "CKA_SIGN \<equiv> 0x108"
abbreviation (input) CKA_SIGN_RECOVER :: u64 where "CKA_SIGN_RECOVER \<equiv> 0x109"
abbreviation (input) CKA_VERIFY :: u64 where "CKA_VERIFY \<equiv> 0x10A"
abbreviation (input) CKA_VERIFY_RECOVER :: u64 where "CKA_VERIFY_RECOVER \<equiv> 0x10B"
abbreviation (input) CKA_DERIVE :: u64 where "CKA_DERIVE \<equiv> 0x10C"
abbreviation (input) CKA_START_DATE :: u64 where "CKA_START_DATE \<equiv> 0x110"
abbreviation (input) CKA_END_DATE :: u64 where "CKA_END_DATE \<equiv> 0x111"
abbreviation (input) CKA_MODULUS :: u64 where "CKA_MODULUS \<equiv> 0x120"
abbreviation (input) CKA_MODULUS_BITS :: u64 where "CKA_MODULUS_BITS \<equiv> 0x121"
abbreviation (input) CKA_PUBLIC_EXPONENT :: u64 where "CKA_PUBLIC_EXPONENT \<equiv> 0x122"
abbreviation (input) CKA_PRIVATE_EXPONENT :: u64 where "CKA_PRIVATE_EXPONENT \<equiv> 0x123"
abbreviation (input) CKA_PRIME_1 :: u64 where "CKA_PRIME_1 \<equiv> 0x124"
abbreviation (input) CKA_PRIME_2 :: u64 where "CKA_PRIME_2 \<equiv> 0x125"
abbreviation (input) CKA_EXPONENT_1 :: u64 where "CKA_EXPONENT_1 \<equiv> 0x126"
abbreviation (input) CKA_EXPONENT_2 :: u64 where "CKA_EXPONENT_2 \<equiv> 0x127"
abbreviation (input) CKA_COEFFICIENT :: u64 where "CKA_COEFFICIENT \<equiv> 0x128"
abbreviation (input) CKA_PUBLIC_KEY_INFO :: u64 where "CKA_PUBLIC_KEY_INFO \<equiv> 0x129"
abbreviation (input) CKA_PRIME :: u64 where "CKA_PRIME \<equiv> 0x130"
abbreviation (input) CKA_SUBPRIME :: u64 where "CKA_SUBPRIME \<equiv> 0x131"
abbreviation (input) CKA_BASE :: u64 where "CKA_BASE \<equiv> 0x132"
abbreviation (input) CKA_PRIME_BITS :: u64 where "CKA_PRIME_BITS \<equiv> 0x133"
abbreviation (input) CKA_SUBPRIME_BITS :: u64 where "CKA_SUBPRIME_BITS \<equiv> 0x134"
abbreviation (input) CKA_VALUE_BITS :: u64 where "CKA_VALUE_BITS \<equiv> 0x160"
abbreviation (input) CKA_VALUE_LEN :: u64 where "CKA_VALUE_LEN \<equiv> 0x161"
abbreviation (input) CKA_EXTRACTABLE :: u64 where "CKA_EXTRACTABLE \<equiv> 0x162"
abbreviation (input) CKA_LOCAL :: u64 where "CKA_LOCAL \<equiv> 0x163"
abbreviation (input) CKA_NEVER_EXTRACTABLE :: u64 where "CKA_NEVER_EXTRACTABLE \<equiv> 0x164"
abbreviation (input) CKA_ALWAYS_SENSITIVE :: u64 where "CKA_ALWAYS_SENSITIVE \<equiv> 0x165"
abbreviation (input) CKA_KEY_GEN_MECHANISM :: u64 where "CKA_KEY_GEN_MECHANISM \<equiv> 0x166"
abbreviation (input) CKA_MODIFIABLE :: u64 where "CKA_MODIFIABLE \<equiv> 0x170"
abbreviation (input) CKA_COPYABLE :: u64 where "CKA_COPYABLE \<equiv> 0x171"
abbreviation (input) CKA_DESTROYABLE :: u64 where "CKA_DESTROYABLE \<equiv> 0x172"
abbreviation (input) CKA_EC_PARAMS :: u64 where "CKA_EC_PARAMS \<equiv> 0x180"
abbreviation (input) CKA_EC_POINT :: u64 where "CKA_EC_POINT \<equiv> 0x181"
abbreviation (input) CKA_ALWAYS_AUTHENTICATE :: u64 where "CKA_ALWAYS_AUTHENTICATE \<equiv> 0x202"
abbreviation (input) CKA_WRAP_WITH_TRUSTED :: u64 where "CKA_WRAP_WITH_TRUSTED \<equiv> 0x210"
abbreviation (input) CKA_ALLOWED_MECHANISMS :: u64 where "CKA_ALLOWED_MECHANISMS \<equiv> 0x600"
abbreviation (input) CKA_VENDOR_DEFINED :: u64 where "CKA_VENDOR_DEFINED \<equiv> 0x80000000"
abbreviation (input) CKA_VHSM_RSA_PRIV :: u64 where "CKA_VHSM_RSA_PRIV \<equiv> 0x81000001"
abbreviation (input) CKA_VHSM_RSA_PUB :: u64 where "CKA_VHSM_RSA_PUB \<equiv> 0x81000002"
abbreviation (input) CKA_VHSM_EC_PRIV :: u64 where "CKA_VHSM_EC_PRIV \<equiv> 0x81000003"
abbreviation (input) CKA_VHSM_EC_PUB :: u64 where "CKA_VHSM_EC_PUB \<equiv> 0x81000004"
abbreviation (input) CKA_VHSM_POLICY :: u64 where "CKA_VHSM_POLICY \<equiv> 0x81000005"
abbreviation (input) CKA_VHSM_ATTESTATION_COUNT :: u64 where "CKA_VHSM_ATTESTATION_COUNT \<equiv> 0x81000006"
abbreviation (input) CKA_VHSM_KEY_STATE :: u64 where "CKA_VHSM_KEY_STATE \<equiv> 0x81000004"

subsection \<open>Mechanisms\<close>

abbreviation (input) CKM_AES_KEY_GEN :: u64 where "CKM_AES_KEY_GEN \<equiv> 0x1080"
abbreviation (input) CKM_AES_ECB :: u64 where "CKM_AES_ECB \<equiv> 0x1081"
abbreviation (input) CKM_AES_CBC :: u64 where "CKM_AES_CBC \<equiv> 0x1082"
abbreviation (input) CKM_AES_MAC :: u64 where "CKM_AES_MAC \<equiv> 0x1083"
abbreviation (input) CKM_AES_MAC_GENERAL :: u64 where "CKM_AES_MAC_GENERAL \<equiv> 0x1084"
abbreviation (input) CKM_AES_CBC_PAD :: u64 where "CKM_AES_CBC_PAD \<equiv> 0x1085"
abbreviation (input) CKM_AES_CTR :: u64 where "CKM_AES_CTR \<equiv> 0x1086"
abbreviation (input) CKM_AES_GCM :: u64 where "CKM_AES_GCM \<equiv> 0x1087"
abbreviation (input) CKM_AES_CCM :: u64 where "CKM_AES_CCM \<equiv> 0x1088"
abbreviation (input) CKM_AES_CTS :: u64 where "CKM_AES_CTS \<equiv> 0x1089"
abbreviation (input) CKM_AES_CMAC :: u64 where "CKM_AES_CMAC \<equiv> 0x108A"
abbreviation (input) CKM_AES_XCBC_MAC :: u64 where "CKM_AES_XCBC_MAC \<equiv> 0x108B"
abbreviation (input) CKM_AES_XCBC_MAC_96 :: u64 where "CKM_AES_XCBC_MAC_96 \<equiv> 0x108C"
abbreviation (input) CKM_AES_GMAC :: u64 where "CKM_AES_GMAC \<equiv> 0x108D"
abbreviation (input) CKM_SHA256_RSA_PKCS :: u64 where "CKM_SHA256_RSA_PKCS \<equiv> 0x241"
abbreviation (input) CKM_SHA384_RSA_PKCS :: u64 where "CKM_SHA384_RSA_PKCS \<equiv> 0x242"
abbreviation (input) CKM_SHA512_RSA_PKCS :: u64 where "CKM_SHA512_RSA_PKCS \<equiv> 0x243"
abbreviation (input) CKM_SHA256 :: u64 where "CKM_SHA256 \<equiv> 0x250"
abbreviation (input) CKM_SHA384 :: u64 where "CKM_SHA384 \<equiv> 0x260"
abbreviation (input) CKM_SHA512 :: u64 where "CKM_SHA512 \<equiv> 0x270"
abbreviation (input) CKM_SHA256_HMAC :: u64 where "CKM_SHA256_HMAC \<equiv> 0x290"
abbreviation (input) CKM_SHA384_HMAC :: u64 where "CKM_SHA384_HMAC \<equiv> 0x291"
abbreviation (input) CKM_SHA512_HMAC :: u64 where "CKM_SHA512_HMAC \<equiv> 0x292"
abbreviation (input) CKM_RSA_PKCS_KEY_PAIR_GEN :: u64 where "CKM_RSA_PKCS_KEY_PAIR_GEN \<equiv> 0"
abbreviation (input) CKM_RSA_PKCS :: u64 where "CKM_RSA_PKCS \<equiv> 1"
abbreviation (input) CKM_RSA_X_509 :: u64 where "CKM_RSA_X_509 \<equiv> 3"
abbreviation (input) CKM_RSA_PKCS_PSS :: u64 where "CKM_RSA_PKCS_PSS \<equiv> 0xD"
abbreviation (input) CKM_RSA_PKCS_OAEP :: u64 where "CKM_RSA_PKCS_OAEP \<equiv> 9"
abbreviation (input) CKM_VENDOR_DEFINED :: u64 where "CKM_VENDOR_DEFINED \<equiv> 0x80000000"
abbreviation (input) CKM_SHA1_RSA_PKCS :: u64 where "CKM_SHA1_RSA_PKCS \<equiv> 0x42"
abbreviation (input) CKM_RSA_PKCS_OAEP_SHA256 :: u64 where "CKM_RSA_PKCS_OAEP_SHA256 \<equiv> 0x88"
abbreviation (input) CKM_RSA_PKCS_OAEP_SHA384 :: u64 where "CKM_RSA_PKCS_OAEP_SHA384 \<equiv> 0x89"
abbreviation (input) CKM_RSA_PKCS_OAEP_SHA512 :: u64 where "CKM_RSA_PKCS_OAEP_SHA512 \<equiv> 0x8A"
abbreviation (input) CKM_SHA1_RSA_PKCS_PSS :: u64 where "CKM_SHA1_RSA_PKCS_PSS \<equiv> 0xE"
abbreviation (input) CKM_SHA256_RSA_PKCS_PSS :: u64 where "CKM_SHA256_RSA_PKCS_PSS \<equiv> 0xF"
abbreviation (input) CKM_SHA384_RSA_PKCS_PSS :: u64 where "CKM_SHA384_RSA_PKCS_PSS \<equiv> 0x10"
abbreviation (input) CKM_SHA512_RSA_PKCS_PSS :: u64 where "CKM_SHA512_RSA_PKCS_PSS \<equiv> 0x11"
abbreviation (input) CKM_ECDSA_PKCS :: u64 where "CKM_ECDSA_PKCS \<equiv> 0x40"
abbreviation (input) CKM_ECDSA :: u64 where "CKM_ECDSA \<equiv> 0x41"
abbreviation (input) CKM_ECDSA_KEY_PAIR_GEN :: u64 where "CKM_ECDSA_KEY_PAIR_GEN \<equiv> 0x40"
abbreviation (input) CKM_ECDSA_SHA1 :: u64 where "CKM_ECDSA_SHA1 \<equiv> 0x42"
abbreviation (input) CKM_ECDSA_SHA256 :: u64 where "CKM_ECDSA_SHA256 \<equiv> 0x1043"
abbreviation (input) CKM_ECDSA_SHA384 :: u64 where "CKM_ECDSA_SHA384 \<equiv> 0x1044"
abbreviation (input) CKM_ECDSA_SHA512 :: u64 where "CKM_ECDSA_SHA512 \<equiv> 0x1045"
abbreviation (input) CKM_EC_KEY_PAIR_GEN :: u64 where "CKM_EC_KEY_PAIR_GEN \<equiv> 0x1040"
abbreviation (input) CKM_SHA_1 :: u64 where "CKM_SHA_1 \<equiv> 0x220"
abbreviation (input) CKM_SHA_224 :: u64 where "CKM_SHA_224 \<equiv> 0x225"
abbreviation (input) CKM_SHA_256 :: u64 where "CKM_SHA_256 \<equiv> 0x250"
abbreviation (input) CKM_SHA_384 :: u64 where "CKM_SHA_384 \<equiv> 0x260"
abbreviation (input) CKM_SHA_512 :: u64 where "CKM_SHA_512 \<equiv> 0x270"
abbreviation (input) CKM_AES_KEY_WRAP :: u64 where "CKM_AES_KEY_WRAP \<equiv> 0x2109"
abbreviation (input) CKM_ECDH1_DERIVE :: u64 where "CKM_ECDH1_DERIVE \<equiv> 0x30"

subsection \<open>Flags\<close>

abbreviation (input) CKF_RW_SESSION :: u64 where "CKF_RW_SESSION \<equiv> 2"
abbreviation (input) CKF_SERIAL_SESSION :: u64 where "CKF_SERIAL_SESSION \<equiv> 4"
abbreviation (input) CKF_TOKEN_PRESENT :: u64 where "CKF_TOKEN_PRESENT \<equiv> 1"
abbreviation (input) CKF_HW_SLOT :: u64 where "CKF_HW_SLOT \<equiv> 2"
abbreviation (input) CKF_REMOVABLE_DEVICE :: u64 where "CKF_REMOVABLE_DEVICE \<equiv> 4"
abbreviation (input) CKF_LIBRARY_CANT_CREATE_OS_THREADS :: u64 where "CKF_LIBRARY_CANT_CREATE_OS_THREADS \<equiv> 1"
abbreviation (input) CKF_OS_LOCKING_OK :: u64 where "CKF_OS_LOCKING_OK \<equiv> 2"
abbreviation (input) CKF_RNG :: u64 where "CKF_RNG \<equiv> 1"
abbreviation (input) CKF_WRITE_PROTECTED :: u64 where "CKF_WRITE_PROTECTED \<equiv> 2"
abbreviation (input) CKF_LOGIN_REQUIRED :: u64 where "CKF_LOGIN_REQUIRED \<equiv> 4"
abbreviation (input) CKF_USER_PIN_INITIALIZED :: u64 where "CKF_USER_PIN_INITIALIZED \<equiv> 8"
abbreviation (input) CKF_RESTORE_KEY_NOT_NEEDED :: u64 where "CKF_RESTORE_KEY_NOT_NEEDED \<equiv> 0x20"
abbreviation (input) CKF_CLOCK_ON_TOKEN :: u64 where "CKF_CLOCK_ON_TOKEN \<equiv> 0x40"
abbreviation (input) CKF_PROTECTED_AUTHENTICATION_PATH :: u64 where "CKF_PROTECTED_AUTHENTICATION_PATH \<equiv> 0x100"
abbreviation (input) CKF_DUAL_CRYPTO_OPERATIONS :: u64 where "CKF_DUAL_CRYPTO_OPERATIONS \<equiv> 0x200"
abbreviation (input) CKF_TOKEN_INITIALIZED :: u64 where "CKF_TOKEN_INITIALIZED \<equiv> 0x400"
abbreviation (input) CKF_SECONDARY_AUTHENTICATION :: u64 where "CKF_SECONDARY_AUTHENTICATION \<equiv> 0x800"
abbreviation (input) CKF_USER_PIN_COUNT_LOW :: u64 where "CKF_USER_PIN_COUNT_LOW \<equiv> 0x10000"
abbreviation (input) CKF_USER_PIN_FINAL_TRY :: u64 where "CKF_USER_PIN_FINAL_TRY \<equiv> 0x20000"
abbreviation (input) CKF_USER_PIN_LOCKED :: u64 where "CKF_USER_PIN_LOCKED \<equiv> 0x40000"
abbreviation (input) CKF_USER_PIN_TO_BE_CHANGED :: u64 where "CKF_USER_PIN_TO_BE_CHANGED \<equiv> 0x80000"
abbreviation (input) CKF_SO_PIN_COUNT_LOW :: u64 where "CKF_SO_PIN_COUNT_LOW \<equiv> 0x100000"
abbreviation (input) CKF_SO_PIN_FINAL_TRY :: u64 where "CKF_SO_PIN_FINAL_TRY \<equiv> 0x200000"
abbreviation (input) CKF_SO_PIN_LOCKED :: u64 where "CKF_SO_PIN_LOCKED \<equiv> 0x400000"
abbreviation (input) CKF_SO_PIN_TO_BE_CHANGED :: u64 where "CKF_SO_PIN_TO_BE_CHANGED \<equiv> 0x800000"
abbreviation (input) CKF_ERROR_STATE :: u64 where "CKF_ERROR_STATE \<equiv> 0x1000000"
abbreviation (input) CKF_SO_PIN_INITIALIZED :: u64 where "CKF_SO_PIN_INITIALIZED \<equiv> 0x2000000"
abbreviation (input) CKF_HW :: u64 where "CKF_HW \<equiv> 1"
abbreviation (input) CKF_ENCRYPT :: u64 where "CKF_ENCRYPT \<equiv> 0x100"
abbreviation (input) CKF_DECRYPT :: u64 where "CKF_DECRYPT \<equiv> 0x200"
abbreviation (input) CKF_DIGEST :: u64 where "CKF_DIGEST \<equiv> 0x400"
abbreviation (input) CKF_SIGN :: u64 where "CKF_SIGN \<equiv> 0x800"
abbreviation (input) CKF_SIGN_RECOVER :: u64 where "CKF_SIGN_RECOVER \<equiv> 0x1000"
abbreviation (input) CKF_VERIFY :: u64 where "CKF_VERIFY \<equiv> 0x2000"
abbreviation (input) CKF_VERIFY_RECOVER :: u64 where "CKF_VERIFY_RECOVER \<equiv> 0x4000"
abbreviation (input) CKF_GENERATE :: u64 where "CKF_GENERATE \<equiv> 0x8000"
abbreviation (input) CKF_GENERATE_KEY_PAIR :: u64 where "CKF_GENERATE_KEY_PAIR \<equiv> 0x10000"
abbreviation (input) CKF_WRAP :: u64 where "CKF_WRAP \<equiv> 0x20000"
abbreviation (input) CKF_UNWRAP :: u64 where "CKF_UNWRAP \<equiv> 0x40000"
abbreviation (input) CKF_DERIVE :: u64 where "CKF_DERIVE \<equiv> 0x80000"
abbreviation (input) CKF_EC_F_P :: u64 where "CKF_EC_F_P \<equiv> 0x100000"
abbreviation (input) CKF_EC_F_2M :: u64 where "CKF_EC_F_2M \<equiv> 0x200000"
abbreviation (input) CKF_EC_ECPARAMETERS :: u64 where "CKF_EC_ECPARAMETERS \<equiv> 0x400000"
abbreviation (input) CKF_EC_NAMEDCURVE :: u64 where "CKF_EC_NAMEDCURVE \<equiv> 0x800000"
abbreviation (input) CKF_EC_UNCOMPRESS :: u64 where "CKF_EC_UNCOMPRESS \<equiv> 0x1000000"
abbreviation (input) CKF_EC_COMPRESS :: u64 where "CKF_EC_COMPRESS \<equiv> 0x2000000"
abbreviation (input) CKF_EXTENSION :: u64 where "CKF_EXTENSION \<equiv> 0x80000000"
abbreviation (input) CKF_DONT_BLOCK :: u64 where "CKF_DONT_BLOCK \<equiv> 1"
abbreviation (input) CKF_ARRAY_ATTRIBUTE :: u64 where "CKF_ARRAY_ATTRIBUTE \<equiv> 0x40000000"

subsection \<open>User types\<close>

abbreviation (input) CKU_INVALID :: u64 where "CKU_INVALID \<equiv> 0"
abbreviation (input) CKU_USER :: u64 where "CKU_USER \<equiv> 1"
abbreviation (input) CKU_SO :: u64 where "CKU_SO \<equiv> 2"

subsection \<open>Session states\<close>

abbreviation (input) CKS_RO_PUBLIC_SESSION :: u64 where "CKS_RO_PUBLIC_SESSION \<equiv> 0"
abbreviation (input) CKS_RO_USER_FUNCTIONS :: u64 where "CKS_RO_USER_FUNCTIONS \<equiv> 1"
abbreviation (input) CKS_RO_SO_FUNCTIONS :: u64 where "CKS_RO_SO_FUNCTIONS \<equiv> 5"
abbreviation (input) CKS_RW_PUBLIC_SESSION :: u64 where "CKS_RW_PUBLIC_SESSION \<equiv> 2"
abbreviation (input) CKS_RW_USER_FUNCTIONS :: u64 where "CKS_RW_USER_FUNCTIONS \<equiv> 3"
abbreviation (input) CKS_RW_SO_FUNCTIONS :: u64 where "CKS_RW_SO_FUNCTIONS \<equiv> 4"

subsection \<open>Handles\<close>

abbreviation (input) CK_INVALID_HANDLE :: u64 where "CK_INVALID_HANDLE \<equiv> 0"

end
