(* ===== verification/Prelude.thy ===== *)
theory Prelude
  imports Ck_Types "HOL-Library.Monad_Syntax"
begin

text \<open>
  What the component theories share: bit-level facts about 8-, 32- and 64-bit words, facts about
  lists and association lists, and the fact collections the component proofs use.

  Memory is modelled by values.  A C pointer argument is an \<open>option\<close> (\<open>None\<close> is the null
  pointer); a buffer with a length is a byte list together with the length the caller states, and a
  read of \<open>n\<close> bytes through a pointer takes the first \<open>n\<close> of the list.  An out-parameter is a
  component of the returned tuple.
\<close>

unbundle bit_operations_syntax

named_theorems vhsm_defs \<open>unfolding set of the small source helpers\<close>
named_theorems vhsm_inv \<open>preservation lemmas of the component invariants\<close>

subsection \<open>Decimal text\<close>

text \<open>\<open>std::to_string\<close> of an unsigned integer.\<close>

definition digit_char :: "nat \<Rightarrow> char" where
  "digit_char d = char_of (48 + d)"

fun to_string :: "nat \<Rightarrow> string" where
  "to_string n = (if n < 10 then [digit_char n] else to_string (n div 10) @ [digit_char (n mod 10)])"

declare to_string.simps [simp del]

definition is_digit_char :: "char \<Rightarrow> bool" where
  "is_digit_char c = (48 \<le> (of_char c :: nat) \<and> (of_char c :: nat) \<le> 57)"

definition string_value :: "string \<Rightarrow> nat" where
  "string_value s = foldl (\<lambda>v c. 10 * v + (of_char c - 48)) 0 s"

lemma of_char_digit [simp]: "d < 10 \<Longrightarrow> (of_char (digit_char d) :: nat) = 48 + d"
  by (simp add: digit_char_def)

lemma string_value_to_string [simp]: "string_value (to_string n) = n"
proof (induction n rule: to_string.induct)
  case (1 n)
  show ?case
  proof (cases "n < 10")
    case True
    then show ?thesis by (simp add: to_string.simps [of n] string_value_def)
  next
    case False
    then show ?thesis using 1 by (simp add: to_string.simps [of n] string_value_def)
  qed
qed

lemma to_string_inject [simp]: "to_string m = to_string n \<longleftrightarrow> m = n"
  by (metis string_value_to_string)

lemma to_string_digits: "c \<in> set (to_string n) \<Longrightarrow> is_digit_char c"
proof (induction n rule: to_string.induct)
  case (1 n)
  then show ?case by (auto simp: to_string.simps [of n] is_digit_char_def split: if_splits)
qed

lemma to_string_not_Nil [simp]: "to_string n \<noteq> []"
  by (simp add: to_string.simps [of n])

subsection \<open>C pointers and buffers\<close>

definition read_mem :: "bytes option \<Rightarrow> u64 \<Rightarrow> bytes" where
  "read_mem p n = (case p of None \<Rightarrow> [] | Some bs \<Rightarrow> take (unat n) bs)"

lemma read_mem_simps [simp]:
  "read_mem None n = []"
  "read_mem (Some bs) n = take (unat n) bs"
  by (simp_all add: read_mem_def)

lemma read_mem_0 [simp]: "read_mem p 0 = []"
  by (cases p) simp_all

subsection \<open>Words\<close>

lemma word8_cases_bits:
  fixes x y :: u8
  shows "x = y \<longleftrightarrow> (\<forall>n<8. bit x n = bit y n)"
  by (simp add: bit_eq_iff)

lemma all_less_8:
  "(\<forall>n<8. P n) \<longleftrightarrow> P 0 \<and> P 1 \<and> P 2 \<and> P 3 \<and> P 4 \<and> P 5 \<and> P 6 \<and> P (7::nat)"
  by (auto simp: eval_nat_numeral All_less_Suc)

lemma byte_bit_ge: "8 \<le> n \<Longrightarrow> \<not> bit (b :: u8) n"
  using bit_imp_le_length by fastforce

lemmas byte_eq_bits = word8_cases_bits all_less_8 bit_simps byte_bit_ge

subsection \<open>Constant-time comparison\<close>

text \<open>An accumulator that collects differences by disjunction is zero exactly when all are.\<close>

lemma fold_or_zero:
  fixes d :: "'a::len word"
  shows "fold (\<lambda>i acc. acc OR f i) xs d = 0 \<longleftrightarrow> d = 0 \<and> (\<forall>x\<in>set xs. f x = 0)"
  by (induction xs arbitrary: d) (auto simp: or_eq_0_iff)

lemma xor_eq_zero_iff: "x XOR y = 0 \<longleftrightarrow> x = (y :: 'a::len word)"
  by (auto simp: bit_eq_iff bit_simps)

lemma unat_of_nat_len64: "n < 2 ^ 64 \<Longrightarrow> unat (of_nat n :: u64) = n"
  by (simp add: unat_of_nat take_bit_nat_eq_self)

lemma unat_plus_one:
  fixes x :: "'a::len word"
  assumes "x < y"
  shows "unat (x + 1) = unat x + 1"
proof -
  have "unat y < 2 ^ LENGTH('a)" by (rule unsigned_less)
  then have "unat x + unat (1 :: 'a word) < 2 ^ LENGTH('a)"
    using assms by (simp only: word_less_nat_alt unat_1)
  then show ?thesis using unat_add_lem [of x 1] by simp
qed

end
