(* ===== verification/Codec.thy ===== *)
theory Codec
  imports Prelude
begin

text \<open>
  Byte and text codecs: the little-endian integers of persistence/le\_bytes.h and the hexadecimal,
  base64 and UUID helpers of core/utils.cpp.  A \<open>std::vector<uint8_t>\<close> is a byte list and a
  \<open>std::string\<close> a character list; an \<open>std::optional\<close> result is an \<open>option\<close>.  The loops over
  groups of two, three and four elements are recursions over the list.  The integer promotions of
  the C++ expressions never exceed eight significant bits before the final cast except in the left
  shifts of the decoders, where the cast to a byte truncates as the 8-bit shift does.
\<close>

subsection \<open>Little-endian integers\<close>

definition put_le32 :: "u32 \<Rightarrow> bytes" where
  "put_le32 v = [ucast (v AND 0xFF), ucast (drop_bit 8 v AND 0xFF),
                 ucast (drop_bit 16 v AND 0xFF), ucast (drop_bit 24 v AND 0xFF)]"

definition get_le32 :: "bytes \<Rightarrow> u32" where
  "get_le32 p = ucast (p ! 0) OR push_bit 8 (ucast (p ! 1)) OR
                push_bit 16 (ucast (p ! 2)) OR push_bit 24 (ucast (p ! 3))"

definition put_le64 :: "u64 \<Rightarrow> bytes" where
  "put_le64 v = map (\<lambda>i. ucast (drop_bit (8 * i) v AND 0xFF)) [0..<8]"

definition get_le64 :: "bytes \<Rightarrow> u64" where
  "get_le64 p = fold (\<lambda>i v. push_bit 8 v OR ucast (p ! i)) [7, 6, 5, 4, 3, 2, 1, 0] 0"

subsection \<open>Hexadecimal\<close>

definition K_HEX_CHARS :: string where
  "K_HEX_CHARS = ''0123456789abcdef''"

primrec hex_encode :: "bytes \<Rightarrow> string" where
  "hex_encode [] = []"
| "hex_encode (b # bs) =
     K_HEX_CHARS ! unat (drop_bit 4 b) # K_HEX_CHARS ! unat (b AND 0x0F) # hex_encode bs"

definition hex_val :: "char \<Rightarrow> u8" where
  "hex_val ch = (let c = of_char ch in
     if of_char (CHR ''0'') \<le> c \<and> c \<le> of_char (CHR ''9'') then c - of_char (CHR ''0'')
     else if of_char (CHR ''a'') \<le> c \<and> c \<le> of_char (CHR ''f'') then c - of_char (CHR ''a'') + 10
     else if of_char (CHR ''A'') \<le> c \<and> c \<le> of_char (CHR ''F'') then c - of_char (CHR ''A'') + 10
     else 0xFF)"

fun hex_decode_loop :: "string \<Rightarrow> bytes \<Rightarrow> bytes option" where
  "hex_decode_loop (c0 # c1 # s) out =
     (let hi = hex_val c0; lo = hex_val c1 in
      if hi = 0xFF \<or> lo = 0xFF then None
      else hex_decode_loop s (out @ [push_bit 4 hi OR lo]))"
| "hex_decode_loop _ out = Some out"

definition hex_decode :: "string \<Rightarrow> bytes option" where
  "hex_decode s = (if length s mod 2 \<noteq> 0 then None else hex_decode_loop s [])"

subsection \<open>Base64\<close>

definition K_B64_CHARS :: string where
  "K_B64_CHARS = ''ABCDEFGHIJKLMNOPQRSTUVWXYZabcdefghijklmnopqrstuvwxyz0123456789+/''"

fun base64_encode :: "bytes \<Rightarrow> string" where
  "base64_encode [] = []"
| "base64_encode [b0] =
     [K_B64_CHARS ! unat (drop_bit 2 b0),
      K_B64_CHARS ! unat (push_bit 4 (b0 AND 0x03) OR drop_bit 4 0), CHR ''='', CHR ''='']"
| "base64_encode [b0, b1] =
     [K_B64_CHARS ! unat (drop_bit 2 b0),
      K_B64_CHARS ! unat (push_bit 4 (b0 AND 0x03) OR drop_bit 4 b1),
      K_B64_CHARS ! unat (push_bit 2 (b1 AND 0x0F) OR drop_bit 6 0), CHR ''='']"
| "base64_encode (b0 # b1 # b2 # bs) =
     K_B64_CHARS ! unat (drop_bit 2 b0)
     # K_B64_CHARS ! unat (push_bit 4 (b0 AND 0x03) OR drop_bit 4 b1)
     # K_B64_CHARS ! unat (push_bit 2 (b1 AND 0x0F) OR drop_bit 6 b2)
     # K_B64_CHARS ! unat (b2 AND 0x3F) # base64_encode bs"

definition make_b64_decode_table :: "char \<Rightarrow> u8" where
  "make_b64_decode_table =
     (fold (\<lambda>i t. t(K_B64_CHARS ! i := of_nat i)) [0..<64] (\<lambda>_. 0xFF))(CHR ''='' := 0xFE)"

fun base64_decode_loop :: "string \<Rightarrow> bytes \<Rightarrow> bytes option" where
  "base64_decode_loop (s0 # s1 # s2 # s3 # s) out =
     (let c0 = make_b64_decode_table s0; c1 = make_b64_decode_table s1;
          c2 = make_b64_decode_table s2; c3 = make_b64_decode_table s3;
          pad2 = (c2 = 0xFE); pad1 = (c3 = 0xFE) in
      if 0xFE \<le> c0 \<or> 0xFE \<le> c1 then None
      else if c2 = 0xFF \<or> c3 = 0xFF then None
      else if pad2 \<and> \<not> pad1 then None
      else if (pad2 \<or> pad1) \<and> s \<noteq> [] then None
      else base64_decode_loop s
        (out @ [push_bit 2 c0 OR drop_bit 4 c1]
             @ (if \<not> pad2 then [push_bit 4 c1 OR drop_bit 2 c2] else [])
             @ (if \<not> pad2 \<and> \<not> pad1 then [push_bit 6 c2 OR c3] else [])))"
| "base64_decode_loop _ out = Some out"

definition base64_decode :: "string \<Rightarrow> bytes option" where
  "base64_decode s = (if length s mod 4 \<noteq> 0 then None else base64_decode_loop s [])"

subsection \<open>UUIDs\<close>

text \<open>The sixteen bytes drawn by \<open>csprng_fill\<close> are the argument \<open>rnd\<close>.\<close>

definition uuid_v4 :: "bytes \<Rightarrow> string" where
  "uuid_v4 rnd0 =
     (let rnd1 = rnd0[6 := (rnd0 ! 6 AND 0x0F) OR 0x40];
          rnd = rnd1[8 := (rnd1 ! 8 AND 0x3F) OR 0x80];
          x = (\<lambda>i j. hex_encode (map ((!) rnd) [i..<j])) in
      x 0 4 @ ''-'' @ x 4 6 @ ''-'' @ x 6 8 @ ''-'' @ x 8 10 @ ''-'' @ x 10 16)"

subsection \<open>Interface: fixed-width codecs\<close>

text \<open>
  What the binary formats rely on: a codec of fixed width whose reader inverts its writer also
  when more bytes follow.
\<close>

locale fixed_codec =
  fixes put :: "'a \<Rightarrow> bytes" and get :: "bytes \<Rightarrow> 'a" and width :: nat
  assumes length_put: "length (put v) = width"
    and get_put: "get (put v @ rest) = v"
begin

lemma get_put_nil: "get (put v) = v"
  using get_put [of v "[]"] by simp

lemma put_inject: "put v = put w \<longleftrightarrow> v = w"
  by (metis get_put_nil)

lemma get_at: "length pre = n \<Longrightarrow> get (drop n (pre @ put v @ rest)) = v"
  by (simp add: get_put)

lemma put_append_inject: "put v @ xs = put w @ ys \<longleftrightarrow> v = w \<and> xs = ys"
  by (metis get_put same_append_eq)

end

subsection \<open>Interface: text codecs\<close>

text \<open>A textual encoding of byte strings with a partial decoder that inverts it.\<close>

locale text_codec =
  fixes encode :: "bytes \<Rightarrow> string" and decode :: "string \<Rightarrow> bytes option"
  assumes decode_encode: "decode (encode bs) = Some bs"
begin

lemma encode_inject: "encode xs = encode ys \<longleftrightarrow> xs = ys"
  by (metis decode_encode option.inject)

end

subsection \<open>The little-endian codecs\<close>

lemma ucast_and_FF: "(ucast ((v :: 'a::len word) AND 0xFF) :: u8) = ucast v"
proof -
  have m: "(0xFF :: 'a word) = mask 8" by (simp add: mask_eq_exp_minus_1)
  show ?thesis unfolding m by (rule bit_word_eqI) (auto simp: bit_simps dest: bit_imp_le_length)
qed

lemma byte_step:
  "push_bit 8 (drop_bit (8 * Suc i) v) OR ucast (ucast (drop_bit (8 * i) v) :: u8)
     = drop_bit (8 * i) (v :: 'a::len word)"
  by (rule bit_word_eqI) (auto simp: bit_simps not_less algebra_simps)

lemma fold_byte_step:
  "fold (\<lambda>i w. push_bit 8 w OR ucast (ucast (drop_bit (8 * i) v) :: u8)) (rev [0..<n])
     (drop_bit (8 * n) v) = (v :: 'a::len word)"
  by (induction n) (simp_all add: byte_step del: mult_Suc_right push_bit_or)

lemma get_le32_append: "get_le32 (put_le32 v @ rest) = v"
proof (rule bit_word_eqI)
  fix n assume "n < LENGTH(32)"
  then consider "n < 8" | "8 \<le> n" "n < 16" | "16 \<le> n" "n < 24" | "24 \<le> n" "n < 32" by fastforce
  then show "bit (get_le32 (put_le32 v @ rest)) n = bit v n"
    by cases (auto simp: get_le32_def put_le32_def ucast_and_FF bit_simps)
qed

lemma get_le64_append: "get_le64 (put_le64 v @ rest) = v"
proof -
  have z: "drop_bit (8 * 8) v = 0" by (rule bit_word_eqI) (simp add: bit_simps)
  have "get_le64 (put_le64 v @ rest) =
    fold (\<lambda>i w. push_bit 8 w OR ucast (ucast (drop_bit (8 * i) v) :: u8)) (rev [0..<8]) 0"
    unfolding get_le64_def put_le64_def
    by (rule fold_cong) (auto simp: nth_append ucast_and_FF upt_rec)
  then show ?thesis using fold_byte_step [of v 8] z by simp
qed

interpretation le32: fixed_codec put_le32 get_le32 4
  by unfold_locales (rule get_le32_append | simp add: put_le32_def)+

interpretation le64: fixed_codec put_le64 get_le64 8
  by unfold_locales (rule get_le64_append | simp add: put_le64_def)+

subsection \<open>The text codecs\<close>

text \<open>The masks of the encoders stay inside the shifts.\<close>

declare push_bit_and [simp del]

lemma unat_less_of_take_bit: "take_bit n x = x \<Longrightarrow> n < 8 \<Longrightarrow> unat (x :: u8) < 2 ^ n"
  by (metis take_bit_nat_less_exp unsigned_take_bit_eq)

lemma byte_less_bounds [simp]:
  fixes b :: u8
  shows "unat (drop_bit 4 b) < 16" "unat (b AND 0x0F) < 16"
    "unat (drop_bit 2 b) < 64" "unat (b AND 0x3F) < 64"
    "unat (push_bit 4 (b AND 0x03) OR drop_bit 4 c) < 64"
    "unat (push_bit 2 (b AND 0x0F) OR drop_bit 6 c) < 64"
  using unat_less_of_take_bit [of 4 "drop_bit 4 b"] unat_less_of_take_bit [of 4 "b AND 0x0F"]
    unat_less_of_take_bit [of 6 "drop_bit 2 b"] unat_less_of_take_bit [of 6 "b AND 0x3F"]
    unat_less_of_take_bit [of 6 "push_bit 4 (b AND 0x03) OR drop_bit 4 c"]
    unat_less_of_take_bit [of 6 "push_bit 2 (b AND 0x0F) OR drop_bit 6 c"]
  by (simp_all add: byte_eq_bits)

lemma byte_less_pads [simp]:
  fixes b :: u8
  shows "unat (push_bit 4 (b AND 0x03)) < 64" "unat (push_bit 2 (b AND 0x0F)) < 64"
  using byte_less_bounds(5) [of b 0] byte_less_bounds(6) [of b 0] by simp_all

lemma hex_val_table: "\<forall>i\<in>set [0..<16]. hex_val (K_HEX_CHARS ! i) = of_nat i"
  by code_simp

lemma b64_table: "\<forall>i\<in>set [0..<64]. make_b64_decode_table (K_B64_CHARS ! i) = of_nat i"
  by code_simp

lemma b64_pad [simp]: "make_b64_decode_table (CHR ''='') = 0xFE"
  by (simp add: make_b64_decode_table_def)

lemma hex_val_nth [simp]: "unat x < 16 \<Longrightarrow> hex_val (K_HEX_CHARS ! unat x) = x"
  using hex_val_table by simp

lemma b64_decode_nth [simp]: "unat x < 64 \<Longrightarrow> make_b64_decode_table (K_B64_CHARS ! unat x) = x"
  using b64_table by simp

lemma nibbles: "push_bit 4 (drop_bit 4 b) OR (b AND 0x0F) = (b :: u8)"
  by (simp add: byte_eq_bits)

lemma sextets:
  fixes b :: u8
  shows "push_bit 2 (drop_bit 2 b) OR drop_bit 4 (push_bit 4 (b AND 3)) = b"
    "push_bit 4 (drop_bit 4 b) OR drop_bit 2 (push_bit 2 (b AND 0xF)) = b"
    "push_bit 6 (drop_bit 6 b) OR (b AND 0x3F) = b"
  by (simp_all add: byte_eq_bits) (simp add: numeral_2_eq_2 numeral_3_eq_3)

lemma small_not_FF: "unat x < 64 \<Longrightarrow> x < (0xFE :: u8)"
  by (simp add: word_less_nat_alt)

lemma hex_decode_loop_encode: "hex_decode_loop (hex_encode bs) out = Some (out @ bs)"
proof (induction bs arbitrary: out)
  case (Cons b bs)
  have ne: "x \<noteq> 0xFF" if "unat x < 16" for x :: u8 using that by auto
  show ?case
    using ne [OF byte_less_bounds(1) [of b]] ne [OF byte_less_bounds(2) [of b]]
    by (simp add: Let_def Cons.IH nibbles)
qed simp

lemma length_hex_encode [simp]: "length (hex_encode bs) = 2 * length bs"
  by (induction bs) simp_all

interpretation hex: text_codec hex_encode hex_decode
  by unfold_locales (simp add: hex_decode_def hex_decode_loop_encode)

lemma length_base64_encode: "length (base64_encode bs) = (length bs + 2) div 3 * 4"
proof (induction bs rule: base64_encode.induct)
  case (4 b0 b1 b2 bs)
  have "(5 + n) div 3 = Suc ((n + 2) div 3)" for n :: nat by simp
  then show ?case using 4 by simp
qed simp_all

lemma sextet_ne:
  fixes b c :: u8
  shows "\<not> 0xFE \<le> drop_bit 2 b" "\<not> 0xFE \<le> push_bit 4 (b AND 0x03) OR drop_bit 4 c"
    "\<not> 0xFE \<le> push_bit 2 (b AND 0x0F) OR drop_bit 6 c" "\<not> 0xFE \<le> b AND 0x3F"
    "\<not> 0xFE \<le> push_bit 4 (b AND 0x03)" "\<not> 0xFE \<le> push_bit 2 (b AND 0x0F)"
  by (simp_all add: not_le small_not_FF)

lemma ne_of_small: "\<not> (0xFE :: u8) \<le> x \<Longrightarrow> x \<noteq> 0xFE \<and> x \<noteq> 0xFF"
  by auto

lemma base64_decode_loop_encode: "base64_decode_loop (base64_encode bs) out = Some (out @ bs)"
proof (induction bs arbitrary: out rule: base64_encode.induct)
  case (2 b0)
  then show ?case by (simp add: Let_def sextet_ne sextets)
next
  case (3 b0 b1)
  then show ?case
    using ne_of_small [OF sextet_ne(6) [of b1]]
    by (simp add: Let_def sextet_ne sextets)
next
  case (4 b0 b1 b2 bs)
  then show ?case
    using ne_of_small [OF sextet_ne(3) [of b1 b2]] ne_of_small [OF sextet_ne(4) [of b2]]
    by (simp add: Let_def sextet_ne sextets)
qed simp

interpretation b64: text_codec base64_encode base64_decode
  by unfold_locales (simp add: base64_decode_def base64_decode_loop_encode length_base64_encode)

lemma uuid_frame:
  assumes "length a = 8" "length b = 4" "length c = 4" "length d = 4" "length e = 12"
    and "u = a @ ''-'' @ b @ ''-'' @ c @ ''-'' @ d @ ''-'' @ e"
  shows "length u = 36 \<and> map ((!) u) [8, 13, 18, 23] = ''----'' \<and> u ! 14 = c ! 0 \<and> u ! 19 = d ! 0"
  using assms by (simp add: nth_append)

subsection \<open>Properties\<close>

text \<open>
  Base64 is lossless: decoding an encoding returns the bytes, and the encoding has the padded
  length the buffer is allocated with.
\<close>

lemma base64_roundtrip:
  "base64_decode (base64_encode bs) = Some bs \<and>
   length (base64_encode bs) = (length bs + 2) div 3 * 4"
  by (simp add: b64.decode_encode length_base64_encode)

text \<open>
  The identifiers drawn by \<open>uuid_v4\<close> have the shape RFC 4122 asks for: whatever sixteen bytes
  the generator delivers, the text has 36 characters, the four hyphens are at their places, the
  version digit is \<open>4\<close> and the variant digit is one of \<open>8\<close>, \<open>9\<close>, \<open>a\<close>, \<open>b\<close>.
\<close>

lemma uuid_v4_shape:
  assumes "length rnd = 16"
  shows "length (uuid_v4 rnd) = 36 \<and>
    map ((!) (uuid_v4 rnd)) [8, 13, 18, 23] = ''----'' \<and>
    uuid_v4 rnd ! 14 = CHR ''4'' \<and> uuid_v4 rnd ! 19 \<in> set ''89ab''"
proof -
  have v: "drop_bit 4 ((b AND 0x0F) OR 0x40) = 4" for b :: u8 by (simp add: byte_eq_bits)
  have t: "\<forall>x\<in>{8, 9, 10, 11}. K_HEX_CHARS ! x \<in> set ''89ab''" by code_simp
  have m: "drop_bit 4 ((b AND 0x3F) OR 0x80) \<in> {8, 9, 10, 11}" for b :: u8
    by (simp add: byte_eq_bits) blast
  have w: "K_HEX_CHARS ! unat (drop_bit 4 ((b AND 0x3F) OR 0x80)) \<in> set ''89ab''" for b :: u8
  proof -
    have "unat (drop_bit 4 ((b AND 0x3F) OR 0x80)) \<in> {8, 9, 10, 11}"
      using m [of b] by (auto simp del: drop_bit_or)
    then show ?thesis using t by blast
  qed
  have four: "K_HEX_CHARS ! 4 = CHR ''4''" by (simp add: K_HEX_CHARS_def)
  have hd_hex: "hex_encode (map f [i..<i + 2]) ! 0 = K_HEX_CHARS ! unat (drop_bit 4 (f i))" for f i
    by (simp add: upt_conv_Cons)
  define rnd1 where "rnd1 = rnd[6 := (rnd ! 6 AND 0x0F) OR 0x40]"
  define r where "r = rnd1[8 := (rnd1 ! 8 AND 0x3F) OR 0x80]"
  have "r ! 6 = (rnd ! 6 AND 0x0F) OR 0x40" "r ! 8 = (rnd1 ! 8 AND 0x3F) OR 0x80"
    using assms by (simp_all add: r_def rnd1_def)
  note r68 = this
  have c: "hex_encode (map ((!) r) [6..<8]) ! 0 = CHR ''4''"
    using hd_hex [of "(!) r" 6] by (simp add: r68(1) v four del: drop_bit_or)
  have d: "hex_encode (map ((!) r) [8..<10]) ! 0 \<in> set ''89ab''"
    using hd_hex [of "(!) r" 8] w [of "rnd1 ! 8"] by (simp add: r68(2) del: drop_bit_or list.set)
  show ?thesis
    using uuid_frame [of "hex_encode (map ((!) r) [0..<4])" "hex_encode (map ((!) r) [4..<6])"
        "hex_encode (map ((!) r) [6..<8])" "hex_encode (map ((!) r) [8..<10])"
        "hex_encode (map ((!) r) [10..<16])" "uuid_v4 rnd"] c d
    by (simp only: uuid_v4_def Let_def r_def rnd1_def length_hex_encode) simp
qed

end
