(* ===== verification/SecureBuffer.thy ===== *)
theory SecureBuffer
  imports Prelude
begin

text \<open>
  The guarded buffer of core/secure\_buffer.cpp.  Page allocation, guard pages and locking are
  operating-system effects and are not modelled; a buffer is its contents, whose length is fixed at
  construction.  C++ exceptions are values of \<open>cpp_exn\<close>; an operation that may throw returns a sum
  with the exception on the left.
\<close>

datatype cpp_exn = invalid_argument | out_of_range | bad_alloc | runtime_error

definition new_SecureBuffer :: "u64 \<Rightarrow> cpp_exn + bytes" where
  "new_SecureBuffer n = (if n = 0 then Inl runtime_error else Inr (replicate (unat n) 0))"

definition sb_out_of_range :: "bytes \<Rightarrow> u64 \<Rightarrow> u64 \<Rightarrow> bool" where
  "sb_out_of_range buf offset len =
     (let sz = of_nat (length buf) in sz < offset \<or> sz - offset < len)"

definition sb_read :: "bytes \<Rightarrow> u64 \<Rightarrow> bool \<Rightarrow> u64 \<Rightarrow> cpp_exn + bytes" where
  "sb_read buf offset has_dst len =
     (if len = 0 then Inr []
      else if \<not> has_dst then Inl invalid_argument
      else if sb_out_of_range buf offset len then Inl out_of_range
      else Inr (take (unat len) (drop (unat offset) buf)))"

definition sb_write :: "bytes \<Rightarrow> u64 \<Rightarrow> bytes option \<Rightarrow> u64 \<Rightarrow> cpp_exn + bytes" where
  "sb_write buf offset src len =
     (if len = 0 then Inr buf
      else if src = None then Inl invalid_argument
      else if sb_out_of_range buf offset len then Inl out_of_range
      else Inr (take (unat offset) buf @ read_mem src len @ drop (unat offset + unat len) buf))"

definition sb_equals :: "bytes \<Rightarrow> bytes \<Rightarrow> bool" where
  "sb_equals a b =
     (if length a \<noteq> length b then False
      else if a = [] \<and> b = [] then True
      else fold (\<lambda>i acc. acc OR (a ! i XOR b ! i)) [0..<length a] 0 = 0)"

definition sb_wipe :: "bytes \<Rightarrow> bytes" where
  "sb_wipe buf = replicate (length buf) 0"

subsection \<open>Facts\<close>

lemma sb_equals_iff: "sb_equals a b \<longleftrightarrow> a = b"
  by (auto simp: sb_equals_def fold_or_zero xor_eq_zero_iff intro: nth_equalityI)

text \<open>The subtraction in the bounds check is guarded, so the check is exact over the integers.\<close>

lemma sb_out_of_range_iff:
  assumes "length buf < 2 ^ 64"
  shows "sb_out_of_range buf offset len \<longleftrightarrow> length buf < unat offset + unat len"
proof (cases "unat offset \<le> length buf")
  case True
  then have "unat (of_nat (length buf) - offset) = length buf - unat offset"
    using assms by (simp add: unat_sub word_le_nat_alt unat_of_nat_len64)
  then show ?thesis using True assms
    by (auto simp: sb_out_of_range_def Let_def word_less_nat_alt unat_of_nat_len64)
qed (use assms in \<open>simp add: sb_out_of_range_def Let_def word_less_nat_alt unat_of_nat_len64\<close>)

subsection \<open>Properties\<close>

text \<open>
  C14. The bounds check of the guarded buffer is exact and free of overflow: a write of \<open>len > 0\<close> bytes
  is refused with \<open>out_of_range\<close> exactly when it would pass the end, and otherwise it keeps the size,
  leaves every other byte alone and is what a read at that place returns.
\<close>

theorem secure_buffer_write_read:
  assumes "length buf < 2 ^ 64" and "0 < len" and "unat len \<le> length src"
  shows "case sb_write buf offset (Some src) len of
      Inl e \<Rightarrow> e = out_of_range \<and> length buf < unat offset + unat len
    | Inr buf' \<Rightarrow> unat offset + unat len \<le> length buf \<and> length buf' = length buf \<and>
        sb_read buf' offset True len = Inr (take (unat len) src) \<and>
        take (unat offset) buf' = take (unat offset) buf \<and>
        drop (unat offset + unat len) buf' = drop (unat offset + unat len) buf"
proof (cases "length buf < unat offset + unat len")
  case True
  then show ?thesis using assms by (simp add: sb_write_def sb_out_of_range_iff word_gt_0)
next
  case False
  let ?b = "take (unat offset) buf @ take (unat len) src @ drop (unat offset + unat len) buf"
  have len: "length ?b = length buf" using False assms(3) by simp
  have "sb_write buf offset (Some src) len = Inr ?b"
    using False assms by (simp add: sb_write_def sb_out_of_range_iff word_gt_0)
  moreover have "sb_read ?b offset True len = Inr (take (unat len) src)"
    using False assms len sb_out_of_range_iff [of ?b offset len] by (simp add: sb_read_def word_gt_0)
  ultimately show ?thesis using False assms len by simp
qed

theorem secure_buffer_write_read_witness:
  "case sb_write [0, 0, 0, 0] 1 (Some [7, 8]) 2 of Inl _ \<Rightarrow> False
   | Inr buf' \<Rightarrow> sb_read buf' 1 True 2 = Inr [7, 8] \<and> length buf' = 4"
  using secure_buffer_write_read [of "[0, 0, 0, 0]" 2 "[7, 8]" 1]
  by (simp add: sb_write_def sb_out_of_range_def split: sum.splits)

end
