(* ===== verification/HsmObject.thy ===== *)
theory HsmObject
  imports Codec SecureBuffer
begin

text \<open>
  Keystore objects: keystore/hsm\_object.h, keystore/hsm\_object.cpp and keystore/key\_state.h.
  The \<open>unordered_map\<close> of vendor and standard attributes is a partial map from attribute types to
  byte strings, the \<open>SecureBuffer\<close> of the object identifier a byte list.  A member
  function that may throw returns a sum.  Move construction is not modelled
  (it transfers ownership without changing the value).  A data member \<open>x_\<close> of the source is the
  record field \<open>x_m\<close>.
\<close>

datatype ObjectType = DATA | CERTIFICATE | PUBLIC_KEY | PRIVATE_KEY | SECRET_KEY
  | HARDWARE_FEATURE | DOMAIN_PARAMETERS | OTHER

text \<open>
  The underlying byte of the lifecycle state is attacker-settable attribute data, so the scoped
  enumeration can hold values outside its three enumerators; those are \<open>KeyStateByte\<close>.
\<close>

datatype KeyState = Active | Rotating | Revoked | KeyStateByte u8

record HsmObject =
  type_m :: ObjectType
  sensitive_m :: bool
  extractable_m :: bool
  token_m :: bool
  private_m :: bool
  id_m :: bytes
  idSet_m :: bool
  attrs_m :: "CK_ATTRIBUTE_TYPE \<rightharpoonup> bytes"

definition object_type_byte :: "ObjectType \<Rightarrow> u8" where
  "object_type_byte t = (case t of DATA \<Rightarrow> 0 | CERTIFICATE \<Rightarrow> 1 | PUBLIC_KEY \<Rightarrow> 2 | PRIVATE_KEY \<Rightarrow> 3
     | SECRET_KEY \<Rightarrow> 4 | HARDWARE_FEATURE \<Rightarrow> 5 | DOMAIN_PARAMETERS \<Rightarrow> 6 | OTHER \<Rightarrow> 7)"

definition key_state_of_byte :: "u8 \<Rightarrow> KeyState" where
  "key_state_of_byte b =
     (if b = 0 then Active else if b = 1 then Rotating else if b = 2 then Revoked else KeyStateByte b)"

definition key_state_byte :: "KeyState \<Rightarrow> u8" where
  "key_state_byte s = (case s of Active \<Rightarrow> 0 | Rotating \<Rightarrow> 1 | Revoked \<Rightarrow> 2 | KeyStateByte b \<Rightarrow> b)"

definition key_can_sign :: "KeyState \<Rightarrow> bool" where
  "key_can_sign s = (s = Active)"

definition key_can_decrypt :: "KeyState \<Rightarrow> bool" where
  "key_can_decrypt s = (s \<noteq> Revoked)"

definition key_can_verify :: "KeyState \<Rightarrow> bool" where
  "key_can_verify s = (s \<noteq> Revoked)"

definition key_can_wrap :: "KeyState \<Rightarrow> bool" where
  "key_can_wrap s = (s \<noteq> Revoked)"

definition key_is_revoked :: "KeyState \<Rightarrow> bool" where
  "key_is_revoked s = (s = Revoked)"

definition new_HsmObject :: "ObjectType \<Rightarrow> bool \<Rightarrow> bool \<Rightarrow> bool \<Rightarrow> bool \<Rightarrow> HsmObject" where
  "new_HsmObject t sensitive extractable token priv =
     \<lparr>type_m = t, sensitive_m = sensitive, extractable_m = extractable, token_m = token,
      private_m = priv, id_m = [], idSet_m = False, attrs_m = Map.empty\<rparr>"

definition findAttribute :: "HsmObject \<Rightarrow> CK_ATTRIBUTE_TYPE \<Rightarrow> bytes option" where
  "findAttribute obj t = attrs_m obj t"

definition setAttribute ::
  "HsmObject \<Rightarrow> CK_ATTRIBUTE_TYPE \<Rightarrow> bytes option \<Rightarrow> u64 \<Rightarrow> cpp_exn + HsmObject" where
  "setAttribute obj t data len =
     (if 0 < len \<and> data = None then Inl invalid_argument
      else if len = 0 then Inr (obj\<lparr>attrs_m := (attrs_m obj)(t \<mapsto> [])\<rparr>)
      else Inr (obj\<lparr>attrs_m := (attrs_m obj)(t \<mapsto> read_mem data len)\<rparr>))"

text \<open>A call of \<open>setAttribute\<close> on the \<open>data()\<close> and \<open>size()\<close> of a vector.\<close>

definition set_attr_vec :: "HsmObject \<Rightarrow> CK_ATTRIBUTE_TYPE \<Rightarrow> bytes \<Rightarrow> HsmObject" where
  "set_attr_vec obj t v = obj\<lparr>attrs_m := (attrs_m obj)(t \<mapsto> v)\<rparr>"

definition getKeyState :: "HsmObject \<Rightarrow> KeyState" where
  "getKeyState obj = (case findAttribute obj CKA_VHSM_KEY_STATE of
     None \<Rightarrow> Active
   | Some v \<Rightarrow> if v = [] then Active else key_state_of_byte (v ! 0))"

definition setKeyState :: "HsmObject \<Rightarrow> KeyState \<Rightarrow> HsmObject" where
  "setKeyState obj s = set_attr_vec obj CKA_VHSM_KEY_STATE [key_state_byte s]"

definition getId :: "HsmObject \<Rightarrow> bytes" where
  "getId obj = (if \<not> idSet_m obj then [] else id_m obj)"

definition setId :: "HsmObject \<Rightarrow> bytes \<Rightarrow> HsmObject" where
  "setId obj i = (if i = [] then obj\<lparr>id_m := [], idSet_m := False\<rparr>
                  else obj\<lparr>id_m := i, idSet_m := True\<rparr>)"

definition wipe :: "HsmObject \<Rightarrow> HsmObject" where
  "wipe obj = obj\<lparr>id_m := sb_wipe (id_m obj), attrs_m := Map.empty, idSet_m := False, sensitive_m := False,
                  extractable_m := False, token_m := False, private_m := False\<rparr>"

definition copy_HsmObject :: "HsmObject \<Rightarrow> cpp_exn + HsmObject" where
  "copy_HsmObject other =
     (let this = \<lparr>type_m = type_m other, sensitive_m = sensitive_m other,
                  extractable_m = extractable_m other, token_m = token_m other,
                  private_m = private_m other, id_m = [], idSet_m = False, attrs_m = attrs_m other\<rparr> in
      if sensitive_m this then Inl runtime_error
      else if idSet_m other \<and> 0 < length (id_m other)
      then Inr (this\<lparr>id_m := id_m other, idSet_m := True\<rparr>)
      else Inr this)"

definition assign_HsmObject :: "HsmObject \<Rightarrow> HsmObject \<Rightarrow> cpp_exn + HsmObject" where
  "assign_HsmObject this other =
     (if sensitive_m this \<or> sensitive_m other then Inl runtime_error
      else let w = wipe this;
               a = w\<lparr>type_m := type_m other, sensitive_m := sensitive_m other,
                     extractable_m := extractable_m other, token_m := token_m other,
                     private_m := private_m other, attrs_m := attrs_m other\<rparr> in
        if idSet_m other \<and> 0 < length (id_m other)
        then Inr (a\<lparr>id_m := id_m other, idSet_m := True\<rparr>)
        else Inr (a\<lparr>id_m := [], idSet_m := False\<rparr>))"

subsection \<open>Facts\<close>

text \<open>An object's identifier buffer is non-empty exactly when it is set.\<close>

definition obj_wf :: "HsmObject \<Rightarrow> bool" where
  "obj_wf obj = (idSet_m obj = (id_m obj \<noteq> []))"

lemma obj_wf_new [simp, vhsm_inv]: "obj_wf (new_HsmObject t s e k p)"
  by (simp add: obj_wf_def new_HsmObject_def)

lemma obj_wf_set_attr_vec [simp, vhsm_inv]: "obj_wf (set_attr_vec obj t v) = obj_wf obj"
  by (simp add: obj_wf_def set_attr_vec_def)

lemma obj_wf_setId [simp, vhsm_inv]: "obj_wf (setId obj i)"
  by (simp add: obj_wf_def setId_def)

lemma findAttribute_set_attr_vec:
  "findAttribute (set_attr_vec obj t v) u = (if u = t then Some v else findAttribute obj u)"
  by (simp add: findAttribute_def set_attr_vec_def)

lemma set_attr_vec_fields [simp]:
  "type_m (set_attr_vec obj t v) = type_m obj"
  "sensitive_m (set_attr_vec obj t v) = sensitive_m obj"
  "extractable_m (set_attr_vec obj t v) = extractable_m obj"
  "token_m (set_attr_vec obj t v) = token_m obj"
  "private_m (set_attr_vec obj t v) = private_m obj"
  "getId (set_attr_vec obj t v) = getId obj"
  by (simp_all add: set_attr_vec_def getId_def)

lemma key_state_of_byte_inverse [simp]:
  "s \<in> {Active, Rotating, Revoked} \<Longrightarrow> key_state_of_byte (key_state_byte s) = s"
  by (auto simp: key_state_of_byte_def key_state_byte_def)

lemma getKeyState_setKeyState:
  "s \<in> {Active, Rotating, Revoked} \<Longrightarrow> getKeyState (setKeyState obj s) = s"
  by (simp add: getKeyState_def setKeyState_def findAttribute_set_attr_vec)

lemma getKeyState_set_attr_vec [simp]:
  "t \<noteq> CKA_VHSM_KEY_STATE \<Longrightarrow> getKeyState (set_attr_vec obj t v) = getKeyState obj"
  by (simp add: getKeyState_def findAttribute_set_attr_vec)

lemma copy_HsmObject_sensitive: "sensitive_m obj \<Longrightarrow> copy_HsmObject obj = Inl runtime_error"
  by (simp add: copy_HsmObject_def)

lemma copy_HsmObject_value:
  assumes "\<not> sensitive_m obj" "obj_wf obj"
  shows "copy_HsmObject obj = Inr obj"
  using assms by (cases obj) (auto simp: copy_HsmObject_def obj_wf_def Let_def)

end
