(* ===== verification/AttributeStore.thy ===== *)
theory AttributeStore
  imports HsmObject
begin

text \<open>
  The attribute bridge of keystore/attribute\_store.cpp.  An attribute read writes through two
  out-parameters; the model returns the return code, the bytes copied to the value buffer (\<open>None\<close>
  when the buffer is untouched) and the length written back.  A \<open>memcpy\<close> of a \<open>CK_ULONG\<close> is the
  little-endian encoding of the supported hosts.
\<close>

record CK_ATTRIBUTE =
  atype :: CK_ATTRIBUTE_TYPE
  pValue :: "bytes option"
  ulValueLen :: CK_ULONG

definition bbool :: "bool \<Rightarrow> bytes" where
  "bbool b = [if b then CK_TRUE else CK_FALSE]"

definition class_of_type :: "ObjectType \<Rightarrow> CK_ULONG" where
  "class_of_type t = (case t of DATA \<Rightarrow> CKO_DATA | CERTIFICATE \<Rightarrow> CKO_CERTIFICATE
     | PUBLIC_KEY \<Rightarrow> CKO_PUBLIC_KEY | PRIVATE_KEY \<Rightarrow> CKO_PRIVATE_KEY | SECRET_KEY \<Rightarrow> CKO_SECRET_KEY
     | HARDWARE_FEATURE \<Rightarrow> CKO_HW_FEATURE | DOMAIN_PARAMETERS \<Rightarrow> CKO_DOMAIN_PARAMETERS
     | OTHER \<Rightarrow> CKO_OTHER)"

text \<open>
  The switch of \<open>v_get_attribute\<close>: \<open>Inl rv\<close> is its early return, \<open>Inr None\<close> an attribute that is
  not known, \<open>Inr (Some v)\<close> the value.
\<close>

definition v_attribute_value :: "HsmObject \<Rightarrow> CK_ATTRIBUTE_TYPE \<Rightarrow> CK_RV + bytes option" where
  "v_attribute_value obj t =
     (if t = CKA_CLASS then Inr (Some (put_le64 (class_of_type (type_m obj))))
      else if t = CKA_TOKEN then Inr (Some (bbool (token_m obj)))
      else if t = CKA_PRIVATE then Inr (Some (bbool (private_m obj)))
      else if t = CKA_SENSITIVE then Inr (Some (bbool (sensitive_m obj)))
      else if t = CKA_EXTRACTABLE then Inr (Some (bbool (extractable_m obj)))
      else if t = CKA_ID then Inr (Some (getId obj))
      else if t = CKA_VALUE \<and> sensitive_m obj then Inl CKR_ATTRIBUTE_SENSITIVE
      else Inr (findAttribute obj t))"

definition v_get_attribute ::
  "HsmObject \<Rightarrow> CK_ATTRIBUTE_TYPE \<Rightarrow> bool \<Rightarrow> CK_ULONG option \<Rightarrow> CK_RV \<times> bytes option \<times> CK_ULONG option"
where
  "v_get_attribute obj t has_buf pulValueLen = (case pulValueLen of
     None \<Rightarrow> (CKR_ARGUMENTS_BAD, None, None)
   | Some len \<Rightarrow> (case v_attribute_value obj t of
       Inl rv \<Rightarrow> (rv, None, Some CK_UNAVAILABLE_INFORMATION)
     | Inr None \<Rightarrow> (CKR_ATTRIBUTE_TYPE_INVALID, None, Some CK_UNAVAILABLE_INFORMATION)
     | Inr (Some v) \<Rightarrow>
         if \<not> has_buf then (CKR_OK, None, Some (of_nat (length v)))
         else if unat len < length v then (CKR_BUFFER_TOO_SMALL, None, Some (of_nat (length v)))
         else (CKR_OK, Some v, Some (of_nat (length v)))))"

definition v_is_read_only :: "HsmObject \<Rightarrow> CK_ATTRIBUTE_TYPE \<Rightarrow> bool" where
  "v_is_read_only obj t =
     (if t = CKA_CLASS \<or> t = CKA_TOKEN \<or> t = CKA_PRIVATE then True
      else if t = CKA_SENSITIVE then sensitive_m obj
      else if t = CKA_EXTRACTABLE then \<not> extractable_m obj
      else False)"

definition v_validate_attribute :: "CK_ATTRIBUTE_TYPE \<Rightarrow> bytes option \<Rightarrow> CK_ULONG \<Rightarrow> CK_RV" where
  "v_validate_attribute t p len =
     (if p = None \<and> 0 < len then CKR_ARGUMENTS_BAD
      else if t = CKA_CLASS then
        (if len \<noteq> 8 then CKR_ATTRIBUTE_VALUE_INVALID
         else if get_le64 (read_mem p len) \<in> {CKO_DATA, CKO_CERTIFICATE, CKO_PUBLIC_KEY,
           CKO_PRIVATE_KEY, CKO_SECRET_KEY, CKO_HW_FEATURE, CKO_DOMAIN_PARAMETERS, CKO_OTHER}
         then CKR_OK else CKR_ATTRIBUTE_VALUE_INVALID)
      else if t = CKA_TOKEN \<or> t = CKA_PRIVATE \<or> t = CKA_SENSITIVE \<or> t = CKA_EXTRACTABLE then
        (if len \<noteq> 1 then CKR_ATTRIBUTE_VALUE_INVALID
         else let b = read_mem p len ! 0 in
           if b \<noteq> CK_FALSE \<and> b \<noteq> CK_TRUE then CKR_ATTRIBUTE_VALUE_INVALID else CKR_OK)
      else CKR_OK)"

text \<open>The catch clauses of the \<open>VHSM_C_CATCH\<close> macro.\<close>

definition VHSM_C_CATCH :: "cpp_exn \<Rightarrow> CK_RV" where
  "VHSM_C_CATCH e = (case e of invalid_argument \<Rightarrow> CKR_ARGUMENTS_BAD | out_of_range \<Rightarrow> CKR_BUFFER_TOO_SMALL
     | bad_alloc \<Rightarrow> CKR_HOST_MEMORY | runtime_error \<Rightarrow> CKR_GENERAL_ERROR)"

text \<open>
  An exception of \<open>setAttribute\<close> leaves through the shield of the calling entry point, so it appears
  as the code the shield returns; \<open>v_set_attribute_no_throw\<close> shows that this branch is dead.
\<close>

definition v_set_attribute :: "HsmObject \<Rightarrow> CK_ATTRIBUTE option \<Rightarrow> CK_RV \<times> HsmObject" where
  "v_set_attribute obj pAttr = (case pAttr of
     None \<Rightarrow> (CKR_ARGUMENTS_BAD, obj)
   | Some a \<Rightarrow>
       if v_is_read_only obj (atype a) then (CKR_ATTRIBUTE_READ_ONLY, obj)
       else let rv = v_validate_attribute (atype a) (pValue a) (ulValueLen a) in
         if rv \<noteq> CKR_OK then (rv, obj)
         else let src = read_mem (pValue a) (ulValueLen a) in
           if atype a = CKA_CLASS \<or> atype a = CKA_TOKEN \<or> atype a = CKA_PRIVATE
           then (CKR_ATTRIBUTE_READ_ONLY, obj)
           else if atype a = CKA_ID then
             (CKR_OK, if 0 < ulValueLen a then setId obj src else setId obj [])
           else if atype a = CKA_SENSITIVE then
             (if ulValueLen a \<noteq> 1 then (CKR_ATTRIBUTE_VALUE_INVALID, obj)
              else let bValue = src ! 0 in
                if sensitive_m obj \<and> bValue = 0 then (CKR_ATTRIBUTE_READ_ONLY, obj)
                else (CKR_OK, obj\<lparr>sensitive_m := (bValue = CK_TRUE)\<rparr>))
           else if atype a = CKA_EXTRACTABLE then
             (if ulValueLen a \<noteq> 1 then (CKR_ATTRIBUTE_VALUE_INVALID, obj)
              else let bValue = src ! 0 in
                if \<not> extractable_m obj \<and> bValue \<noteq> 0 then (CKR_ATTRIBUTE_READ_ONLY, obj)
                else (CKR_OK, obj\<lparr>extractable_m := (bValue = CK_TRUE)\<rparr>))
           else (case setAttribute obj (atype a) (pValue a) (ulValueLen a) of
               Inl e \<Rightarrow> (VHSM_C_CATCH e, obj)
             | Inr obj' \<Rightarrow> (CKR_OK, obj')))"

text \<open>A sequence of attribute writes on one object, each allowed to fail.\<close>

definition v_set_attributes :: "CK_ATTRIBUTE list \<Rightarrow> HsmObject \<Rightarrow> HsmObject" where
  "v_set_attributes as obj = fold (\<lambda>a o'. snd (v_set_attribute o' (Some a))) as obj"

subsection \<open>Facts\<close>

lemma validate_null: "v_validate_attribute t None len = CKR_OK \<Longrightarrow> len = 0"
  by (auto simp: v_validate_attribute_def word_gt_0 split: if_splits)

lemma v_set_attribute_no_throw:
  "v_validate_attribute (atype a) (pValue a) (ulValueLen a) = CKR_OK \<Longrightarrow>
   setAttribute obj (atype a) (pValue a) (ulValueLen a) =
     Inr (set_attr_vec obj (atype a) (read_mem (pValue a) (ulValueLen a)))"
  using validate_null [of "atype a" "ulValueLen a"]
  by (cases "pValue a") (auto simp: setAttribute_def set_attr_vec_def word_gt_0)

lemma v_set_attribute_error_unchanged:
  "v_set_attribute obj pAttr = (rv, obj') \<Longrightarrow> rv \<noteq> CKR_OK \<Longrightarrow> obj' = obj"
  by (auto simp: v_set_attribute_def Let_def v_set_attribute_no_throw split: option.splits if_splits)

lemma v_set_attribute_ok_cases:
  assumes "v_set_attribute obj (Some a) = (CKR_OK, obj')"
  defines "src \<equiv> read_mem (pValue a) (ulValueLen a)"
  obtains (id) "atype a = CKA_ID" "obj' = setId obj src"
  | (sensitive) "atype a = CKA_SENSITIVE" "\<not> sensitive_m obj" "ulValueLen a = 1"
      "src ! 0 = CK_TRUE \<or> src ! 0 = CK_FALSE" "obj' = obj\<lparr>sensitive_m := (src ! 0 = CK_TRUE)\<rparr>"
  | (extractable) "atype a = CKA_EXTRACTABLE" "extractable_m obj" "ulValueLen a = 1"
      "src ! 0 = CK_TRUE \<or> src ! 0 = CK_FALSE" "obj' = obj\<lparr>extractable_m := (src ! 0 = CK_TRUE)\<rparr>"
  | (plain) "atype a \<notin> {CKA_CLASS, CKA_TOKEN, CKA_PRIVATE, CKA_ID, CKA_SENSITIVE, CKA_EXTRACTABLE}"
      "obj' = set_attr_vec obj (atype a) src"
proof -
  have ro: "\<not> v_is_read_only obj (atype a)"
    and va: "v_validate_attribute (atype a) (pValue a) (ulValueLen a) = CKR_OK"
    using assms(1) by (auto simp: v_set_attribute_def Let_def split: if_splits)
  note st = v_set_attribute_no_throw [OF va, of obj]
  consider "atype a = CKA_ID" | "atype a = CKA_SENSITIVE" | "atype a = CKA_EXTRACTABLE"
    | "atype a \<notin> {CKA_CLASS, CKA_TOKEN, CKA_PRIVATE, CKA_ID, CKA_SENSITIVE, CKA_EXTRACTABLE}"
    using ro by (auto simp: v_is_read_only_def split: if_splits)
  then show thesis
  proof cases
    case 1
    then show thesis using assms(1) ro va id
      by (auto simp: v_set_attribute_def Let_def src_def word_gt_0 split: if_splits)
  next
    case 2
    then show thesis using assms(1) ro va sensitive
      by (auto simp: v_set_attribute_def v_is_read_only_def v_validate_attribute_def Let_def src_def
          split: if_splits)
  next
    case 3
    then show thesis using assms(1) ro va extractable
      by (auto simp: v_set_attribute_def v_is_read_only_def v_validate_attribute_def Let_def src_def
          split: if_splits)
  next
    case 4
    then show thesis using assms(1) ro va plain st
      by (auto simp: v_set_attribute_def Let_def src_def split: if_splits)
  qed
qed

lemma v_set_attribute_cases:
  obtains "snd (v_set_attribute obj pAttr) = obj"
  | a where "pAttr = Some a"
      "v_set_attribute obj (Some a) = (CKR_OK, snd (v_set_attribute obj pAttr))"
  using v_set_attribute_error_unchanged [of obj pAttr]
  by (cases pAttr; cases "v_set_attribute obj pAttr") (auto simp: v_set_attribute_def)

text \<open>Every invariant of single successful writes is an invariant of attribute writes.\<close>

lemma v_set_attribute_preserves:
  assumes "P obj"
    and "\<And>src. P (setId obj src)"
    and "\<And>b. \<not> sensitive_m obj \<Longrightarrow> P (obj\<lparr>sensitive_m := b\<rparr>)"
    and "\<And>b. extractable_m obj \<Longrightarrow> P (obj\<lparr>extractable_m := b\<rparr>)"
    and "\<And>t src. t \<notin> {CKA_CLASS, CKA_TOKEN, CKA_PRIVATE, CKA_ID, CKA_SENSITIVE, CKA_EXTRACTABLE} \<Longrightarrow>
      P (set_attr_vec obj t src)"
  shows "P (snd (v_set_attribute obj pAttr))"
proof (cases rule: v_set_attribute_cases [of obj pAttr])
  case (2 a)
  from 2(2) show ?thesis by (cases rule: v_set_attribute_ok_cases) (use assms in simp_all)
qed (simp add: assms(1))

lemma v_set_attribute_fixed:
  "type_m (snd (v_set_attribute obj pAttr)) = type_m obj \<and>
   token_m (snd (v_set_attribute obj pAttr)) = token_m obj \<and>
   private_m (snd (v_set_attribute obj pAttr)) = private_m obj"
  by (rule v_set_attribute_preserves) (simp_all add: setId_def)

lemma v_set_attribute_monotone:
  "sensitive_m obj \<Longrightarrow> sensitive_m (snd (v_set_attribute obj pAttr))"
  "\<not> extractable_m obj \<Longrightarrow> \<not> extractable_m (snd (v_set_attribute obj pAttr))"
  by (rule v_set_attribute_preserves; simp add: setId_def)+

lemma v_set_attribute_wf [vhsm_inv]:
  "obj_wf obj \<Longrightarrow> obj_wf (snd (v_set_attribute obj pAttr))"
  by (rule v_set_attribute_preserves) (simp_all, simp_all add: obj_wf_def)

text \<open>Class and identifier are never held in the attribute map.\<close>

lemma v_set_attribute_attrs_class:
  "attrs_m obj CKA_CLASS = None \<Longrightarrow> attrs_m (snd (v_set_attribute obj pAttr)) CKA_CLASS = None"
  "attrs_m obj CKA_ID = None \<Longrightarrow> attrs_m (snd (v_set_attribute obj pAttr)) CKA_ID = None"
  by (rule v_set_attribute_preserves; auto simp: setId_def set_attr_vec_def)+

subsection \<open>Properties\<close>

text \<open>
  C7. The PKCS\#11 one-way attributes are one-way under every sequence of attribute writes: once
  an object is sensitive it stays sensitive, once it is not extractable it stays so, and class,
  token and private never change.
\<close>

theorem attribute_monotonicity:
  "let obj' = v_set_attributes as obj in
   (sensitive_m obj \<longrightarrow> sensitive_m obj') \<and> (\<not> extractable_m obj \<longrightarrow> \<not> extractable_m obj') \<and>
   type_m obj' = type_m obj \<and> token_m obj' = token_m obj \<and> private_m obj' = private_m obj"
proof (induction as arbitrary: obj)
  case (Cons a as)
  show ?case
    using Cons.IH [of "snd (v_set_attribute obj (Some a))"] v_set_attribute_monotone [of obj "Some a"]
    by (auto simp: v_set_attributes_def v_set_attribute_fixed Let_def)
qed (simp add: v_set_attributes_def)

theorem attribute_monotonicity_witness:
  "let obj = new_HsmObject SECRET_KEY True False True True;
       off = \<lparr>atype = CKA_SENSITIVE, pValue = Some [0], ulValueLen = 1\<rparr>;
       obj' = v_set_attributes [off] obj in
   sensitive_m obj' \<and> \<not> extractable_m obj'"
  using attribute_monotonicity [of "[\<lparr>atype = CKA_SENSITIVE, pValue = Some [0], ulValueLen = 1\<rparr>]"
      "new_HsmObject SECRET_KEY True False True True"]
  by (simp add: Let_def new_HsmObject_def)

text \<open>
  C8. A sensitive object never gives out CKA\_VALUE: after any sequence of attribute writes, every
  read of CKA\_VALUE with a length pointer copies no byte and reports CKR\_ATTRIBUTE\_SENSITIVE.
\<close>

theorem sensitive_value_refused:
  assumes "sensitive_m obj"
  shows "v_get_attribute (v_set_attributes as obj) CKA_VALUE has_buf (Some len) =
    (CKR_ATTRIBUTE_SENSITIVE, None, Some CK_UNAVAILABLE_INFORMATION)"
proof -
  have "sensitive_m (v_set_attributes as obj)"
    using assms
    by (induction as arbitrary: obj) (auto simp: v_set_attributes_def v_set_attribute_monotone)
  then show ?thesis by (simp add: v_get_attribute_def v_attribute_value_def)
qed

theorem sensitive_value_refused_witness:
  "v_get_attribute
     (v_set_attributes [\<lparr>atype = CKA_SENSITIVE, pValue = Some [0], ulValueLen = 1\<rparr>]
       (new_HsmObject SECRET_KEY True False True True)) CKA_VALUE True (Some 32) =
    (CKR_ATTRIBUTE_SENSITIVE, None, Some CK_UNAVAILABLE_INFORMATION)"
  using sensitive_value_refused [of "new_HsmObject SECRET_KEY True False True True"
      "[\<lparr>atype = CKA_SENSITIVE, pValue = Some [0], ulValueLen = 1\<rparr>]" True 32]
  by (simp add: new_HsmObject_def)

text \<open>
  A write that succeeds is what the next read returns: after CKR\_OK, reading the attribute
  into a buffer that is large enough yields exactly the bytes written, and a size query yields
  their number -- unless the attribute is the CKA\_VALUE of a sensitive object.
\<close>

lemma attribute_set_get:
  assumes "v_set_attribute obj (Some a) = (CKR_OK, obj')"
    and "pValue a = Some bs" and "unat (ulValueLen a) \<le> length bs"
    and "\<not> (atype a = CKA_VALUE \<and> sensitive_m obj)" and "ulValueLen a \<le> len"
  shows "v_get_attribute obj' (atype a) True (Some len) =
      (CKR_OK, Some (take (unat (ulValueLen a)) bs), Some (ulValueLen a)) \<and>
    v_get_attribute obj' (atype a) False (Some len) = (CKR_OK, None, Some (ulValueLen a))"
proof -
  define src where "src = take (unat (ulValueLen a)) bs"
  have len: "length src = unat (ulValueLen a)" using assms(3) by (simp add: src_def)
  have one: "src = [src ! 0]" if "ulValueLen a = 1" using that len by (cases src) auto
  have "v_attribute_value obj' (atype a) = Inr (Some src)"
    using assms(1)
  proof (cases rule: v_set_attribute_ok_cases)
    case id
    then show ?thesis using assms(2)
      by (simp add: v_attribute_value_def getId_def setId_def src_def)
  next
    case sensitive
    then show ?thesis using assms(2) one
      by (auto simp: v_attribute_value_def bbool_def src_def)
  next
    case extractable
    then show ?thesis using assms(2) one
      by (auto simp: v_attribute_value_def bbool_def src_def)
  next
    case plain
    then show ?thesis using assms(2,4)
      by (auto simp: v_attribute_value_def findAttribute_set_attr_vec src_def)
  qed
  then show ?thesis using assms(5) len
    by (simp add: v_get_attribute_def src_def word_le_nat_alt)
qed

text \<open>
  The sensitivity guard covers CKA\_VALUE only: the private-key blobs the module keeps under
  its vendor attribute types are returned in clear from a sensitive, unextractable object.
\<close>

lemma sensitive_vendor_blob_readable:
  assumes "t = CKA_VHSM_RSA_PRIV \<or> t = CKA_VHSM_EC_PRIV" and "length blob \<le> unat len"
  shows "v_get_attribute (set_attr_vec (new_HsmObject PRIVATE_KEY True False True True) t blob) t True
    (Some len) = (CKR_OK, Some blob, Some (of_nat (length blob)))"
  using assms(1)
proof
  assume "t = CKA_VHSM_RSA_PRIV"
  with assms(2) show ?thesis
    by (simp add: v_get_attribute_def v_attribute_value_def findAttribute_set_attr_vec)
next
  assume "t = CKA_VHSM_EC_PRIV"
  with assms(2) show ?thesis
    by (simp add: v_get_attribute_def v_attribute_value_def findAttribute_set_attr_vec)
qed

end
