(* ===== verification/ObjectStore.thy ===== *)
theory ObjectStore
  imports AttributeStore "HOL-Library.AList"
begin

text \<open>
  The handle-based object store of keystore/object\_store.h and keystore/object\_store.cpp: a table
  of versioned slots with an intrusive free list, and secondary indices for label, identifier and
  class.  Every member function runs under the store's mutex, so an operation is one step on the
  store value; the re-validation after re-locking is kept in the definitions.  A \<open>shared_ptr\<close> held by
  the table is the object value in the slot; a write through such a pointer is \<open>v_put_object\<close>.  An
  \<open>unordered_multimap\<close> is an association list; the order of equal keys, which C++ leaves open, is
  insertion order here and no property depends on it.
\<close>

record ObjectEntry =
  v_object :: "HsmObject option"
  v_version :: u32
  v_is_free :: bool
  v_next_free :: u32

record ObjectStore =
  v_table :: "ObjectEntry list"
  v_free_head :: u32
  v_label_index :: "(bytes \<times> u32) list"
  v_id_index :: "(bytes \<times> u32) list"
  v_class_index :: "(u32 \<times> u32) list"

abbreviation (input) UINT32_MAX :: u32 where "UINT32_MAX \<equiv> 0xFFFFFFFF"

type_synonym attr_template = "(CK_ATTRIBUTE_TYPE \<times> bytes) list"

definition new_ObjectEntry :: ObjectEntry where
  "new_ObjectEntry = \<lparr>v_object = None, v_version = 0, v_is_free = True, v_next_free = UINT32_MAX\<rparr>"

definition new_ObjectStore :: ObjectStore where
  "new_ObjectStore = \<lparr>v_table = [], v_free_head = UINT32_MAX, v_label_index = [],
                      v_id_index = [], v_class_index = []\<rparr>"

subsection \<open>Handles\<close>

definition v_extract_index :: "CK_OBJECT_HANDLE \<Rightarrow> u32" where
  "v_extract_index h = ucast (drop_bit 32 h AND 0xFFFFFFFF)"

definition v_extract_version :: "CK_OBJECT_HANDLE \<Rightarrow> u32" where
  "v_extract_version h = ucast (h AND 0xFFFFFFFF)"

definition v_compose_handle :: "u32 \<Rightarrow> u32 \<Rightarrow> CK_OBJECT_HANDLE" where
  "v_compose_handle index version = push_bit 32 (ucast index) OR ucast version"

subsection \<open>Secondary indices\<close>

definition v_extract_label :: "HsmObject \<Rightarrow> bytes" where
  "v_extract_label obj = (case findAttribute obj CKA_LABEL of None \<Rightarrow> [] | Some v \<Rightarrow> v)"

definition v_extract_id :: "HsmObject \<Rightarrow> bytes" where
  "v_extract_id obj = (case findAttribute obj CKA_ID of
     Some v \<Rightarrow> if v \<noteq> [] then v else getId obj
   | None \<Rightarrow> getId obj)"

definition v_extract_class :: "HsmObject \<Rightarrow> u32" where
  "v_extract_class obj = ucast (object_type_byte (type_m obj))"

definition v_index_insert :: "ObjectStore \<Rightarrow> u32 \<Rightarrow> HsmObject \<Rightarrow> ObjectStore" where
  "v_index_insert st index obj =
     (let label = v_extract_label obj; id = v_extract_id obj; cls = v_extract_class obj in
      st\<lparr>v_label_index := v_label_index st @ (if label \<noteq> [] then [(label, index)] else []),
         v_id_index := v_id_index st @ (if id \<noteq> [] then [(id, index)] else []),
         v_class_index := v_class_index st @ (if cls \<noteq> 0xFFFFFFFF then [(cls, index)] else [])\<rparr>)"

definition v_index_remove :: "ObjectStore \<Rightarrow> u32 \<Rightarrow> HsmObject \<Rightarrow> ObjectStore" where
  "v_index_remove st index obj =
     (let label = v_extract_label obj; id = v_extract_id obj; cls = v_extract_class obj in
      st\<lparr>v_label_index := (if label \<noteq> [] then remove1 (label, index) (v_label_index st) else v_label_index st),
         v_id_index := (if id \<noteq> [] then remove1 (id, index) (v_id_index st) else v_id_index st),
         v_class_index := (if cls \<noteq> 0xFFFFFFFF then remove1 (cls, index) (v_class_index st)
                           else v_class_index st)\<rparr>)"

definition equal_range :: "('k \<times> u32) list \<Rightarrow> 'k \<Rightarrow> u32 list" where
  "equal_range idx key = map snd (filter (\<lambda>e. fst e = key) idx)"

subsection \<open>Create, get, destroy\<close>

definition v_create_object :: "ObjectStore \<Rightarrow> HsmObject \<Rightarrow> CK_OBJECT_HANDLE \<times> ObjectStore" where
  "v_create_object st obj =
     (if v_free_head st \<noteq> UINT32_MAX then
        let index = v_free_head st;
            e = v_table st ! unat index;
            version = v_version e + 1;
            st1 = st\<lparr>v_free_head := v_next_free e,
                     v_table := (v_table st)[unat index :=
                       e\<lparr>v_is_free := False, v_version := version, v_object := Some obj\<rparr>]\<rparr> in
        (v_compose_handle index version, v_index_insert st1 index obj)
      else
        let index = of_nat (length (v_table st));
            version = v_version new_ObjectEntry + 1;
            st1 = st\<lparr>v_table := v_table st @
                     [new_ObjectEntry\<lparr>v_is_free := False, v_version := version, v_object := Some obj\<rparr>]\<rparr> in
        (v_compose_handle index version, v_index_insert st1 index obj))"

definition v_is_valid_handle :: "ObjectStore \<Rightarrow> CK_OBJECT_HANDLE \<Rightarrow> bool" where
  "v_is_valid_handle st h =
     (let index = unat (v_extract_index h) in
      if length (v_table st) \<le> index \<or> v_is_free (v_table st ! index) then False
      else v_version (v_table st ! index) = v_extract_version h)"

definition v_get_object :: "ObjectStore \<Rightarrow> CK_OBJECT_HANDLE \<Rightarrow> HsmObject option" where
  "v_get_object st h =
     (let index = unat (v_extract_index h) in
      if length (v_table st) \<le> index \<or> v_is_free (v_table st ! index) then None
      else if v_version (v_table st ! index) \<noteq> v_extract_version h then None
      else v_object (v_table st ! index))"

definition v_destroy_object :: "ObjectStore \<Rightarrow> CK_OBJECT_HANDLE \<Rightarrow> bool \<times> ObjectStore" where
  "v_destroy_object st h =
     (let index = v_extract_index h; i = unat index in
      if length (v_table st) \<le> i \<or> v_is_free (v_table st ! i) then (False, st)
      else if v_version (v_table st ! i) \<noteq> v_extract_version h then (False, st)
      else let st1 = (case v_object (v_table st ! i) of None \<Rightarrow> st | Some obj \<Rightarrow> v_index_remove st index obj) in
        (True, st1\<lparr>v_table := (v_table st1)[i := (v_table st1 ! i)
                      \<lparr>v_object := None, v_is_free := True, v_next_free := v_free_head st1\<rparr>],
                   v_free_head := index\<rparr>))"

text \<open>A write through the pointer returned by a lookup.\<close>

definition v_put_object :: "ObjectStore \<Rightarrow> CK_OBJECT_HANDLE \<Rightarrow> HsmObject \<Rightarrow> ObjectStore" where
  "v_put_object st h obj =
     (if v_get_object st h = None then st
      else let i = unat (v_extract_index h) in
        st\<lparr>v_table := (v_table st)[i := (v_table st ! i)\<lparr>v_object := Some obj\<rparr>]\<rparr>)"

subsection \<open>Enumeration and search\<close>

definition v_live :: "ObjectEntry \<Rightarrow> bool" where
  "v_live e = (\<not> v_is_free e \<and> v_object e \<noteq> None)"

definition v_get_object_count :: "ObjectStore \<Rightarrow> nat" where
  "v_get_object_count st = length (filter v_live (v_table st))"

definition v_handle_at :: "ObjectStore \<Rightarrow> nat \<Rightarrow> CK_OBJECT_HANDLE" where
  "v_handle_at st i = v_compose_handle (of_nat i) (v_version (v_table st ! i))"

definition v_all_handles :: "ObjectStore \<Rightarrow> CK_OBJECT_HANDLE list" where
  "v_all_handles st =
     map (v_handle_at st) (filter (\<lambda>i. v_live (v_table st ! i)) [0..<length (v_table st)])"

definition v_snapshot :: "ObjectStore \<Rightarrow> nat list \<Rightarrow> (nat \<times> HsmObject) list" where
  "v_snapshot st idxs =
     map (\<lambda>i. (i, the (v_object (v_table st ! i))))
       (filter (\<lambda>i. i < length (v_table st) \<and> v_live (v_table st ! i)) idxs)"

definition v_revalidate :: "ObjectStore \<Rightarrow> nat \<times> HsmObject \<Rightarrow> bool" where
  "v_revalidate st = (\<lambda>(i, obj). i < length (v_table st) \<and> v_live (v_table st ! i) \<and>
     v_object (v_table st ! i) = Some obj)"

definition v_find_object_if ::
  "ObjectStore \<Rightarrow> (HsmObject \<Rightarrow> bool) \<Rightarrow> CK_OBJECT_HANDLE \<times> HsmObject option" where
  "v_find_object_if st pred =
     (case filter (\<lambda>p. pred (snd p) \<and> v_revalidate st p) (v_snapshot st [0..<length (v_table st)]) of
        [] \<Rightarrow> (CK_INVALID_HANDLE, None)
      | (i, obj) # _ \<Rightarrow> (v_handle_at st i, Some obj))"

definition v_match :: "attr_template \<Rightarrow> HsmObject \<Rightarrow> bool" where
  "v_match templ obj = list_all (\<lambda>(k, v). findAttribute obj k = Some v) templ"

text \<open>
  One narrowing step of the candidate set: \<open>None\<close> is the early return of an empty result.  The first
  component tells whether an indexed attribute has been seen.
\<close>

definition v_narrow ::
  "('k \<times> u32) list \<Rightarrow> 'k option \<Rightarrow> bool \<times> u32 list \<Rightarrow> (bool \<times> u32 list) option" where
  "v_narrow idx key s = (case key of
     None \<Rightarrow> Some s
   | Some k \<Rightarrow>
       (let range = equal_range idx k in
        if range = [] then None
        else if \<not> fst s then Some (True, range)
        else let inter = filter (\<lambda>i. i \<in> set (snd s)) range in
          if inter = [] then None else Some (True, inter)))"

definition v_class_key :: "attr_template \<Rightarrow> u32 option" where
  "v_class_key templ = (case map_of templ CKA_CLASS of
     Some v \<Rightarrow> if length v = 8 then Some (ucast (get_le64 v)) else None
   | None \<Rightarrow> None)"

definition v_candidates :: "ObjectStore \<Rightarrow> attr_template \<Rightarrow> (bool \<times> u32 list) option" where
  "v_candidates st templ =
     Option.bind (v_narrow (v_class_index st) (v_class_key templ) (False, []))
       (\<lambda>s. Option.bind (v_narrow (v_label_index st) (map_of templ CKA_LABEL) s)
         (\<lambda>s. v_narrow (v_id_index st) (map_of templ CKA_ID) s))"

definition v_find_by_attributes :: "ObjectStore \<Rightarrow> attr_template \<Rightarrow> CK_OBJECT_HANDLE \<times> HsmObject option"
where
  "v_find_by_attributes st templ = (case v_candidates st templ of
     None \<Rightarrow> (CK_INVALID_HANDLE, None)
   | Some (has_indexed, cands) \<Rightarrow>
       (case filter (\<lambda>p. v_match templ (snd p) \<and> v_revalidate st p)
          (v_snapshot st (if has_indexed then map unat cands else [0..<length (v_table st)])) of
          [] \<Rightarrow> (CK_INVALID_HANDLE, None)
        | (i, obj) # _ \<Rightarrow> (v_handle_at st i, Some obj)))"

definition v_find_all_by_attributes :: "ObjectStore \<Rightarrow> attr_template \<Rightarrow> CK_OBJECT_HANDLE list" where
  "v_find_all_by_attributes st templ =
     (if templ = [] then v_all_handles st
      else case v_candidates st templ of
        None \<Rightarrow> []
      | Some (has_indexed, cands) \<Rightarrow>
          map (\<lambda>p. v_handle_at st (fst p))
            (filter (\<lambda>p. v_match templ (snd p) \<and> v_revalidate st p)
              (v_snapshot st (if has_indexed then map unat cands else [0..<length (v_table st)]))))"

definition v_reindex :: "ObjectStore \<Rightarrow> CK_OBJECT_HANDLE \<Rightarrow> ObjectStore" where
  "v_reindex st h =
     (let index = v_extract_index h; i = unat index in
      if length (v_table st) \<le> i \<or> v_is_free (v_table st ! i) \<or> v_object (v_table st ! i) = None then st
      else if v_version (v_table st ! i) \<noteq> v_extract_version h then st
      else v_index_insert
        (st\<lparr>v_label_index := filter (\<lambda>e. snd e \<noteq> index) (v_label_index st),
            v_id_index := filter (\<lambda>e. snd e \<noteq> index) (v_id_index st),
            v_class_index := filter (\<lambda>e. snd e \<noteq> index) (v_class_index st)\<rparr>)
        index (the (v_object (v_table st ! i))))"

subsection \<open>Specification notions\<close>

primrec free_chain :: "ObjectEntry list \<Rightarrow> u32 \<Rightarrow> nat list \<Rightarrow> bool" where
  "free_chain t h [] = (h = UINT32_MAX)"
| "free_chain t h (i # xs) =
     (h = of_nat i \<and> i < length t \<and> v_is_free (t ! i) \<and> free_chain t (v_next_free (t ! i)) xs)"

definition store_inv :: "ObjectStore \<Rightarrow> bool" where
  "store_inv st = (length (v_table st) < 2 ^ 32 \<and>
     (\<forall>e\<in>set (v_table st). v_is_free e = (v_object e = None)) \<and>
     (\<exists>xs. distinct xs \<and> free_chain (v_table st) (v_free_head st) xs))"

definition store_room :: "ObjectStore \<Rightarrow> bool" where
  "store_room st = (length (v_table st) < 2 ^ 32 - 1)"

definition slot_obj :: "ObjectStore \<Rightarrow> u32 \<rightharpoonup> HsmObject" where
  "slot_obj st i = (if unat i < length (v_table st) \<and> v_live (v_table st ! unat i)
     then v_object (v_table st ! unat i) else None)"

definition label_key :: "HsmObject \<Rightarrow> bytes option" where
  "label_key obj = (if v_extract_label obj \<noteq> [] then Some (v_extract_label obj) else None)"

definition id_key :: "HsmObject \<Rightarrow> bytes option" where
  "id_key obj = (if v_extract_id obj \<noteq> [] then Some (v_extract_id obj) else None)"

definition class_key :: "HsmObject \<Rightarrow> u32 option" where
  "class_key obj = (if v_extract_class obj \<noteq> 0xFFFFFFFF then Some (v_extract_class obj) else None)"

definition key_entry :: "'k option \<Rightarrow> u32 \<Rightarrow> ('k \<times> u32) list" where
  "key_entry ko i = (case ko of None \<Rightarrow> [] | Some k \<Rightarrow> [(k, i)])"

definition idx_ok :: "(u32 \<rightharpoonup> HsmObject) \<Rightarrow> (HsmObject \<Rightarrow> 'k option) \<Rightarrow> ('k \<times> u32) list \<Rightarrow> bool" where
  "idx_ok m f xs = (distinct xs \<and>
     (\<forall>k i. (k, i) \<in> set xs \<longleftrightarrow> (\<exists>obj. m i = Some obj \<and> f obj = Some k)))"

definition index_exact :: "ObjectStore \<Rightarrow> bool" where
  "index_exact st = (idx_ok (slot_obj st) label_key (v_label_index st) \<and>
     idx_ok (slot_obj st) id_key (v_id_index st) \<and> idx_ok (slot_obj st) class_key (v_class_index st))"

datatype store_op = Create HsmObject | Destroy CK_OBJECT_HANDLE | Put CK_OBJECT_HANDLE HsmObject
  | Reindex CK_OBJECT_HANDLE

primrec store_step :: "store_op \<Rightarrow> ObjectStore \<Rightarrow> ObjectStore" where
  "store_step (Create obj) st = snd (v_create_object st obj)"
| "store_step (Destroy h) st = snd (v_destroy_object st h)"
| "store_step (Put h obj) st = v_put_object st h obj"
| "store_step (Reindex h) st = v_reindex st h"

definition store_run :: "store_op list \<Rightarrow> ObjectStore \<Rightarrow> ObjectStore" where
  "store_run ops st = fold store_step ops st"

definition creations :: "store_op list \<Rightarrow> nat" where
  "creations ops = length (filter (\<lambda>op. case op of Create _ \<Rightarrow> True | _ \<Rightarrow> False) ops)"

text \<open>
  Slot \<open>i\<close> has been re-used at most \<open>k\<close> times since it was freed at version \<open>v\<close>; while it is free
  it has been re-used any number of times up to \<open>k\<close>, while it is taken at least once.
\<close>

definition reuse_inv :: "nat \<Rightarrow> nat \<Rightarrow> u32 \<Rightarrow> ObjectStore \<Rightarrow> bool" where
  "reuse_inv k i v st = (i < length (v_table st) \<and> (\<exists>j\<le>k. v_version (v_table st ! i) = v + of_nat j \<and>
     (\<not> v_is_free (v_table st ! i) \<longrightarrow> 0 < j)))"

lemma word32_mask: "(0xFFFFFFFF :: u64) = mask 32"
  by (simp add: mask_eq_exp_minus_1)

lemma extract_compose [simp]:
  "v_extract_index (v_compose_handle i v) = i"
  "v_extract_version (v_compose_handle i v) = v"
  unfolding v_extract_index_def v_extract_version_def v_compose_handle_def word32_mask
  by (rule bit_word_eqI; auto simp: bit_simps dest: bit_imp_le_length)+

lemma compose_extract [simp]: "v_compose_handle (v_extract_index h) (v_extract_version h) = h"
  unfolding v_extract_index_def v_extract_version_def v_compose_handle_def word32_mask
  by (rule bit_word_eqI) (auto simp: bit_simps)

lemma compose_inject [simp]:
  "v_compose_handle i v = v_compose_handle j w \<longleftrightarrow> i = j \<and> v = w"
  by (metis extract_compose)

lemma index_insert_fields [simp]:
  "v_table (v_index_insert st i obj) = v_table st"
  "v_free_head (v_index_insert st i obj) = v_free_head st"
  "v_table (v_index_remove st i obj) = v_table st"
  "v_free_head (v_index_remove st i obj) = v_free_head st"
  by (simp_all add: v_index_insert_def v_index_remove_def Let_def)

lemma free_chain_update:
  "free_chain t h xs \<Longrightarrow> i \<notin> set xs \<Longrightarrow> free_chain (t[i := e]) h xs"
  by (induction xs arbitrary: h) (auto simp: nth_list_update)

lemma free_chain_append: "free_chain t h xs \<Longrightarrow> free_chain (t @ ys) h xs"
  by (induction xs arbitrary: h) (auto simp: nth_append)

lemma free_chain_free: "free_chain t h xs \<Longrightarrow> i \<in> set xs \<Longrightarrow> i < length t \<and> v_is_free (t ! i)"
  by (induction xs arbitrary: h) auto

lemma store_inv_entry:
  "store_inv st \<Longrightarrow> i < length (v_table st) \<Longrightarrow>
   v_is_free (v_table st ! i) = (v_object (v_table st ! i) = None)"
  by (simp add: store_inv_def)

lemma unat_of_nat_idx: "i < 2 ^ 32 \<Longrightarrow> unat (of_nat i :: u32) = i"
  by (simp add: unat_of_nat take_bit_nat_eq_self)

lemma v_get_object_unfold:
  "v_get_object st h = 
    (if unat (v_extract_index h) < length (v_table st) \<and>
        \<not> v_is_free (v_table st ! unat (v_extract_index h)) \<and>
        v_version (v_table st ! unat (v_extract_index h)) = v_extract_version h
     then v_object (v_table st ! unat (v_extract_index h)) else None)"
  by (auto simp: v_get_object_def Let_def)

lemma get_index_insert [simp]: "v_get_object (v_index_insert st i obj) h = v_get_object st h"
  by (simp add: v_get_object_unfold)

lemma handle_eqI: "v_extract_index h = i \<Longrightarrow> v_extract_version h = v \<Longrightarrow> h = v_compose_handle i v"
  by auto

lemma create_get:
  assumes "store_inv st" "store_room st" "v_create_object st obj = (h, st')"
  shows "v_get_object st h = None \<and> v_get_object st' = (v_get_object st)(h \<mapsto> obj)"
proof (cases "v_free_head st = UINT32_MAX")
  case True
  let ?n = "length (v_table st)"
  have n: "unat (of_nat ?n :: u32) = ?n" using assms(2) by (simp add: store_room_def unat_of_nat_idx)
  have h: "h = v_compose_handle (of_nat ?n) 1"
    and st': "v_table st' = v_table st @ [new_ObjectEntry\<lparr>v_is_free := False, v_version := 1, v_object := Some obj\<rparr>]"
    using assms(3) True by (auto simp: v_create_object_def Let_def new_ObjectEntry_def)
  have "v_get_object st' g = (if g = h then Some obj else v_get_object st g)" for g
  proof (cases "unat (v_extract_index g) = ?n")
    case e: True
    then have i: "v_extract_index g = of_nat ?n" using n by (metis word_unat_eq_iff)
    show ?thesis using e by (auto simp: v_get_object_unfold st' nth_append h i intro!: handle_eqI) 
  next
    case False
    then have "g \<noteq> h" using n by (auto simp: h)
    then show ?thesis using False by (auto simp: v_get_object_unfold st' nth_append Let_def)
  qed
  then show ?thesis using n by (auto simp: v_get_object_unfold h)
next
  case False
  obtain xs where xs: "distinct xs" "free_chain (v_table st) (v_free_head st) xs"
    using assms(1) by (auto simp: store_inv_def)
  then obtain i ys where "xs = i # ys" using False by (cases xs) auto
  let ?i = "unat (v_free_head st)"
  have i: "?i < length (v_table st)" "v_is_free (v_table st ! ?i)"
    using xs \<open>xs = i # ys\<close> assms(1) by (auto simp: store_inv_def unat_of_nat_idx)
  have h: "h = v_compose_handle (v_free_head st) (v_version (v_table st ! ?i) + 1)"
    and st': "v_table st' = (v_table st)[?i := (v_table st ! ?i)\<lparr>v_is_free := False,
        v_version := v_version (v_table st ! ?i) + 1, v_object := Some obj\<rparr>]"
    using assms(3) False by (auto simp: v_create_object_def Let_def)
  have "v_get_object st' g = (if g = h then Some obj else v_get_object st g)" for g
  proof (cases "v_extract_index g = v_free_head st")
    case True
    then show ?thesis using i by (auto simp: v_get_object_unfold st' h intro!: handle_eqI)
  next
    case False
    then have "unat (v_extract_index g) \<noteq> ?i" by (simp add: word_unat_eq_iff)
    then show ?thesis using False by (auto simp: v_get_object_unfold st' h Let_def)
  qed
  then show ?thesis using i by (auto simp: v_get_object_unfold h)
qed

lemma store_inv_new [simp, vhsm_inv]: "store_inv new_ObjectStore"
  by (auto simp: store_inv_def new_ObjectStore_def intro!: exI [of _ "[]"])

lemma store_invI:
  "length (v_table st) < 2 ^ 32 \<Longrightarrow> (\<And>e. e \<in> set (v_table st) \<Longrightarrow> v_is_free e = (v_object e = None)) \<Longrightarrow>
   distinct xs \<Longrightarrow> free_chain (v_table st) (v_free_head st) xs \<Longrightarrow> store_inv st"
  by (auto simp: store_inv_def)

lemma store_inv_index_insert [simp]: "store_inv (v_index_insert st i obj) = store_inv st"
  by (simp add: store_inv_def)

lemma create_inv [vhsm_inv]:
  assumes "store_inv st" "store_room st" "v_create_object st obj = (h, st')"
  shows "store_inv st'"
proof -
  obtain xs where xs: "distinct xs" "free_chain (v_table st) (v_free_head st) xs"
    using assms(1) by (auto simp: store_inv_def)
  have ex: "v_is_free e = (v_object e = None)" if "e \<in> set (v_table st)" for e
    using assms(1) that by (auto simp: store_inv_def)
  show ?thesis
  proof (cases xs)
    case Nil
    then have st': "v_table st' = v_table st @ [new_ObjectEntry\<lparr>v_is_free := False, v_version := 1, v_object := Some obj\<rparr>]"
      "v_free_head st' = v_free_head st"
      using assms(3) xs by (auto simp: v_create_object_def Let_def new_ObjectEntry_def)
    show ?thesis
      by (rule store_invI [of _ xs]) (use assms(2) xs ex Nil in \<open>auto simp: st' store_room_def\<close>)
  next
    case (Cons i ys)
    have hd: "v_free_head st = of_nat i" "i < length (v_table st)" "unat (v_free_head st) = i"
      and ch: "free_chain (v_table st) (v_next_free (v_table st ! i)) ys" "i \<notin> set ys" "distinct ys"
      using xs Cons assms(1) by (auto simp: store_inv_def unat_of_nat_idx)
    have nm: "v_free_head st \<noteq> UINT32_MAX"
      using assms(2) hd by (auto simp: store_room_def dest!: arg_cong [where f = unat])
    have st': "v_table st' = (v_table st)[i := (v_table st ! i)\<lparr>v_is_free := False,
        v_version := v_version (v_table st ! i) + 1, v_object := Some obj\<rparr>]"
      "v_free_head st' = v_next_free (v_table st ! i)"
      using assms(3) nm hd by (auto simp: v_create_object_def Let_def)
    show ?thesis
    proof (rule store_invI [of _ ys])
      show "free_chain (v_table st') (v_free_head st') ys"
        unfolding st' using ch by (intro free_chain_update)
      show "v_is_free e = (v_object e = None)" if "e \<in> set (v_table st')" for e
        using that ex by (auto simp: st' dest: set_update_subset_insert [THEN subsetD])
    qed (use ch assms(1) in \<open>auto simp: st' store_inv_def\<close>)
  qed
qed

lemma destroy_none: "v_get_object st h = None \<Longrightarrow> store_inv st \<Longrightarrow> v_destroy_object st h = (False, st)"
  using store_inv_entry [of st "unat (v_extract_index h)"]
  by (cases "unat (v_extract_index h) < length (v_table st)")
    (auto simp: v_destroy_object_def v_get_object_unfold Let_def split: if_splits)

lemma destroy_some:
  assumes "v_get_object st h = Some obj"
  shows "v_destroy_object st h = (True, (v_index_remove st (v_extract_index h) obj)
    \<lparr>v_table := (v_table st)[unat (v_extract_index h) := (v_table st ! unat (v_extract_index h))
         \<lparr>v_object := None, v_is_free := True, v_next_free := v_free_head st\<rparr>],
     v_free_head := v_extract_index h\<rparr>)"
  using assms by (auto simp: v_destroy_object_def v_get_object_unfold Let_def split: if_splits)

lemma destroy_get:
  assumes "v_get_object st h = Some obj"
  shows "v_get_object (snd (v_destroy_object st h)) = (v_get_object st)(h := None)"
proof
  fix g
  let ?i = "unat (v_extract_index h)"
  have i: "?i < length (v_table st)" "\<not> v_is_free (v_table st ! ?i)"
    "v_version (v_table st ! ?i) = v_extract_version h"
    using assms by (auto simp: v_get_object_unfold split: if_splits)
  show "v_get_object (snd (v_destroy_object st h)) g = ((v_get_object st)(h := None)) g"
  proof (cases "v_extract_index g = v_extract_index h")
    case True
    then show ?thesis using i by (auto simp: destroy_some [OF assms] v_get_object_unfold) (metis compose_extract)
  next
    case False
    then have "unat (v_extract_index g) \<noteq> ?i" by (simp add: word_unat_eq_iff)
    then show ?thesis using False by (auto simp: destroy_some [OF assms] v_get_object_unfold)
  qed
qed

lemma destroy_inv [vhsm_inv]:
  assumes "store_inv st"
  shows "store_inv (snd (v_destroy_object st h))"
proof (cases "v_get_object st h")
  case None
  then show ?thesis using assms by (simp add: destroy_none)
next
  case (Some obj)
  let ?i = "unat (v_extract_index h)"
  have i: "?i < length (v_table st)" "\<not> v_is_free (v_table st ! ?i)"
    using Some by (auto simp: v_get_object_unfold split: if_splits)
  obtain xs where xs: "distinct xs" "free_chain (v_table st) (v_free_head st) xs"
    using assms by (auto simp: store_inv_def)
  have ni: "?i \<notin> set xs" using free_chain_free [OF xs(2)] i by blast
  show ?thesis
  proof (rule store_invI [of _ "?i # xs"])
    show "free_chain (v_table (snd (v_destroy_object st h))) (v_free_head (snd (v_destroy_object st h))) (?i # xs)"
      using i ni by (auto simp: destroy_some [OF Some] intro!: free_chain_update xs)
    show "v_is_free e = (v_object e = None)" if "e \<in> set (v_table (snd (v_destroy_object st h)))" for e
      using that assms by (auto simp: destroy_some [OF Some] store_inv_def dest: set_update_subset_insert [THEN subsetD])
  qed (use assms xs ni in \<open>auto simp: destroy_some [OF Some] store_inv_def\<close>)
qed

lemma put_get:
  assumes "v_get_object st h = Some obj0"
  shows "v_get_object (v_put_object st h obj) = (v_get_object st)(h \<mapsto> obj)"
proof
  fix g
  let ?i = "unat (v_extract_index h)"
  have i: "?i < length (v_table st)" "\<not> v_is_free (v_table st ! ?i)"
    "v_version (v_table st ! ?i) = v_extract_version h"
    using assms by (auto simp: v_get_object_unfold split: if_splits)
  show "v_get_object (v_put_object st h obj) g = ((v_get_object st)(h \<mapsto> obj)) g"
  proof (cases "v_extract_index g = v_extract_index h")
    case True
    then show ?thesis using i assms
      by (auto simp: v_put_object_def v_get_object_unfold Let_def) (metis compose_extract)+
  next
    case False
    then have "unat (v_extract_index g) \<noteq> ?i" by (simp add: word_unat_eq_iff)
    then show ?thesis using False assms by (auto simp: v_put_object_def v_get_object_unfold Let_def)
  qed
qed

lemma put_none: "v_get_object st h = None \<Longrightarrow> v_put_object st h obj = st"
  by (simp add: v_put_object_def)

lemma put_inv [vhsm_inv]:
  assumes "store_inv st"
  shows "store_inv (v_put_object st h obj)"
proof (cases "v_get_object st h")
  case (Some obj0)
  let ?i = "unat (v_extract_index h)"
  have i: "?i < length (v_table st)" "\<not> v_is_free (v_table st ! ?i)"
    using Some by (auto simp: v_get_object_unfold split: if_splits)
  obtain xs where xs: "distinct xs" "free_chain (v_table st) (v_free_head st) xs"
    using assms by (auto simp: store_inv_def)
  have ni: "?i \<notin> set xs" using free_chain_free [OF xs(2)] i by blast
  show ?thesis
  proof (rule store_invI [of _ xs])
    show "free_chain (v_table (v_put_object st h obj)) (v_free_head (v_put_object st h obj)) xs"
      using ni Some by (auto simp: v_put_object_def Let_def intro!: free_chain_update xs)
    show "v_is_free e = (v_object e = None)" if "e \<in> set (v_table (v_put_object st h obj))" for e
      using that assms i Some
      by (auto simp: v_put_object_def Let_def store_inv_def dest!: set_update_subset_insert [THEN subsetD])
  qed (use assms xs in \<open>auto simp: v_put_object_def store_inv_def Let_def\<close>)
qed (simp add: put_none assms)

lemma reindex_table [simp]:
  "v_table (v_reindex st h) = v_table st" "v_free_head (v_reindex st h) = v_free_head st"
  by (simp_all add: v_reindex_def Let_def)

lemma reindex_get [simp]: "v_get_object (v_reindex st h) g = v_get_object st g"
  by (simp add: v_get_object_unfold)

lemma reindex_inv [simp]: "store_inv (v_reindex st h) = store_inv st"
  by (simp add: store_inv_def)

lemma valid_iff_get: "store_inv st \<Longrightarrow> v_is_valid_handle st h = (v_get_object st h \<noteq> None)"
  by (auto simp: v_is_valid_handle_def v_get_object_unfold Let_def store_inv_entry)


subsection \<open>Interface: a handle table\<close>

text \<open>
  What the clients of the store rely on: \<open>get\<close> is a partial map from handles to objects on which
  creation is an update at a fresh handle, destruction a removal and a write through a pointer an
  overwrite.  This is the abstract specification of the store, with \<open>get\<close> as the abstraction.
\<close>

locale handle_table =
  fixes create :: "'s \<Rightarrow> 'o \<Rightarrow> 'h \<times> 's" and get :: "'s \<Rightarrow> 'h \<rightharpoonup> 'o"
    and destroy :: "'s \<Rightarrow> 'h \<Rightarrow> bool \<times> 's" and put :: "'s \<Rightarrow> 'h \<Rightarrow> 'o \<Rightarrow> 's"
    and inv :: "'s \<Rightarrow> bool" and room :: "'s \<Rightarrow> bool"
  assumes create_law: "inv s \<Longrightarrow> room s \<Longrightarrow> create s x = (h, s') \<Longrightarrow>
      inv s' \<and> get s h = None \<and> get s' = (get s)(h \<mapsto> x)"
    and destroy_law: "inv s \<Longrightarrow> destroy s h = (b, s') \<Longrightarrow>
      inv s' \<and> b = (get s h \<noteq> None) \<and> get s' = (get s)(h := None)"
    and put_law: "inv s \<Longrightarrow> inv (put s h x) \<and>
      get (put s h x) = (if get s h = None then get s else (get s)(h \<mapsto> x))"
begin

lemma created_found: "inv s \<Longrightarrow> room s \<Longrightarrow> create s x = (h, s') \<Longrightarrow> get s' h = Some x"
  using create_law by fastforce

lemma create_frame:
  "inv s \<Longrightarrow> room s \<Longrightarrow> create s x = (h, s') \<Longrightarrow> get s g = Some y \<Longrightarrow> g \<noteq> h \<and> get s' g = Some y"
  using create_law [of s x h s'] by auto

lemma destroyed_gone: "inv s \<Longrightarrow> destroy s h = (b, s') \<Longrightarrow> get s' h = None"
  using destroy_law by fastforce

lemma destroy_frame: "inv s \<Longrightarrow> destroy s h = (b, s') \<Longrightarrow> g \<noteq> h \<Longrightarrow> get s' g = get s g"
  using destroy_law by fastforce

lemma destroy_twice: "inv s \<Longrightarrow> destroy s h = (b, s') \<Longrightarrow> destroy s' h = (b', s'') \<Longrightarrow> \<not> b' \<and> get s'' = get s'"
  using destroy_law [of s h b s'] destroy_law [of s' h b' s''] by (auto simp: fun_eq_iff)

lemma put_found: "inv s \<Longrightarrow> get s h \<noteq> None \<Longrightarrow> get (put s h x) h = Some x"
  using put_law by simp

lemma put_frame: "inv s \<Longrightarrow> g \<noteq> h \<Longrightarrow> get (put s h x) g = get s g"
  using put_law by simp

lemma create_destroy_restores:
  "inv s \<Longrightarrow> room s \<Longrightarrow> create s x = (h, s') \<Longrightarrow> destroy s' h = (b, s'') \<Longrightarrow> b \<and> get s'' = get s"
  using create_law [of s x h s'] destroy_law [of s' h b s''] by auto

end

lemma create_lawful:
  "store_inv st \<Longrightarrow> store_room st \<Longrightarrow> v_create_object st obj = (h, st') \<Longrightarrow>
   store_inv st' \<and> v_get_object st h = None \<and> v_get_object st' = (v_get_object st)(h \<mapsto> obj)"
  using create_inv create_get by blast

lemma destroy_lawful:
  assumes "store_inv st" "v_destroy_object st h = (b, st')"
  shows "store_inv st' \<and> b = (v_get_object st h \<noteq> None) \<and> v_get_object st' = (v_get_object st)(h := None)"
proof (cases "v_get_object st h")
  case None
  then show ?thesis using assms by (auto simp: destroy_none fun_eq_iff)
next
  case (Some obj)
  then show ?thesis
    using assms destroy_some [OF Some] destroy_get [OF Some] destroy_inv [OF assms(1), of h] by auto
qed

lemma put_lawful:
  "store_inv st \<Longrightarrow> store_inv (v_put_object st h obj) \<and> v_get_object (v_put_object st h obj) =
     (if v_get_object st h = None then v_get_object st else (v_get_object st)(h \<mapsto> obj))"
  using put_inv put_get by (auto simp: put_none)

interpretation objs: handle_table v_create_object v_get_object v_destroy_object v_put_object
  store_inv store_room
  by unfold_locales (use create_lawful destroy_lawful put_lawful in blast)+

subsection \<open>Enumeration and search\<close>

lemma live_iff: "store_inv st \<Longrightarrow> i < length (v_table st) \<Longrightarrow> v_live (v_table st ! i) = (\<not> v_is_free (v_table st ! i))"
  by (simp add: v_live_def store_inv_entry)

lemma handle_at_get:
  assumes "store_inv st" "i < length (v_table st)"
  shows "v_get_object st (v_handle_at st i) =
    (if v_live (v_table st ! i) then v_object (v_table st ! i) else None)"
  using assms store_inv_entry [OF assms]
  by (auto simp: v_get_object_unfold v_handle_at_def v_live_def unat_of_nat_idx store_inv_def)

lemma get_handle_at:
  assumes "v_get_object st h = Some obj"
  obtains i where "i < length (v_table st)" "h = v_handle_at st i" "v_live (v_table st ! i)"
    "v_object (v_table st ! i) = Some obj"
  using assms that [of "unat (v_extract_index h)"]
  by (auto simp: v_get_object_unfold v_handle_at_def v_live_def split: if_splits)

lemma handle_at_inject:
  "store_inv st \<Longrightarrow> i < length (v_table st) \<Longrightarrow> j < length (v_table st) \<Longrightarrow>
   v_handle_at st i = v_handle_at st j \<longleftrightarrow> i = j"
  by (auto simp: v_handle_at_def store_inv_def dest!: arg_cong [where f = unat]) (simp add: unat_of_nat_idx)

lemma all_handles_spec:
  assumes "store_inv st"
  shows "distinct (v_all_handles st)" "set (v_all_handles st) = dom (v_get_object st)"
    "length (v_all_handles st) = v_get_object_count st"
proof -
  show "distinct (v_all_handles st)"
    unfolding v_all_handles_def distinct_map
    by (auto simp: inj_on_def handle_at_inject [OF assms])
  show "set (v_all_handles st) = dom (v_get_object st)"
    by (auto simp: v_all_handles_def handle_at_get [OF assms] v_live_def elim!: get_handle_at)
  show "length (v_all_handles st) = v_get_object_count st"
    by (simp add: v_all_handles_def v_get_object_count_def length_filter_conv_card cong: conj_cong)
qed

lemma revalidate_snapshot [simp]: "p \<in> set (v_snapshot st is) \<Longrightarrow> v_revalidate st p"
  by (auto simp: v_snapshot_def v_revalidate_def v_live_def)

lemma snapshot_get:
  assumes "store_inv st" "(i, obj) \<in> set (v_snapshot st is)"
  shows "v_get_object st (v_handle_at st i) = Some obj"
  using assms handle_at_get [of st i] by (auto simp: v_snapshot_def v_live_def)

lemma find_all_sound:
  assumes "store_inv st" "h \<in> set (v_find_all_by_attributes st templ)"
  shows "\<exists>obj. v_get_object st h = Some obj \<and> v_match templ obj"
proof (cases "templ = []")
  case True
  then show ?thesis using assms all_handles_spec(2) [OF assms(1)]
    by (auto simp: v_find_all_by_attributes_def v_match_def)
next
  case False
  then show ?thesis using assms
    by (auto simp: v_find_all_by_attributes_def split: option.splits if_splits dest!: snapshot_get [OF assms(1)])
qed


subsection \<open>Exactness of the secondary indices\<close>

lemma idx_ok_insert:
  "idx_ok m f xs \<Longrightarrow> m i = None \<Longrightarrow> idx_ok (m(i \<mapsto> obj)) f (xs @ key_entry (f obj) i)"
  by (auto simp: idx_ok_def key_entry_def split: option.splits)

lemma idx_ok_remove:
  assumes "idx_ok m f xs" "m i = Some obj"
  shows "idx_ok (m(i := None)) f (case f obj of None \<Rightarrow> xs | Some k \<Rightarrow> remove1 (k, i) xs)"
  using assms by (auto simp: idx_ok_def split: option.splits)

lemma idx_ok_refresh:
  assumes "idx_ok m f xs"
  shows "idx_ok (m(i \<mapsto> obj)) f (filter (\<lambda>e. snd e \<noteq> i) xs @ key_entry (f obj) i)"
  using assms by (auto simp: idx_ok_def key_entry_def split: option.splits)

lemma index_insert_entries:
  "v_label_index (v_index_insert st i obj) = v_label_index st @ key_entry (label_key obj) i"
  "v_id_index (v_index_insert st i obj) = v_id_index st @ key_entry (id_key obj) i"
  "v_class_index (v_index_insert st i obj) = v_class_index st @ key_entry (class_key obj) i"
  by (simp_all add: v_index_insert_def Let_def key_entry_def label_key_def id_key_def class_key_def)

lemma index_remove_entries:
  "v_label_index (v_index_remove st i obj) =
    (case label_key obj of None \<Rightarrow> v_label_index st | Some k \<Rightarrow> remove1 (k, i) (v_label_index st))"
  "v_id_index (v_index_remove st i obj) =
    (case id_key obj of None \<Rightarrow> v_id_index st | Some k \<Rightarrow> remove1 (k, i) (v_id_index st))"
  "v_class_index (v_index_remove st i obj) =
    (case class_key obj of None \<Rightarrow> v_class_index st | Some k \<Rightarrow> remove1 (k, i) (v_class_index st))"
  by (simp_all add: v_index_remove_def Let_def label_key_def id_key_def class_key_def)

lemma slot_obj_get: "store_inv st \<Longrightarrow> slot_obj st (v_extract_index h) = Some obj \<Longrightarrow>
  v_version (v_table st ! unat (v_extract_index h)) = v_extract_version h \<Longrightarrow> v_get_object st h = Some obj"
  by (auto simp: slot_obj_def v_get_object_unfold v_live_def split: if_splits)

lemma get_slot_obj: "v_get_object st h = Some obj \<Longrightarrow> slot_obj st (v_extract_index h) = Some obj"
  by (auto simp: slot_obj_def v_get_object_unfold v_live_def split: if_splits)

lemma slot_obj_update:
  assumes "unat i < length (v_table st)" "v_table st' = (v_table st)[unat i := e]"
  shows "slot_obj st' = (slot_obj st)(i := if v_live e then v_object e else None)"
proof
  fix j
  show "slot_obj st' j = ((slot_obj st)(i := if v_live e then v_object e else None)) j"
    using assms by (cases "j = i") (auto simp: slot_obj_def word_unat_eq_iff nth_list_update)
qed

lemma slot_obj_append:
  assumes "length (v_table st) < 2 ^ 32" "v_table st' = v_table st @ [e]"
  shows "slot_obj st' = (slot_obj st)(of_nat (length (v_table st)) := if v_live e then v_object e else None)"
proof
  fix j :: u32
  have n: "unat (of_nat (length (v_table st)) :: u32) = length (v_table st)"
    using assms(1) by (simp add: unat_of_nat_idx)
  show "slot_obj st' j = ((slot_obj st)(of_nat (length (v_table st)) := if v_live e then v_object e else None)) j"
    using assms(2) n by (cases "unat j = length (v_table st)") (auto simp: slot_obj_def word_unat_eq_iff nth_append)
qed

lemma slot_obj_index_insert [simp]: "slot_obj (v_index_insert st i obj) = slot_obj st"
  by (simp add: slot_obj_def fun_eq_iff)

lemma index_exact_new [simp]: "index_exact new_ObjectStore"
  by (simp add: index_exact_def idx_ok_def new_ObjectStore_def slot_obj_def)

lemma create_shape:
  assumes "store_inv st" "store_room st" "v_create_object st obj = (h, st')"
  shows "slot_obj st (v_extract_index h) = None \<and> slot_obj st' = (slot_obj st)(v_extract_index h \<mapsto> obj) \<and>
    v_label_index st' = v_label_index st @ key_entry (label_key obj) (v_extract_index h) \<and>
    v_id_index st' = v_id_index st @ key_entry (id_key obj) (v_extract_index h) \<and>
    v_class_index st' = v_class_index st @ key_entry (class_key obj) (v_extract_index h)"
proof (cases "v_free_head st = UINT32_MAX")
  case True
  let ?n = "length (v_table st)"
  have n: "unat (of_nat ?n :: u32) = ?n" "?n < 2 ^ 32"
    using assms(2) by (simp_all add: store_room_def unat_of_nat_idx)
  have "v_extract_index h = of_nat ?n"
    "v_table st' = v_table st @ [new_ObjectEntry\<lparr>v_is_free := False, v_version := 1, v_object := Some obj\<rparr>]"
    using assms(3) True by (auto simp: v_create_object_def Let_def new_ObjectEntry_def)
  then show ?thesis using assms(3) True n slot_obj_append [of st st']
    by (auto simp: v_create_object_def Let_def index_insert_entries v_live_def slot_obj_def)
next
  case False
  let ?i = "unat (v_free_head st)"
  obtain xs where xs: "distinct xs" "free_chain (v_table st) (v_free_head st) xs"
    using assms(1) by (auto simp: store_inv_def)
  then obtain i ys where "xs = i # ys" using False by (cases xs) auto
  then have i: "?i < length (v_table st)" "v_is_free (v_table st ! ?i)"
    using xs assms(1) by (auto simp: store_inv_def unat_of_nat_idx)
  have "v_extract_index h = v_free_head st"
    "v_table st' = (v_table st)[?i := (v_table st ! ?i)\<lparr>v_is_free := False,
        v_version := v_version (v_table st ! ?i) + 1, v_object := Some obj\<rparr>]"
    using assms(3) False by (auto simp: v_create_object_def Let_def)
  then show ?thesis using assms(3) False i slot_obj_update [of "v_free_head st" st st']
    by (auto simp: v_create_object_def Let_def index_insert_entries v_live_def slot_obj_def)
qed

lemma index_exact_create:
  "store_inv st \<Longrightarrow> store_room st \<Longrightarrow> index_exact st \<Longrightarrow> index_exact (snd (v_create_object st obj))"
  using create_shape [of st obj] by (cases "v_create_object st obj") (auto simp: index_exact_def idx_ok_insert)

lemma index_exact_destroy:
  assumes "store_inv st" "index_exact st"
  shows "index_exact (snd (v_destroy_object st h))"
proof (cases "v_get_object st h")
  case None
  then show ?thesis using assms by (simp add: destroy_none)
next
  case (Some obj)
  let ?st = "snd (v_destroy_object st h)"
  have i: "unat (v_extract_index h) < length (v_table st)"
    using Some by (auto simp: v_get_object_unfold split: if_splits)
  have "slot_obj ?st = (slot_obj st)(v_extract_index h := None)"
    using slot_obj_update [OF i, of ?st] by (simp add: destroy_some [OF Some] v_live_def)
  then show ?thesis using assms(2) get_slot_obj [OF Some]
    by (simp add: index_exact_def destroy_some [OF Some] index_remove_entries idx_ok_remove)
qed

lemma index_exact_put_reindex:
  assumes "index_exact st"
  shows "index_exact (v_reindex (v_put_object st h obj) h)"
proof (cases "v_get_object st h")
  case None
  then show ?thesis using assms by (simp add: put_none) (auto simp: v_reindex_def Let_def v_get_object_unfold split: if_splits)
next
  case (Some obj0)
  let ?i = "v_extract_index h"
  let ?st = "v_put_object st h obj"
  have i: "unat ?i < length (v_table st)" "\<not> v_is_free (v_table st ! unat ?i)"
    "v_version (v_table st ! unat ?i) = v_extract_version h"
    using Some by (auto simp: v_get_object_unfold split: if_splits)
  have t: "v_table ?st = (v_table st)[unat ?i := (v_table st ! unat ?i)\<lparr>v_object := Some obj\<rparr>]"
    "v_label_index ?st = v_label_index st" "v_id_index ?st = v_id_index st" "v_class_index ?st = v_class_index st"
    using Some by (simp_all add: v_put_object_def Let_def)
  have "slot_obj (v_reindex ?st h) = (slot_obj st)(?i \<mapsto> obj)"
    using slot_obj_update [OF i(1), of "v_reindex ?st h"] i t by (simp add: v_live_def)
  moreover have "v_reindex ?st h = v_index_insert
     (?st\<lparr>v_label_index := filter (\<lambda>e. snd e \<noteq> ?i) (v_label_index st),
       v_id_index := filter (\<lambda>e. snd e \<noteq> ?i) (v_id_index st),
       v_class_index := filter (\<lambda>e. snd e \<noteq> ?i) (v_class_index st)\<rparr>) ?i obj"
    using i t by (simp add: v_reindex_def Let_def)
  ultimately show ?thesis using assms
    by (simp add: index_exact_def index_insert_entries idx_ok_refresh)
qed

subsection \<open>Completeness of the indexed search\<close>

lemma equal_range_mem: "i \<in> set (equal_range idx k) \<longleftrightarrow> (k, i) \<in> set idx"
  by (force simp: equal_range_def)

lemma narrow_complete:
  assumes "\<And>k. key = Some k \<Longrightarrow> (k, i) \<in> set idx" "fst s \<longrightarrow> i \<in> set (snd s)"
  shows "\<exists>s'. v_narrow idx key s = Some s' \<and> (fst s' \<longrightarrow> i \<in> set (snd s'))"
proof (cases key)
  case (Some k)
  have m: "i \<in> set (equal_range idx k)" using assms(1) Some by (simp add: equal_range_mem)
  then have "equal_range idx k \<noteq> []" by auto
  moreover have "filter (\<lambda>j. j \<in> set (snd s)) (equal_range idx k) \<noteq> []" if "fst s"
    using m assms(2) that by (auto simp: filter_empty_conv)
  ultimately show ?thesis using Some m assms(2) by (auto simp: v_narrow_def Let_def)
qed (use assms(2) in \<open>auto simp: v_narrow_def\<close>)

lemma match_key: "v_match templ obj \<Longrightarrow> map_of templ k = Some v \<Longrightarrow> findAttribute obj k = Some v"
  by (auto simp: v_match_def list_all_iff dest: map_of_SomeD)

lemma candidates_complete:
  assumes "index_exact st" "slot_obj st i = Some obj" "v_match templ obj"
    and "map_of templ CKA_CLASS = None" "map_of templ CKA_LABEL \<noteq> Some []" "map_of templ CKA_ID \<noteq> Some []"
  shows "\<exists>s. v_candidates st templ = Some s \<and> (fst s \<longrightarrow> i \<in> set (snd s))"
proof -
  have l: "(k, i) \<in> set (v_label_index st)" if "map_of templ CKA_LABEL = Some k" for k
    using assms that match_key [OF assms(3) that]
    by (auto simp: index_exact_def idx_ok_def label_key_def v_extract_label_def)
  have d: "(k, i) \<in> set (v_id_index st)" if "map_of templ CKA_ID = Some k" for k
    using assms that match_key [OF assms(3) that]
    by (auto simp: index_exact_def idx_ok_def id_key_def v_extract_id_def)
  have c: "v_narrow (v_class_index st) (v_class_key templ) (False, []) = Some (False, [])"
    using assms(4) by (simp add: v_class_key_def v_narrow_def)
  obtain s1 where s1: "v_narrow (v_label_index st) (map_of templ CKA_LABEL) (False, []) = Some s1"
    "fst s1 \<longrightarrow> i \<in> set (snd s1)"
    using narrow_complete [where s = "(False, [])" and key = "map_of templ CKA_LABEL", OF l] by auto
  obtain s2 where "v_narrow (v_id_index st) (map_of templ CKA_ID) s1 = Some s2" "fst s2 \<longrightarrow> i \<in> set (snd s2)"
    using narrow_complete [where key = "map_of templ CKA_ID", OF d s1(2)] by auto
  then show ?thesis using c s1 by (auto simp: v_candidates_def)
qed

lemma snapshot_mem:
  "i < length (v_table st) \<Longrightarrow> v_live (v_table st ! i) \<Longrightarrow> v_object (v_table st ! i) = Some obj \<Longrightarrow>
   i \<in> set is \<Longrightarrow> (i, obj) \<in> set (v_snapshot st is)"
  by (force simp: v_snapshot_def)

lemma find_all_complete:
  assumes "store_inv st" "index_exact st" "v_get_object st h = Some obj" "v_match templ obj"
    and "map_of templ CKA_CLASS = None" "map_of templ CKA_LABEL \<noteq> Some []" "map_of templ CKA_ID \<noteq> Some []"
  shows "h \<in> set (v_find_all_by_attributes st templ)"
proof (cases "templ = []")
  case True
  then show ?thesis using assms(3) all_handles_spec(2) [OF assms(1)] by (auto simp: v_find_all_by_attributes_def)
next
  case False
  obtain i where i: "i < length (v_table st)" "h = v_handle_at st i" "v_live (v_table st ! i)"
    "v_object (v_table st ! i) = Some obj"
    using assms(3) by (rule get_handle_at)
  have u: "unat (of_nat i :: u32) = i" using i(1) assms(1) by (simp add: store_inv_def unat_of_nat_idx)
  then have "slot_obj st (of_nat i) = Some obj" using i by (simp add: slot_obj_def)
  from candidates_complete [OF assms(2) this assms(4-7)] obtain s where
    s: "v_candidates st templ = Some s" "fst s \<longrightarrow> of_nat i \<in> set (snd s)" by blast
  have "i \<in> set (if fst s then map unat (snd s) else [0..<length (v_table st)])"
    using s(2) i(1) u by force
  from snapshot_mem [OF i(1,3,4) this] show ?thesis
    using False s(1) i(2) assms(4)
    by (cases s) (force simp: v_find_all_by_attributes_def image_iff)
qed

lemma find_class_empty:
  assumes "store_inv st" "\<And>h obj. v_get_object st h = Some obj \<Longrightarrow> findAttribute obj CKA_CLASS = None"
    "CKA_CLASS \<in> fst ` set templ"
  shows "v_find_all_by_attributes st templ = []"
proof -
  have "v_match templ obj \<Longrightarrow> findAttribute obj CKA_CLASS \<noteq> None" for obj
    using assms(3) by (auto simp: v_match_def list_all_iff)
  then have "h \<notin> set (v_find_all_by_attributes st templ)" for h
    using find_all_sound [OF assms(1), of h templ] assms(2) [of h] by fastforce
  then show ?thesis by (metis list.set_intros(1) neq_Nil_conv)
qed

subsection \<open>Runs of the store\<close>

lemma reuse_create:
  assumes "store_inv st" "store_room st" "reuse_inv k i v st"
  shows "reuse_inv (Suc k) i v (snd (v_create_object st obj))"
proof -
  obtain j where j: "j \<le> k" "v_version (v_table st ! i) = v + of_nat j" "\<not> v_is_free (v_table st ! i) \<longrightarrow> 0 < j"
    and i: "i < length (v_table st)" using assms(3) by (auto simp: reuse_inv_def)
  show ?thesis
  proof (cases "v_free_head st \<noteq> UINT32_MAX \<and> unat (v_free_head st) = i")
    case True
    then have "reuse_inv (Suc k) i v (snd (v_create_object st obj)) \<longleftrightarrow>
      (\<exists>j'\<le>Suc k. v + of_nat j + 1 = v + of_nat j' \<and> 0 < j')"
      using i j(2) by (auto simp: reuse_inv_def v_create_object_def Let_def)
    then show ?thesis using j(1) by (auto intro!: exI [of _ "Suc j"] simp: algebra_simps)
  next
    case False
    then show ?thesis using i j by (auto simp: reuse_inv_def v_create_object_def Let_def nth_append intro!: exI [of _ j])
  qed
qed

lemma reuse_destroy:
  assumes "store_inv st" "reuse_inv k i v st"
  shows "reuse_inv k i v (snd (v_destroy_object st h))"
proof (cases "v_get_object st h")
  case None
  then show ?thesis using assms by (simp add: destroy_none)
next
  case (Some obj)
  then show ?thesis using assms(2)
    by (cases "unat (v_extract_index h) = i") (auto simp: reuse_inv_def destroy_some [OF Some])
qed

lemma reuse_put: "reuse_inv k i v st \<Longrightarrow> reuse_inv k i v (v_put_object st h obj)"
  by (cases "unat (v_extract_index h) = i") (auto simp: reuse_inv_def v_put_object_def Let_def)

lemma length_create: "length (v_table (snd (v_create_object st obj))) \<le> Suc (length (v_table st))"
  by (simp add: v_create_object_def Let_def)

lemma reuse_run:
  "store_inv st \<Longrightarrow> length (v_table st) + creations ops < 2 ^ 32 - 1 \<Longrightarrow> reuse_inv k i v st \<Longrightarrow>
   store_inv (store_run ops st) \<and> reuse_inv (k + creations ops) i v (store_run ops st)"
proof (induction ops arbitrary: st k)
  case (Cons op ops)
  show ?case
  proof (cases op)
    case (Create obj)
    let ?st = "snd (v_create_object st obj)"
    have r: "store_room st" using Cons.prems(2) by (simp add: store_room_def)
    have "store_inv ?st" using create_lawful [OF Cons.prems(1) r] by (cases "v_create_object st obj") auto
    moreover have "length (v_table ?st) + creations ops < 2 ^ 32 - 1"
      using Cons.prems(2) Create length_create [of st obj] by (simp add: creations_def)
    ultimately show ?thesis
      using Cons.IH [OF _ _ reuse_create [OF Cons.prems(1) r Cons.prems(3), of obj]] Create
      by (simp add: store_run_def creations_def)
  next
    case (Destroy h)
    have "length (v_table (snd (v_destroy_object st h))) = length (v_table st)"
      by (auto simp: v_destroy_object_def Let_def split: option.splits)
    then show ?thesis
      using Cons.IH [OF destroy_inv [OF Cons.prems(1), of h] _ reuse_destroy [OF Cons.prems(1,3), of h]]
        Cons.prems Destroy by (simp add: store_run_def creations_def)
  next
    case (Put h obj)
    then show ?thesis
      using Cons.IH [OF put_inv [OF Cons.prems(1), of h obj] _ reuse_put [OF Cons.prems(3), of h obj]] Cons.prems
      by (simp add: store_run_def creations_def v_put_object_def Let_def split: if_splits)
  next
    case (Reindex h)
    then show ?thesis using Cons.IH [of "v_reindex st h" k] Cons.prems
      by (simp add: store_run_def creations_def reuse_inv_def)
  qed
qed (simp add: store_run_def creations_def)

lemma reuse_stale:
  assumes "reuse_inv k (unat (v_extract_index h)) (v_extract_version h) st" "k < 2 ^ 32"
  shows "v_get_object st h = None"
proof -
  have "v + of_nat j \<noteq> v" if "0 < j" "j < 2 ^ 32" for j :: nat and v :: u32
  proof -
    have "unat (of_nat j :: u32) = j" using that by (simp add: unat_of_nat_idx)
    then show ?thesis using that by (metis add_cancel_right_right unat_0 less_irrefl)
  qed
  then show ?thesis using assms by (fastforce simp: reuse_inv_def v_get_object_unfold)
qed


subsection \<open>Properties\<close>

text \<open>
  C3. The slot table with its free list implements a partial map from handles to objects: starting
  from a well-formed store with a slot left, creation returns a handle that was unknown and adds
  exactly that binding, destruction succeeds exactly for known handles and removes exactly that
  binding, a write through a pointer changes exactly that object, and all three keep the store
  well-formed.
\<close>

theorem store_refines_map:
  assumes "store_inv st" and "store_room st"
  shows "(let (h, st') = v_create_object st obj in
      store_inv st' \<and> v_get_object st h = None \<and> v_get_object st' = (v_get_object st)(h \<mapsto> obj)) \<and>
    (let (b, st') = v_destroy_object st g in
      store_inv st' \<and> b = (v_get_object st g \<noteq> None) \<and> v_get_object st' = (v_get_object st)(g := None)) \<and>
    store_inv (v_put_object st g obj) \<and>
    v_get_object (v_put_object st g obj) =
      (if v_get_object st g = None then v_get_object st else (v_get_object st)(g \<mapsto> obj))"
  using objs.create_law [OF assms, of obj] objs.destroy_law [OF assms(1), of g]
    objs.put_law [OF assms(1), of g obj]
  by (auto split: prod.splits)

theorem store_refines_map_witness:
  "store_inv new_ObjectStore \<and> store_room new_ObjectStore \<and>
   v_get_object (snd (v_create_object new_ObjectStore (new_HsmObject DATA False True False False)))
     (fst (v_create_object new_ObjectStore (new_HsmObject DATA False True False False))) =
     Some (new_HsmObject DATA False True False False)"
proof -
  have "store_inv new_ObjectStore" "store_room new_ObjectStore"
    by (simp_all add: store_room_def) (simp add: new_ObjectStore_def)
  then show ?thesis
    using store_refines_map [of new_ObjectStore "new_HsmObject DATA False True False False" 0]
    by (auto split: prod.splits)
qed

text \<open>
  C6. A destroyed handle stays dead: after the destruction of a live object, no sequence of store
  operations with fewer than \<open>2 ^ 32 - 1\<close> slots and creations in total makes the old handle resolve
  again, although its slot may be re-used, because the version in the handle no longer matches.
\<close>

theorem stale_handle_rejected:
  assumes "store_inv st" and "v_get_object st h = Some obj"
    and "length (v_table st) + creations ops < 2 ^ 32 - 1"
  shows "v_get_object (store_run ops (snd (v_destroy_object st h))) h = None"
proof -
  let ?st = "snd (v_destroy_object st h)"
  have i: "unat (v_extract_index h) < length (v_table st)"
    "v_version (v_table st ! unat (v_extract_index h)) = v_extract_version h"
    using assms(2) by (auto simp: v_get_object_unfold split: if_splits)
  have "reuse_inv 0 (unat (v_extract_index h)) (v_extract_version h) ?st"
    using i by (simp add: reuse_inv_def destroy_some [OF assms(2)])
  moreover have "length (v_table ?st) = length (v_table st)" by (simp add: destroy_some [OF assms(2)])
  ultimately have "reuse_inv (0 + creations ops) (unat (v_extract_index h)) (v_extract_version h) (store_run ops ?st)"
    using reuse_run [OF destroy_inv [OF assms(1), of h], of ops 0] assms(3) by simp
  from reuse_stale [OF this] show ?thesis using assms(3) by simp
qed

theorem stale_handle_rejected_witness:
  "v_get_object
     (store_run [Create (new_HsmObject SECRET_KEY True False True True)]
       (snd (v_destroy_object
         (snd (v_create_object new_ObjectStore (new_HsmObject DATA False True False False))) 1))) 1 = None"
proof -
  let ?c = "v_create_object new_ObjectStore (new_HsmObject DATA False True False False)"
  have c: "?c = (1, snd ?c)"
    by (simp add: v_create_object_def new_ObjectStore_def new_ObjectEntry_def v_compose_handle_def Let_def)
  have r: "store_room new_ObjectStore" by (simp add: store_room_def new_ObjectStore_def)
  have l: "length (v_table (snd ?c)) = 1"
    by (simp add: v_create_object_def new_ObjectStore_def Let_def)
  show ?thesis
    by (rule stale_handle_rejected [OF create_inv [OF store_inv_new r c] objs.created_found [OF store_inv_new r c]])
      (simp add: l creations_def)
qed

text \<open>
  Enumeration is exact: on a well-formed store \<open>v_all_handles\<close> lists every handle that resolves,
  once, and nothing else, and \<open>v_get_object_count\<close> is their number.
\<close>

lemma all_handles_exact:
  assumes "store_inv st"
  shows "distinct (v_all_handles st) \<and> set (v_all_handles st) = dom (v_get_object st) \<and>
    v_get_object_count st = card (dom (v_get_object st))"
  using all_handles_spec [OF assms] distinct_card by metis



text \<open>
  C13. The secondary indices stay exact under creation, destruction, and under an attribute write
  that is followed by \<open>v_reindex\<close>.
\<close>

theorem index_exact_preserved:
  assumes "store_inv st" and "store_room st" and "index_exact st"
  shows "index_exact (snd (v_create_object st obj)) \<and> index_exact (snd (v_destroy_object st h)) \<and>
    index_exact (v_reindex (v_put_object st h obj) h)"
  using assms by (simp add: index_exact_create index_exact_destroy index_exact_put_reindex)

theorem index_exact_preserved_witness:
  "index_exact (snd (v_create_object new_ObjectStore (new_HsmObject DATA False True False False)))"
  using index_exact_preserved [of new_ObjectStore "new_HsmObject DATA False True False False" 0]
  by (simp add: store_room_def) (simp add: new_ObjectStore_def)

text \<open>
  A template that names CKA\_CLASS never finds anything through the indexed search, whatever
  the store holds: the candidates are re-checked against the attribute map, and the class of an
  object is not kept there (attribute writes never put it there).
\<close>

lemma class_search_finds_nothing:
  assumes "store_inv st"
    and "\<And>h obj. v_get_object st h = Some obj \<Longrightarrow> findAttribute obj CKA_CLASS = None"
    and "CKA_CLASS \<in> fst ` set templ"
  shows "v_find_all_by_attributes st templ = []"
  using find_class_empty assms by blast

end
