(* ===== verification/Token.thy ===== *)
theory Token
  imports ObjectStore
begin

text \<open>
  The token: keystore/internal/token\_core.cpp (state, PIN management with lockout, key encryption
  key, snapshot restore) and its validating facade keystore/token.cpp.  The per-role mutexes make
  each PIN operation one step.  The injected clock is the field \<open>v_clock\<close>, the reading the next PIN
  operation takes; nothing but \<open>v_touch_pin_op\<close> looks at it.  An exception of the guarded PIN buffer
  appears as the code the entry-point shield returns for it.
\<close>

record TokenCore =
  v_label :: string
  v_id :: string
  v_object_store :: ObjectStore
  v_session_count :: CK_ULONG
  v_rw_session_count :: CK_ULONG
  v_token_initialized :: CK_BBOOL
  v_user_pin_set :: CK_BBOOL
  v_so_pin_set :: CK_BBOOL
  v_user_login_required :: CK_BBOOL
  v_so_login_required :: CK_BBOOL
  v_user_pin :: bytes
  v_so_pin :: bytes
  v_user_pin_len :: u64
  v_so_pin_len :: u64
  v_user_failed_attempts :: u32
  v_so_failed_attempts :: u32
  v_user_pin_locked :: CK_BBOOL
  v_so_pin_locked :: CK_BBOOL
  v_max_failed_attempts :: u32
  v_clock :: nat
  v_last_pin_op_at :: nat

definition new_TokenCore :: "string \<Rightarrow> string \<Rightarrow> nat \<Rightarrow> TokenCore" where
  "new_TokenCore label tid clock =
     \<lparr>v_label = label, v_id = tid, v_object_store = new_ObjectStore, v_session_count = 0,
      v_rw_session_count = 0, v_token_initialized = CK_FALSE, v_user_pin_set = CK_FALSE,
      v_so_pin_set = CK_FALSE, v_user_login_required = CK_TRUE, v_so_login_required = CK_TRUE,
      v_user_pin = replicate 256 0, v_so_pin = replicate 256 0, v_user_pin_len = 0, v_so_pin_len = 0,
      v_user_failed_attempts = 0, v_so_failed_attempts = 0, v_user_pin_locked = CK_FALSE,
      v_so_pin_locked = CK_FALSE, v_max_failed_attempts = 5, v_clock = clock,
      v_last_pin_op_at = clock\<rparr>"

subsection \<open>Key encryption key\<close>

text \<open>The size query followed by the read that the token uses for every attribute.\<close>

definition read_attr :: "HsmObject \<Rightarrow> CK_ATTRIBUTE_TYPE \<Rightarrow> bytes option" where
  "read_attr obj t = (case v_get_attribute obj t False (Some 0) of
     (rv, _, Some len) \<Rightarrow>
       if rv \<noteq> CKR_OK then None
       else (case v_get_attribute obj t True (Some len) of
           (rv', Some v, _) \<Rightarrow> if rv' \<noteq> CKR_OK then None else Some v
         | _ \<Rightarrow> None)
   | _ \<Rightarrow> None)"

definition KEK_label :: bytes where
  "KEK_label = [0x4B, 0x45, 0x4B]"

definition is_kek_label :: "HsmObject \<Rightarrow> bool" where
  "is_kek_label obj = (read_attr obj CKA_LABEL = Some KEK_label)"

definition is_kek :: "HsmObject \<Rightarrow> bool" where
  "is_kek obj =
     (if \<not> is_kek_label obj then False
      else case read_attr obj CKA_CLASS of
        None \<Rightarrow> False
      | Some v \<Rightarrow> length v = 8 \<and> get_le64 v = CKO_SECRET_KEY)"

definition v_get_kek :: "TokenCore \<Rightarrow> bytes" where
  "v_get_kek t = (case v_find_object_if (v_object_store t) is_kek of
     (_, None) \<Rightarrow> []
   | (_, Some obj) \<Rightarrow> (case read_attr obj CKA_VALUE of None \<Rightarrow> [] | Some v \<Rightarrow> v))"

definition kek_object :: "bytes \<Rightarrow> HsmObject" where
  "kek_object kek =
     set_attr_vec (set_attr_vec (set_attr_vec (new_HsmObject SECRET_KEY False True False False)
       CKA_CLASS (put_le64 CKO_SECRET_KEY)) CKA_LABEL KEK_label) CKA_VALUE kek"

definition v_restore_state ::
  "TokenCore \<Rightarrow> CK_BBOOL \<Rightarrow> CK_BBOOL \<Rightarrow> CK_BBOOL \<Rightarrow> CK_BBOOL \<Rightarrow> CK_BBOOL \<Rightarrow> u32 \<Rightarrow> u32 \<Rightarrow> u32 \<Rightarrow>
   CK_BBOOL \<Rightarrow> CK_BBOOL \<Rightarrow> bytes \<Rightarrow> TokenCore" where
  "v_restore_state t token_initialized user_pin_set so_pin_set user_login_required so_login_required
     max_failed_attempts user_failed_attempts so_failed_attempts user_pin_locked so_pin_locked kek =
     (let t1 = t\<lparr>v_token_initialized := token_initialized, v_user_pin_set := user_pin_set,
                 v_so_pin_set := so_pin_set, v_user_login_required := user_login_required,
                 v_so_login_required := so_login_required,
                 v_max_failed_attempts := max_failed_attempts,
                 v_user_failed_attempts := user_failed_attempts,
                 v_so_failed_attempts := so_failed_attempts,
                 v_user_pin_locked := user_pin_locked, v_so_pin_locked := so_pin_locked\<rparr>;
          st = v_object_store t1;
          st1 = (case v_find_object_if st is_kek_label of
                   (_, None) \<Rightarrow> st
                 | (h, Some _) \<Rightarrow> snd (v_destroy_object st h));
          st2 = (if kek \<noteq> [] then
                   (let (h, s) = v_create_object st1 (new_HsmObject SECRET_KEY False True False False) in
                    v_put_object s h (kek_object kek))
                 else st1) in
      t1\<lparr>v_object_store := st2\<rparr>)"

subsection \<open>PIN management\<close>

definition v_secure_pin_equals :: "bytes \<Rightarrow> u64 \<Rightarrow> bytes option \<Rightarrow> u64 \<Rightarrow> bool" where
  "v_secure_pin_equals stored stored_len candidate candidate_len =
     (let diff = (if stored_len \<noteq> candidate_len then 1 else (0 :: u8));
          cand = read_mem candidate candidate_len in
      fold (\<lambda>i d.
        let candidate_byte = (if i < unat candidate_len then cand ! i else 0);
            stored_byte = (if i < unat stored_len then stored ! i else 0) in
        d OR (stored_byte XOR candidate_byte)) [0..<length stored] diff = 0)"

definition v_touch_pin_op :: "TokenCore \<Rightarrow> TokenCore" where
  "v_touch_pin_op t = t\<lparr>v_last_pin_op_at := v_clock t\<rparr>"

definition v_initialize_user_pin :: "TokenCore \<Rightarrow> bytes option \<Rightarrow> u64 \<Rightarrow> CK_RV \<times> TokenCore" where
  "v_initialize_user_pin t0 pin pinLen =
     (let t = v_touch_pin_op t0 in
      if v_user_pin_set t = CK_TRUE then (CKR_USER_PIN_ALREADY_INITIALIZED, t)
      else if length (v_user_pin t) < unat pinLen then (CKR_PIN_LEN_RANGE, t)
      else case sb_write (v_user_pin t) 0 pin pinLen of
        Inl e \<Rightarrow> (VHSM_C_CATCH e, t)
      | Inr b \<Rightarrow> (CKR_OK, t\<lparr>v_user_pin := b, v_user_pin_len := pinLen, v_user_pin_set := CK_TRUE,
                          v_user_failed_attempts := 0, v_user_pin_locked := CK_FALSE\<rparr>))"

definition v_initialize_so_pin :: "TokenCore \<Rightarrow> bytes option \<Rightarrow> u64 \<Rightarrow> CK_RV \<times> TokenCore" where
  "v_initialize_so_pin t0 pin pinLen =
     (let t = v_touch_pin_op t0 in
      if v_so_pin_set t = CK_TRUE then (CKR_SO_PIN_ALREADY_INITIALIZED, t)
      else if length (v_so_pin t) < unat pinLen then (CKR_PIN_LEN_RANGE, t)
      else case sb_write (v_so_pin t) 0 pin pinLen of
        Inl e \<Rightarrow> (VHSM_C_CATCH e, t)
      | Inr b \<Rightarrow> (CKR_OK, t\<lparr>v_so_pin := b, v_so_pin_len := pinLen, v_so_pin_set := CK_TRUE,
                          v_so_failed_attempts := 0, v_so_pin_locked := CK_FALSE\<rparr>))"

definition v_set_user_pin ::
  "TokenCore \<Rightarrow> bytes option \<Rightarrow> u64 \<Rightarrow> bytes option \<Rightarrow> u64 \<Rightarrow> CK_RV \<times> TokenCore" where
  "v_set_user_pin t0 oldPin oldLen newPin newLen =
     (let t = v_touch_pin_op t0 in
      if v_user_pin_set t = CK_FALSE then (CKR_USER_PIN_NOT_INITIALIZED, t)
      else if \<not> v_secure_pin_equals (v_user_pin t) (v_user_pin_len t) oldPin oldLen
      then (CKR_PIN_INCORRECT, t)
      else if length (v_user_pin t) < unat newLen then (CKR_PIN_LEN_RANGE, t)
      else case sb_write (v_user_pin t) 0 newPin newLen of
        Inl e \<Rightarrow> (VHSM_C_CATCH e, t)
      | Inr b \<Rightarrow> (CKR_OK, t\<lparr>v_user_pin := b, v_user_pin_len := newLen,
                          v_user_failed_attempts := 0, v_user_pin_locked := CK_FALSE\<rparr>))"

definition v_set_so_pin ::
  "TokenCore \<Rightarrow> bytes option \<Rightarrow> u64 \<Rightarrow> bytes option \<Rightarrow> u64 \<Rightarrow> CK_RV \<times> TokenCore" where
  "v_set_so_pin t0 oldPin oldLen newPin newLen =
     (let t = v_touch_pin_op t0 in
      if v_so_pin_set t = CK_FALSE then (CKR_SO_PIN_NOT_INITIALIZED, t)
      else if \<not> v_secure_pin_equals (v_so_pin t) (v_so_pin_len t) oldPin oldLen
      then (CKR_PIN_INCORRECT, t)
      else if length (v_so_pin t) < unat newLen then (CKR_PIN_LEN_RANGE, t)
      else case sb_write (v_so_pin t) 0 newPin newLen of
        Inl e \<Rightarrow> (VHSM_C_CATCH e, t)
      | Inr b \<Rightarrow> (CKR_OK, t\<lparr>v_so_pin := b, v_so_pin_len := newLen,
                          v_so_failed_attempts := 0, v_so_pin_locked := CK_FALSE\<rparr>))"

definition v_verify_pin_with_lockout ::
  "bytes \<Rightarrow> u64 \<Rightarrow> bytes option \<Rightarrow> u64 \<Rightarrow> CK_BBOOL \<Rightarrow> CK_RV \<Rightarrow> u32 \<Rightarrow> u32 \<Rightarrow> CK_BBOOL \<Rightarrow>
   CK_RV \<times> u32 \<times> CK_BBOOL" where
  "v_verify_pin_with_lockout stored stored_len candidate candidate_len pin_set not_initialized_rv
     max_attempts counter locked =
     (if locked = CK_TRUE then (CKR_PIN_LOCKED, counter, locked)
      else if pin_set = CK_FALSE then (not_initialized_rv, counter, locked)
      else if \<not> v_secure_pin_equals stored stored_len candidate candidate_len then
        (let n = counter + 1 in
         if max_attempts \<le> n then (CKR_PIN_LOCKED, n, CK_TRUE)
         else (CKR_PIN_INCORRECT, n, locked))
      else (CKR_OK, 0, CK_FALSE))"

definition v_verify_user_pin :: "TokenCore \<Rightarrow> bytes option \<Rightarrow> u64 \<Rightarrow> CK_RV \<times> TokenCore" where
  "v_verify_user_pin t0 pin pinLen =
     (let t = v_touch_pin_op t0;
          (rv, counter, locked) = v_verify_pin_with_lockout (v_user_pin t) (v_user_pin_len t) pin pinLen
            (v_user_pin_set t) CKR_USER_PIN_NOT_INITIALIZED (v_max_failed_attempts t)
            (v_user_failed_attempts t) (v_user_pin_locked t) in
      (rv, t\<lparr>v_user_failed_attempts := counter, v_user_pin_locked := locked\<rparr>))"

definition v_verify_so_pin :: "TokenCore \<Rightarrow> bytes option \<Rightarrow> u64 \<Rightarrow> CK_RV \<times> TokenCore" where
  "v_verify_so_pin t0 pin pinLen =
     (let t = v_touch_pin_op t0;
          (rv, counter, locked) = v_verify_pin_with_lockout (v_so_pin t) (v_so_pin_len t) pin pinLen
            (v_so_pin_set t) CKR_SO_PIN_NOT_INITIALIZED (v_max_failed_attempts t)
            (v_so_failed_attempts t) (v_so_pin_locked t) in
      (rv, t\<lparr>v_so_failed_attempts := counter, v_so_pin_locked := locked\<rparr>))"

definition v_login :: "TokenCore \<Rightarrow> CK_USER_TYPE \<Rightarrow> bytes option \<Rightarrow> u64 \<Rightarrow> CK_RV \<times> TokenCore" where
  "v_login t userType pin pinLen =
     (if userType = CKU_USER then v_verify_user_pin t pin pinLen
      else if userType = CKU_SO then v_verify_so_pin t pin pinLen
      else (CKR_USER_TYPE_INVALID, t))"

definition v_logout :: "TokenCore \<Rightarrow> CK_USER_TYPE \<Rightarrow> CK_RV" where
  "v_logout t userType =
     (if userType = CKU_USER \<or> userType = CKU_SO then CKR_OK else CKR_USER_TYPE_INVALID)"

definition v_set_max_failed_attempts :: "TokenCore \<Rightarrow> u32 \<Rightarrow> TokenCore" where
  "v_set_max_failed_attempts t0 mx =
     (let t = t0\<lparr>v_max_failed_attempts := mx\<rparr>;
          t = (if mx \<le> v_user_failed_attempts t then t\<lparr>v_user_pin_locked := CK_TRUE\<rparr> else t) in
      if mx \<le> v_so_failed_attempts t then t\<lparr>v_so_pin_locked := CK_TRUE\<rparr> else t)"

subsection \<open>Session accounting\<close>

definition v_increment_session_count :: "TokenCore \<Rightarrow> TokenCore" where
  "v_increment_session_count t = t\<lparr>v_session_count := v_session_count t + 1\<rparr>"

definition v_decrement_session_count :: "TokenCore \<Rightarrow> TokenCore" where
  "v_decrement_session_count t =
     (if 0 < v_session_count t then t\<lparr>v_session_count := v_session_count t - 1\<rparr> else t)"

definition v_increment_rw_session_count :: "TokenCore \<Rightarrow> TokenCore" where
  "v_increment_rw_session_count t = t\<lparr>v_rw_session_count := v_rw_session_count t + 1\<rparr>"

definition v_decrement_rw_session_count :: "TokenCore \<Rightarrow> TokenCore" where
  "v_decrement_rw_session_count t =
     (if 0 < v_rw_session_count t then t\<lparr>v_rw_session_count := v_rw_session_count t - 1\<rparr> else t)"

subsection \<open>The facade\<close>

definition initialize_user_pin :: "TokenCore \<Rightarrow> bytes option \<Rightarrow> u64 \<Rightarrow> CK_RV \<times> TokenCore" where
  "initialize_user_pin t pin pinLen =
     (if pin = None \<and> 0 < pinLen then (CKR_ARGUMENTS_BAD, t) else v_initialize_user_pin t pin pinLen)"

definition initialize_so_pin :: "TokenCore \<Rightarrow> bytes option \<Rightarrow> u64 \<Rightarrow> CK_RV \<times> TokenCore" where
  "initialize_so_pin t pin pinLen =
     (if pin = None \<and> 0 < pinLen then (CKR_ARGUMENTS_BAD, t) else v_initialize_so_pin t pin pinLen)"

definition set_user_pin ::
  "TokenCore \<Rightarrow> bytes option \<Rightarrow> u64 \<Rightarrow> bytes option \<Rightarrow> u64 \<Rightarrow> CK_RV \<times> TokenCore" where
  "set_user_pin t oldPin oldLen newPin newLen =
     (if (oldPin = None \<and> 0 < oldLen) \<or> (newPin = None \<and> 0 < newLen) then (CKR_ARGUMENTS_BAD, t)
      else v_set_user_pin t oldPin oldLen newPin newLen)"

definition set_so_pin ::
  "TokenCore \<Rightarrow> bytes option \<Rightarrow> u64 \<Rightarrow> bytes option \<Rightarrow> u64 \<Rightarrow> CK_RV \<times> TokenCore" where
  "set_so_pin t oldPin oldLen newPin newLen =
     (if (oldPin = None \<and> 0 < oldLen) \<or> (newPin = None \<and> 0 < newLen) then (CKR_ARGUMENTS_BAD, t)
      else v_set_so_pin t oldPin oldLen newPin newLen)"

definition change_user_pin ::
  "TokenCore \<Rightarrow> bytes option \<Rightarrow> u64 \<Rightarrow> bytes option \<Rightarrow> u64 \<Rightarrow> CK_RV \<times> TokenCore" where
  "change_user_pin t oldPin oldLen newPin newLen =
     (if (oldPin = None \<and> 0 < oldLen) \<or> (newPin = None \<and> 0 < newLen) then (CKR_ARGUMENTS_BAD, t)
      else v_set_user_pin t oldPin oldLen newPin newLen)"

definition verify_user_pin :: "TokenCore \<Rightarrow> bytes option \<Rightarrow> u64 \<Rightarrow> CK_RV \<times> TokenCore" where
  "verify_user_pin t pin pinLen =
     (if pin = None \<and> 0 < pinLen then (CKR_ARGUMENTS_BAD, t) else v_verify_user_pin t pin pinLen)"

definition verify_so_pin :: "TokenCore \<Rightarrow> bytes option \<Rightarrow> u64 \<Rightarrow> CK_RV \<times> TokenCore" where
  "verify_so_pin t pin pinLen =
     (if pin = None \<and> 0 < pinLen then (CKR_ARGUMENTS_BAD, t) else v_verify_so_pin t pin pinLen)"

definition login :: "TokenCore \<Rightarrow> CK_USER_TYPE \<Rightarrow> bytes option \<Rightarrow> u64 \<Rightarrow> CK_RV \<times> TokenCore" where
  "login t userType pin pinLen =
     (if pin = None \<and> 0 < pinLen then (CKR_ARGUMENTS_BAD, t) else v_login t userType pin pinLen)"

definition logout :: "TokenCore \<Rightarrow> CK_USER_TYPE \<Rightarrow> CK_RV" where
  "logout t userType = v_logout t userType"

subsection \<open>Specification notions\<close>

text \<open>Consecutive verification attempts through one role.\<close>

definition attempts :: "('t \<Rightarrow> bytes option \<Rightarrow> u64 \<Rightarrow> CK_RV \<times> 't) \<Rightarrow> (bytes option \<times> u64) list \<Rightarrow> 't \<Rightarrow> 't" where
  "attempts verify ps t = fold (\<lambda>p t'. snd (verify t' (fst p) (snd p))) ps t"

text \<open>The PIN buffers have their fixed size, the recorded lengths fit, and an unlocked role is below its limit.\<close>

definition token_inv :: "TokenCore \<Rightarrow> bool" where
  "token_inv t = (length (v_user_pin t) = 256 \<and> length (v_so_pin t) = 256 \<and>
     v_user_pin_len t \<le> 256 \<and> v_so_pin_len t \<le> 256 \<and> store_inv (v_object_store t) \<and>
     (v_max_failed_attempts t = 0 \<or> v_user_pin_locked t = CK_TRUE \<or>
        v_user_failed_attempts t < v_max_failed_attempts t) \<and>
     (v_max_failed_attempts t = 0 \<or> v_so_pin_locked t = CK_TRUE \<or>
        v_so_failed_attempts t < v_max_failed_attempts t))"

definition readable :: "bytes option \<Rightarrow> u64 \<Rightarrow> bool" where
  "readable p n = (case p of None \<Rightarrow> n = 0 | Some bs \<Rightarrow> unat n \<le> length bs)"

definition kek_unique :: "ObjectStore \<Rightarrow> bool" where
  "kek_unique st = (\<forall>g h x y. v_get_object st g = Some x \<longrightarrow> v_get_object st h = Some y \<longrightarrow>
     is_kek_label x \<longrightarrow> is_kek_label y \<longrightarrow> g = h)"

subsection \<open>The PIN comparison\<close>

lemma pin_equals_iff:
  assumes "unat stored_len \<le> length stored" "unat candidate_len \<le> length cand"
  shows "v_secure_pin_equals stored stored_len (Some cand) candidate_len \<longleftrightarrow>
    take (unat candidate_len) cand = take (unat stored_len) stored"
proof -
  let ?f = "\<lambda>i. (if i < unat stored_len then stored ! i else 0) XOR
     (if i < unat candidate_len then take (unat candidate_len) cand ! i else 0)"
  have "v_secure_pin_equals stored stored_len (Some cand) candidate_len \<longleftrightarrow>
    stored_len = candidate_len \<and> (\<forall>i<length stored. ?f i = 0)"
    unfolding v_secure_pin_equals_def Let_def by (auto simp: fold_or_zero)
  also have "\<dots> \<longleftrightarrow> take (unat candidate_len) cand = take (unat stored_len) stored"
    unfolding word_unat_eq_iff [of stored_len]
    using assms by (auto simp: xor_eq_zero_iff list_eq_iff_nth_eq)
  finally show ?thesis .
qed

lemma pin_equals_null: "v_secure_pin_equals stored stored_len None 0 \<longleftrightarrow> stored_len = 0"
  by (auto simp: v_secure_pin_equals_def Let_def fold_or_zero)

subsection \<open>Interface: a PIN role with lockout\<close>

text \<open>
  The user and the security officer roles share one contract: a verification either is refused
  because the role is locked, counts a failure and locks at the limit, or succeeds and resets the
  counter.  The consequences for sequences of guesses are proved once.
\<close>

locale pin_role =
  fixes verify :: "'t \<Rightarrow> bytes option \<Rightarrow> u64 \<Rightarrow> CK_RV \<times> 't"
    and matches :: "'t \<Rightarrow> bytes option \<Rightarrow> u64 \<Rightarrow> bool" and fails :: "'t \<Rightarrow> u32"
    and locked :: "'t \<Rightarrow> bool" and limit :: "'t \<Rightarrow> u32" and ready :: "'t \<Rightarrow> bool"
  assumes verify_locked: "locked t \<Longrightarrow> fst (verify t p n) = CKR_PIN_LOCKED \<and> locked (snd (verify t p n))"
    and verify_wrong: "\<not> locked t \<Longrightarrow> ready t \<Longrightarrow> \<not> matches t p n \<Longrightarrow>
      fails (snd (verify t p n)) = fails t + 1 \<and>
      (if limit t \<le> fails t + 1 then fst (verify t p n) = CKR_PIN_LOCKED \<and> locked (snd (verify t p n))
       else fst (verify t p n) = CKR_PIN_INCORRECT \<and> \<not> locked (snd (verify t p n)))"
    and verify_right: "\<not> locked t \<Longrightarrow> ready t \<Longrightarrow> matches t p n \<Longrightarrow>
      fst (verify t p n) = CKR_OK \<and> fails (snd (verify t p n)) = 0 \<and> \<not> locked (snd (verify t p n))"
    and verify_frame: "matches (snd (verify t p n)) = matches t" "limit (snd (verify t p n)) = limit t"
      "ready (snd (verify t p n)) = ready t"
begin

lemma attempts_Cons: "attempts verify (p # ps) t = attempts verify ps (snd (verify t (fst p) (snd p)))"
  by (simp add: attempts_def)

lemma attempts_frame:
  "matches (attempts verify ps t) = matches t" "limit (attempts verify ps t) = limit t"
  "ready (attempts verify ps t) = ready t"
  by (induction ps arbitrary: t) (simp_all add: attempts_def verify_frame)

lemma locked_stays: "locked t \<Longrightarrow> locked (attempts verify ps t)"
  by (induction ps arbitrary: t) (simp_all add: attempts_def verify_locked)

lemma locked_refuses_all: "locked t \<Longrightarrow> fst (verify (attempts verify ps t) p n) = CKR_PIN_LOCKED"
  using locked_stays verify_locked by blast

lemma wrong_guesses:
  assumes "ready t" "\<not> locked t" "fails t < limit t" "\<forall>p\<in>set ps. \<not> matches t (fst p) (snd p)"
  shows "locked (attempts verify ps t) \<longleftrightarrow> unat (limit t) \<le> unat (fails t) + length ps"
  using assms
proof (induction ps arbitrary: t)
  case Nil
  then show ?case by (simp add: attempts_def word_less_nat_alt)
next
  case (Cons p ps)
  let ?t = "snd (verify t (fst p) (snd p))"
  have w: "fails ?t = fails t + 1" "locked ?t \<longleftrightarrow> limit t \<le> fails t + 1"
    using verify_wrong [OF Cons.prems(2,1), of "fst p" "snd p"] Cons.prems(4) by (auto split: if_splits)
  have u: "unat (fails t + 1) = unat (fails t) + 1"
    using Cons.prems(3) by (rule unat_plus_one)
  show ?case
  proof (cases "locked ?t")
    case True
    then show ?thesis using w u locked_stays [OF True, of ps] by (simp add: attempts_Cons word_le_nat_alt)
  next
    case False
    then show ?thesis
      using Cons.IH [of ?t] Cons.prems w u
      by (simp add: attempts_Cons verify_frame word_le_nat_alt word_less_nat_alt not_le)
  qed
qed

lemma brute_force_bound:
  assumes "ready t" "\<not> locked t" "fails t < limit t" "\<forall>p\<in>set ps. \<not> matches t (fst p) (snd p)"
    and "unat (limit t) - unat (fails t) \<le> length ps"
  shows "fst (verify (attempts verify ps t) p n) = CKR_PIN_LOCKED"
  using wrong_guesses [OF assms(1-4)] assms(5) verify_locked by simp

end

lemma user_verify_simps:
  "fst (v_verify_user_pin t p n) = fst (v_verify_pin_with_lockout (v_user_pin t) (v_user_pin_len t) p n
     (v_user_pin_set t) CKR_USER_PIN_NOT_INITIALIZED (v_max_failed_attempts t)
     (v_user_failed_attempts t) (v_user_pin_locked t))"
  "snd (v_verify_user_pin t p n) = t\<lparr>v_last_pin_op_at := v_clock t,
     v_user_failed_attempts := fst (snd (v_verify_pin_with_lockout (v_user_pin t) (v_user_pin_len t) p n
       (v_user_pin_set t) CKR_USER_PIN_NOT_INITIALIZED (v_max_failed_attempts t)
       (v_user_failed_attempts t) (v_user_pin_locked t))),
     v_user_pin_locked := snd (snd (v_verify_pin_with_lockout (v_user_pin t) (v_user_pin_len t) p n
       (v_user_pin_set t) CKR_USER_PIN_NOT_INITIALIZED (v_max_failed_attempts t)
       (v_user_failed_attempts t) (v_user_pin_locked t)))\<rparr>"
  by (simp_all add: v_verify_user_pin_def v_touch_pin_op_def split: prod.splits)

lemma so_verify_simps:
  "fst (v_verify_so_pin t p n) = fst (v_verify_pin_with_lockout (v_so_pin t) (v_so_pin_len t) p n
     (v_so_pin_set t) CKR_SO_PIN_NOT_INITIALIZED (v_max_failed_attempts t)
     (v_so_failed_attempts t) (v_so_pin_locked t))"
  "snd (v_verify_so_pin t p n) = t\<lparr>v_last_pin_op_at := v_clock t,
     v_so_failed_attempts := fst (snd (v_verify_pin_with_lockout (v_so_pin t) (v_so_pin_len t) p n
       (v_so_pin_set t) CKR_SO_PIN_NOT_INITIALIZED (v_max_failed_attempts t)
       (v_so_failed_attempts t) (v_so_pin_locked t))),
     v_so_pin_locked := snd (snd (v_verify_pin_with_lockout (v_so_pin t) (v_so_pin_len t) p n
       (v_so_pin_set t) CKR_SO_PIN_NOT_INITIALIZED (v_max_failed_attempts t)
       (v_so_failed_attempts t) (v_so_pin_locked t)))\<rparr>"
  by (simp_all add: v_verify_so_pin_def v_touch_pin_op_def split: prod.splits)

interpretation user_role: pin_role v_verify_user_pin
  "\<lambda>t. v_secure_pin_equals (v_user_pin t) (v_user_pin_len t)" v_user_failed_attempts
  "\<lambda>t. v_user_pin_locked t = CK_TRUE" v_max_failed_attempts "\<lambda>t. v_user_pin_set t \<noteq> CK_FALSE"
  by unfold_locales
    (simp_all add: user_verify_simps v_verify_pin_with_lockout_def Let_def)

interpretation so_role: pin_role v_verify_so_pin
  "\<lambda>t. v_secure_pin_equals (v_so_pin t) (v_so_pin_len t)" v_so_failed_attempts
  "\<lambda>t. v_so_pin_locked t = CK_TRUE" v_max_failed_attempts "\<lambda>t. v_so_pin_set t \<noteq> CK_FALSE"
  by unfold_locales
    (simp_all add: so_verify_simps v_verify_pin_with_lockout_def Let_def)

subsection \<open>The invariant\<close>

lemma token_inv_new [simp]: "token_inv (new_TokenCore l i c)"
  by (simp add: token_inv_def new_TokenCore_def)

lemma sb_write_prefix:
  assumes "length buf < 2 ^ 64" "unat len \<le> length buf" "unat len \<le> length src"
  shows "sb_write buf 0 (Some src) len = Inr (take (unat len) src @ drop (unat len) buf)"
  using assms by (auto simp: sb_write_def sb_out_of_range_iff)

lemma sb_write_length: "sb_write buf 0 src len = Inr b \<Longrightarrow> length buf < 2 ^ 64 \<Longrightarrow>
  (case src of None \<Rightarrow> True | Some s \<Rightarrow> unat len \<le> length s) \<Longrightarrow> length b = length buf"
  by (auto simp: sb_write_def sb_out_of_range_iff split: if_splits option.splits)

lemma unat_le_256: "unat (n :: u64) \<le> 256 \<longleftrightarrow> n \<le> 256"
  by (simp add: word_le_nat_alt)

lemma readable_length: "readable p n \<Longrightarrow> (case p of None \<Rightarrow> True | Some s \<Rightarrow> unat n \<le> length s)"
  by (simp add: readable_def split: option.splits)

lemma token_inv_init_user [vhsm_inv]:
  "token_inv t \<Longrightarrow> readable p n \<Longrightarrow> token_inv (snd (v_initialize_user_pin t p n))"
  using sb_write_length [of "v_user_pin t" p n] readable_length [of p n]
  by (auto simp: v_initialize_user_pin_def v_touch_pin_op_def Let_def token_inv_def unat_le_256 word_gt_0
      not_less split: sum.splits)

lemma token_inv_init_so [vhsm_inv]:
  "token_inv t \<Longrightarrow> readable p n \<Longrightarrow> token_inv (snd (v_initialize_so_pin t p n))"
  using sb_write_length [of "v_so_pin t" p n] readable_length [of p n]
  by (auto simp: v_initialize_so_pin_def v_touch_pin_op_def Let_def token_inv_def unat_le_256 word_gt_0
      not_less split: sum.splits)

lemma token_inv_set_user [vhsm_inv]:
  "token_inv t \<Longrightarrow> readable q m \<Longrightarrow> token_inv (snd (v_set_user_pin t p n q m))"
  using sb_write_length [of "v_user_pin t" q m] readable_length [of q m]
  by (auto simp: v_set_user_pin_def v_touch_pin_op_def Let_def token_inv_def unat_le_256 word_gt_0
      not_less split: sum.splits)

lemma token_inv_set_so [vhsm_inv]:
  "token_inv t \<Longrightarrow> readable q m \<Longrightarrow> token_inv (snd (v_set_so_pin t p n q m))"
  using sb_write_length [of "v_so_pin t" q m] readable_length [of q m]
  by (auto simp: v_set_so_pin_def v_touch_pin_op_def Let_def token_inv_def unat_le_256 word_gt_0
      not_less split: sum.splits)

lemma token_inv_login [vhsm_inv]:
  "token_inv t \<Longrightarrow> token_inv (snd (v_login t ut p n))"
  by (auto simp: v_login_def user_verify_simps so_verify_simps v_verify_pin_with_lockout_def
      token_inv_def Let_def not_le word_gt_0)

lemma token_inv_set_max [vhsm_inv]: "token_inv t \<Longrightarrow> token_inv (v_set_max_failed_attempts t m)"
  by (auto simp: v_set_max_failed_attempts_def token_inv_def Let_def)


subsection \<open>Key encryption key\<close>

lemma read_attr_value:
  assumes "v_attribute_value obj t = Inr (Some v)" "length v < 2 ^ 64"
  shows "read_attr obj t = Some v"
  using assms by (simp add: read_attr_def v_get_attribute_def unat_of_nat_len64)

lemma read_attr_SomeD:
  "read_attr obj t = Some v \<Longrightarrow> v_attribute_value obj t = Inr (Some v)"
  by (auto simp: read_attr_def v_get_attribute_def split: option.splits sum.splits if_splits)

lemma kek_object_reads:
  assumes "length kek < 2 ^ 64"
  shows "read_attr (kek_object kek) CKA_LABEL = Some KEK_label"
    "read_attr (kek_object kek) CKA_VALUE = Some kek"
    "read_attr (kek_object kek) CKA_CLASS = Some (put_le64 CKO_SECRET_KEY)"
proof -
  have f: "type_m (kek_object kek) = SECRET_KEY" "sensitive_m (kek_object kek) = False"
    by (simp_all add: kek_object_def new_HsmObject_def)
  show "read_attr (kek_object kek) CKA_LABEL = Some KEK_label"
    by (rule read_attr_value)
      (simp_all add: v_attribute_value_def kek_object_def findAttribute_set_attr_vec KEK_label_def)
  show "read_attr (kek_object kek) CKA_VALUE = Some kek"
    using assms f by (intro read_attr_value)
      (simp_all add: v_attribute_value_def kek_object_def findAttribute_set_attr_vec)
  show "read_attr (kek_object kek) CKA_CLASS = Some (put_le64 CKO_SECRET_KEY)"
    using f by (intro read_attr_value) (simp_all add: v_attribute_value_def class_of_type_def le64.length_put)
qed

lemma kek_object_is_kek: "length kek < 2 ^ 64 \<Longrightarrow> is_kek (kek_object kek)"
  by (simp add: is_kek_def is_kek_label_def kek_object_reads le64.length_put le64.get_put_nil)

lemma find_object_if_some:
  assumes "store_inv st" "v_find_object_if st P = (h, Some obj)"
  shows "v_get_object st h = Some obj \<and> P obj"
proof -
  obtain i ps where ps: "filter (\<lambda>p. P (snd p) \<and> v_revalidate st p)
      (v_snapshot st [0..<length (v_table st)]) = (i, obj) # ps" "h = v_handle_at st i"
    using assms(2) by (auto simp: v_find_object_if_def split: list.splits)
  then have "(i, obj) \<in> set (filter (\<lambda>p. P (snd p) \<and> v_revalidate st p) (v_snapshot st [0..<length (v_table st)]))"
    by simp
  then show ?thesis using snapshot_get [OF assms(1)] ps(2) by auto
qed

lemma find_object_if_none:
  assumes "v_find_object_if st P = (h, None)" "v_get_object st g = Some obj"
  shows "\<not> P obj"
proof
  assume "P obj"
  obtain i where i: "i < length (v_table st)" "v_live (v_table st ! i)" "v_object (v_table st ! i) = Some obj"
    using assms(2) by (rule get_handle_at)
  then have "(i, obj) \<in> set (v_snapshot st [0..<length (v_table st)])" by (intro snapshot_mem) auto
  then have "(i, obj) \<in> set (filter (\<lambda>p. P (snd p) \<and> v_revalidate st p) (v_snapshot st [0..<length (v_table st)]))"
    using \<open>P obj\<close> by simp
  then have "filter (\<lambda>p. P (snd p) \<and> v_revalidate st p) (v_snapshot st [0..<length (v_table st)]) \<noteq> []"
    by (metis emptyE empty_set)
  then show False using assms(1) by (auto simp: v_find_object_if_def split: list.splits)
qed

text \<open>Searching with a predicate that one object satisfies finds that object.\<close>

lemma find_object_if_unique:
  assumes "store_inv st" "v_get_object st h = Some obj" "P obj"
    and "\<And>g x. v_get_object st g = Some x \<Longrightarrow> P x \<Longrightarrow> g = h"
  shows "v_find_object_if st P = (h, Some obj)"
proof (cases "v_find_object_if st P")
  case (Pair g r)
  show ?thesis
  proof (cases r)
    case None
    then show ?thesis using find_object_if_none assms(2,3) Pair by blast
  next
    case (Some x)
    then show ?thesis using find_object_if_some [OF assms(1)] assms(2,4) Pair by fastforce
  qed
qed

lemma drop_existing_kek:
  assumes "store_inv st" "kek_unique st"
  defines "st1 \<equiv> (case v_find_object_if st is_kek_label of (_, None) \<Rightarrow> st
                 | (h, Some _) \<Rightarrow> snd (v_destroy_object st h))"
  shows "store_inv st1 \<and> (\<forall>g x. v_get_object st1 g = Some x \<longrightarrow> \<not> is_kek_label x) \<and>
    length (v_table st1) = length (v_table st)"
proof (cases "v_find_object_if st is_kek_label")
  case (Pair h r)
  show ?thesis
  proof (cases r)
    case None
    then show ?thesis using find_object_if_none [of st is_kek_label h] assms(1) Pair by (auto simp: st1_def)
  next
    case (Some obj)
    have o: "v_get_object st h = Some obj" "is_kek_label obj"
      using find_object_if_some [OF assms(1)] Pair Some by blast+
    have st1: "st1 = snd (v_destroy_object st h)" using Pair Some by (simp add: st1_def)
    have "length (v_table st1) = length (v_table st)" by (simp add: st1 destroy_some [OF o(1)])
    moreover have "\<not> is_kek_label x" if "v_get_object st1 g = Some x" for g x
      using that o assms(2) unfolding st1 destroy_get [OF o(1)] kek_unique_def
      by (auto split: if_splits)
    ultimately show ?thesis using destroy_inv [OF assms(1), of h] st1 by simp
  qed
qed

lemma restore_kek:
  assumes "store_inv (v_object_store t)" "store_room (v_object_store t)" "kek_unique (v_object_store t)"
    and "length kek < 2 ^ 64"
  shows "v_get_kek (v_restore_state t b1 b2 b3 b4 b5 m1 m2 m3 b6 b7 kek) = kek"
proof -
  let ?t = "v_restore_state t b1 b2 b3 b4 b5 m1 m2 m3 b6 b7 kek"
  define st1 where "st1 = (case v_find_object_if (v_object_store t) is_kek_label of
     (_, None) \<Rightarrow> v_object_store t | (h, Some _) \<Rightarrow> snd (v_destroy_object (v_object_store t) h))"
  have st1: "store_inv st1" "\<And>g x. v_get_object st1 g = Some x \<Longrightarrow> \<not> is_kek_label x" "store_room st1"
    using drop_existing_kek [OF assms(1,3)] assms(2) by (auto simp: st1_def store_room_def)
  show ?thesis
  proof (cases "kek = []")
    case True
    then have "v_object_store ?t = st1" by (simp add: v_restore_state_def st1_def Let_def)
    moreover have "snd (v_find_object_if st1 is_kek) = None"
      using find_object_if_some [OF st1(1), of is_kek] st1(2)
      by (cases "v_find_object_if st1 is_kek"; cases "snd (v_find_object_if st1 is_kek)") (auto simp: is_kek_def split: if_splits)
    ultimately show ?thesis using True by (auto simp: v_get_kek_def split: prod.splits option.splits)
  next
    case False
    obtain h s where c: "v_create_object st1 (new_HsmObject SECRET_KEY False True False False) = (h, s)"
      by fastforce
    let ?st = "v_put_object s h (kek_object kek)"
    have o: "v_object_store ?t = ?st"
      using False c by (simp add: v_restore_state_def st1_def Let_def)
    have g: "v_get_object ?st = (v_get_object st1)(h \<mapsto> kek_object kek)" and i: "store_inv ?st"
      using objs.create_law [OF st1(1,3) c] objs.put_law [of s h "kek_object kek"] by auto
    have "v_find_object_if ?st is_kek = (h, Some (kek_object kek))"
      by (rule find_object_if_unique [OF i])
        (use g st1(2) kek_object_is_kek [OF assms(4)] in \<open>auto simp: is_kek_def split: if_splits\<close>)
    then show ?thesis using kek_object_reads(2) [OF assms(4)] by (simp add: v_get_kek_def o)
  qed
qed

subsection \<open>Properties\<close>

text \<open>
  The constant-time PIN comparison decides equality: for a stored PIN that fits its buffer and
  a candidate of any length, the accumulated difference is zero exactly when the candidate is the
  stored PIN, byte for byte and of the same length.
\<close>

lemma secure_pin_equals_exact:
  assumes "unat stored_len \<le> length stored" and "unat candidate_len \<le> length cand"
  shows "v_secure_pin_equals stored stored_len (Some cand) candidate_len \<longleftrightarrow>
    take (unat candidate_len) cand = take (unat stored_len) stored"
  by (rule pin_equals_iff [OF assms])



text \<open>
  C11. The token's PIN state is well-formed in every reachable state: buffers keep their 256 bytes,
  recorded PIN lengths fit, the object store is well-formed, and a role that is not locked is below
  its attempt limit.  Creation establishes this, and PIN initialisation, PIN change, login and a
  change of the limit keep it, whatever they return.
\<close>

theorem token_inv_preserved:
  assumes "token_inv t" and "readable pin n" and "readable new m"
  shows "token_inv (new_TokenCore l i c) \<and> token_inv (snd (initialize_user_pin t pin n)) \<and>
    token_inv (snd (initialize_so_pin t pin n)) \<and> token_inv (snd (set_user_pin t pin n new m)) \<and>
    token_inv (snd (set_so_pin t pin n new m)) \<and> token_inv (snd (login t ut pin n)) \<and>
    token_inv (v_set_max_failed_attempts t mx)"
  using assms
  by (simp add: initialize_user_pin_def initialize_so_pin_def set_user_pin_def set_so_pin_def login_def
      token_inv_init_user token_inv_init_so token_inv_set_user token_inv_set_so token_inv_login
      token_inv_set_max)

theorem token_inv_preserved_witness:
  "token_inv (snd (initialize_user_pin (new_TokenCore ''t'' ''0'' 0) (Some [0x31]) 1))"
  using token_inv_preserved [of "new_TokenCore ''t'' ''0'' 0" "Some [0x31]" 1 None 0]
  by (simp add: readable_def)

text \<open>
  A PIN change takes effect and needs the old PIN: it succeeds only when the old PIN is right,
  and afterwards login accepts exactly the new PIN and the role is unlocked.
\<close>

lemma pin_change_effective:
  assumes "token_inv t" and "set_user_pin t (Some old) (of_nat (length old)) (Some new) (of_nat (length new)) = (CKR_OK, t')"
    and "length old < 2 ^ 64" and "length new < 2 ^ 64" and "length cand < 2 ^ 64"
  shows "old = take (unat (v_user_pin_len t)) (v_user_pin t) \<and>
    (fst (login t' CKU_USER (Some cand) (of_nat (length cand))) = CKR_OK \<longleftrightarrow> cand = new)"
proof -
  have b: "length (v_user_pin t) = 256" "unat (v_user_pin_len t) \<le> 256"
    using assms(1) by (simp_all add: token_inv_def unat_le_256)
  have st: "v_user_pin_set t \<noteq> CK_FALSE" and eq: "v_secure_pin_equals (v_user_pin t) (v_user_pin_len t) (Some old) (of_nat (length old))"
    and n: "length new \<le> 256"
    using assms(2,4) b(1)
    by (auto simp: set_user_pin_def v_set_user_pin_def v_touch_pin_op_def Let_def unat_of_nat_len64 split: if_splits)
  have t': "v_user_pin t' = new @ drop (length new) (v_user_pin t)" "v_user_pin_len t' = of_nat (length new)"
    "v_user_pin_set t' = v_user_pin_set t" "v_user_pin_locked t' = CK_FALSE"
    using assms(2,4) b(1) n st eq
    by (auto simp: set_user_pin_def v_set_user_pin_def v_touch_pin_op_def Let_def unat_of_nat_len64
        sb_write_prefix split: if_splits)
  have "v_secure_pin_equals (v_user_pin t') (v_user_pin_len t') (Some cand) (of_nat (length cand)) \<longleftrightarrow> cand = new"
    using assms(4,5) n b(1) t' by (subst pin_equals_iff) (auto simp: unat_of_nat_len64)
  then have "fst (login t' CKU_USER (Some cand) (of_nat (length cand))) = CKR_OK \<longleftrightarrow> cand = new"
    using t' st by (auto simp: login_def v_login_def user_verify_simps v_verify_pin_with_lockout_def Let_def)
  moreover have "old = take (unat (v_user_pin_len t)) (v_user_pin t)"
    using eq b assms(3) by (subst (asm) pin_equals_iff) (auto simp: unat_of_nat_len64)
  ultimately show ?thesis by blast
qed

text \<open>
  PIN change is outside the lockout: on a locked token a wrong old PIN is answered with
  CKR\_PIN\_INCORRECT and changes nothing but the timestamp, so guesses through it are neither counted
  nor refused, and the right old PIN unlocks the role.
\<close>

lemma set_pin_bypasses_lockout:
  assumes "v_user_pin_set t = CK_TRUE" and "v_user_pin_locked t = CK_TRUE"
  shows "(\<not> v_secure_pin_equals (v_user_pin t) (v_user_pin_len t) old n \<longrightarrow>
      v_set_user_pin t old n new m = (CKR_PIN_INCORRECT, t\<lparr>v_last_pin_op_at := v_clock t\<rparr>)) \<and>
    (v_secure_pin_equals (v_user_pin t) (v_user_pin_len t) old n \<and> m = 0 \<longrightarrow>
      fst (v_set_user_pin t old n new m) = CKR_OK \<and>
      v_user_pin_locked (snd (v_set_user_pin t old n new m)) = CK_FALSE)"
  using assms by (simp add: v_set_user_pin_def v_touch_pin_op_def Let_def sb_write_def)

text \<open>
  Restoring a snapshot installs its key encryption key: if the token holds at most one object
  labelled KEK and has room, then after \<open>v_restore_state\<close> the token's \<open>v_get_kek\<close> is the restored
  key, whatever key was there before.
\<close>

lemma restore_installs_kek:
  assumes "store_inv (v_object_store t)" and "store_room (v_object_store t)"
    and "kek_unique (v_object_store t)" and "length kek < 2 ^ 64"
  shows "v_get_kek (v_restore_state t b1 b2 b3 b4 b5 m1 m2 m3 b6 b7 kek) = kek"
  by (rule restore_kek [OF assms])

text \<open>
  A restore brings back the flag that the user PIN is set but not the PIN: on a freshly
  constructed token restored with that flag, the empty PIN logs in and every other PIN is refused.
\<close>

lemma restore_forgets_pin:
  assumes "length pin < 2 ^ 64" and "1 < mx"
  shows "fst (login (v_restore_state (new_TokenCore l i c) b1 CK_TRUE b3 b4 b5 mx 0 m3 CK_FALSE b7 kek)
      CKU_USER (Some pin) (of_nat (length pin))) = (if pin = [] then CKR_OK else CKR_PIN_INCORRECT)"
proof -
  let ?t = "v_restore_state (new_TokenCore l i c) b1 CK_TRUE b3 b4 b5 mx 0 m3 CK_FALSE b7 kek"
  have "v_user_pin ?t = replicate 256 0" "v_user_pin_len ?t = 0" "v_user_pin_set ?t = CK_TRUE"
    "v_user_pin_locked ?t = CK_FALSE" "v_max_failed_attempts ?t = mx" "v_user_failed_attempts ?t = 0"
    by (simp_all add: v_restore_state_def new_TokenCore_def Let_def)
  moreover have "v_secure_pin_equals (replicate 256 0) 0 (Some pin) (of_nat (length pin)) \<longleftrightarrow> pin = []"
    using assms by (subst pin_equals_iff) (auto simp: unat_of_nat_len64)
  moreover have "\<not> mx \<le> 1" using assms(2) by (simp add: not_le)
  ultimately show ?thesis
    by (simp add: login_def v_login_def user_verify_simps v_verify_pin_with_lockout_def Let_def)
qed

end
