(* ===== verification/Session.thy ===== *)
theory Session
  imports Token
begin

text \<open>
  Sessions and their registries: session/session.cpp, session/login\_throttle.cpp,
  session/find\_context.cpp, session/sign\_context.cpp, session/internal/session\_manager\_core.cpp,
  session/internal/slot\_manager\_core.cpp with their facades, and keystore/slot.cpp.  A session is a
  record of its data members; the callback pointers of the application are kept as opaque numbers.
  Timestamps of the managers (used only by an accessor) are not part of the state.  The list of
  sessions is in opening order; the slot table is an association list with distinct identifiers.
\<close>

record Session =
  handle_m :: CK_SESSION_HANDLE
  slotID_m :: CK_SLOT_ID
  flags_m :: CK_FLAGS
  state_m :: CK_STATE
  userType_m :: CK_USER_TYPE
  objectStore_m :: ObjectStore
  operationInitialized_m :: bool
  currentOperationMechanism_m :: CK_MECHANISM_TYPE
  activeMech_m :: CK_MECHANISM_TYPE
  signKey_m :: CK_OBJECT_HANDLE
  opBuf_m :: bytes
  gcmIv_m :: bytes
  gcmAad_m :: bytes
  oaepMgf1_m :: string
  oaepLabel_m :: bytes
  findHandles_m :: "CK_OBJECT_HANDLE list"
  findPos_m :: nat
  findActive_m :: bool
  pApplication_m :: u64
  notify_m :: u64

definition is_rw :: "CK_FLAGS \<Rightarrow> bool" where
  "is_rw flags = (flags AND CKF_RW_SESSION \<noteq> 0)"

definition new_Session ::
  "CK_SESSION_HANDLE \<Rightarrow> CK_SLOT_ID \<Rightarrow> CK_FLAGS \<Rightarrow> u64 \<Rightarrow> u64 \<Rightarrow> Session" where
  "new_Session handle slotID flags pApplication notify =
     \<lparr>handle_m = handle, slotID_m = slotID, flags_m = flags,
      state_m = (if is_rw flags then CKS_RW_PUBLIC_SESSION else CKS_RO_PUBLIC_SESSION),
      userType_m = CKU_INVALID, objectStore_m = new_ObjectStore, operationInitialized_m = False,
      currentOperationMechanism_m = 0, activeMech_m = 0, signKey_m = 0, opBuf_m = [], gcmIv_m = [],
      gcmAad_m = [], oaepMgf1_m = [], oaepLabel_m = [], findHandles_m = [], findPos_m = 0,
      findActive_m = False, pApplication_m = pApplication, notify_m = notify\<rparr>"

subsection \<open>Login state\<close>

definition is_logged_in_state :: "CK_STATE \<Rightarrow> bool" where
  "is_logged_in_state st = (st = CKS_RW_USER_FUNCTIONS \<or> st = CKS_RW_SO_FUNCTIONS \<or>
     st = CKS_RO_USER_FUNCTIONS \<or> st = CKS_RO_SO_FUNCTIONS)"

definition session_login :: "Session \<Rightarrow> CK_USER_TYPE \<Rightarrow> CK_RV \<times> Session" where
  "session_login s userType =
     (if is_logged_in_state (state_m s) then (CKR_USER_ALREADY_LOGGED_IN, s)
      else if userType \<noteq> CKU_USER \<and> userType \<noteq> CKU_SO then (CKR_USER_TYPE_INVALID, s)
      else (CKR_OK, s\<lparr>userType_m := userType,
        state_m := (if userType = CKU_SO
          then (if is_rw (flags_m s) then CKS_RW_SO_FUNCTIONS else CKS_RO_SO_FUNCTIONS)
          else (if is_rw (flags_m s) then CKS_RW_USER_FUNCTIONS else CKS_RO_USER_FUNCTIONS))\<rparr>))"

definition session_logout :: "Session \<Rightarrow> CK_RV \<times> Session" where
  "session_logout s =
     (if state_m s = CKS_RO_PUBLIC_SESSION \<or> state_m s = CKS_RW_PUBLIC_SESSION
      then (CKR_USER_NOT_LOGGED_IN, s)
      else (let s1 = s\<lparr>userType_m := CKU_INVALID,
                 state_m := (if is_rw (flags_m s) then CKS_RW_PUBLIC_SESSION else CKS_RO_PUBLIC_SESSION)\<rparr>;
                s2 = (if operationInitialized_m s1
                      then s1\<lparr>operationInitialized_m := False, currentOperationMechanism_m := 0\<rparr> else s1) in
            (CKR_OK, s2\<lparr>activeMech_m := 0, signKey_m := 0, opBuf_m := [], gcmIv_m := [], gcmAad_m := [],
                        oaepMgf1_m := [], oaepLabel_m := [], findHandles_m := [], findPos_m := 0\<rparr>)))"

subsection \<open>Operations\<close>

definition initializeOperation :: "Session \<Rightarrow> CK_MECHANISM_TYPE \<Rightarrow> CK_RV \<times> Session" where
  "initializeOperation s mechanism =
     (if \<not> is_logged_in_state (state_m s) then (CKR_USER_NOT_LOGGED_IN, s)
      else if operationInitialized_m s then (CKR_OPERATION_ACTIVE, s)
      else (CKR_OK, s\<lparr>operationInitialized_m := True, currentOperationMechanism_m := mechanism\<rparr>))"

definition finalizeOperation :: "Session \<Rightarrow> CK_RV \<times> Session" where
  "finalizeOperation s =
     (if \<not> operationInitialized_m s then (CKR_OPERATION_NOT_INITIALIZED, s)
      else (CKR_OK, s\<lparr>operationInitialized_m := False, currentOperationMechanism_m := 0,
                      activeMech_m := 0, signKey_m := 0, opBuf_m := [], gcmIv_m := [],
                      gcmAad_m := [], oaepMgf1_m := [], oaepLabel_m := []\<rparr>))"

definition opBegin :: "Session \<Rightarrow> CK_MECHANISM_TYPE \<Rightarrow> CK_OBJECT_HANDLE \<Rightarrow> CK_RV \<times> Session" where
  "opBegin s mech key =
     (if operationInitialized_m s \<and> activeMech_m s \<noteq> 0 then (CKR_OPERATION_ACTIVE, s)
      else (CKR_OK, s\<lparr>activeMech_m := mech, signKey_m := key, opBuf_m := []\<rparr>))"

definition opCheck :: "Session \<Rightarrow> CK_RV" where
  "opCheck s = (if activeMech_m s = 0 then CKR_OPERATION_NOT_INITIALIZED else CKR_OK)"

definition opEnd :: "Session \<Rightarrow> Session" where
  "opEnd s = s\<lparr>activeMech_m := 0, signKey_m := 0, opBuf_m := [], gcmIv_m := [], gcmAad_m := [],
               oaepMgf1_m := [], oaepLabel_m := []\<rparr>"

definition opUpdate :: "Session \<Rightarrow> bytes option \<Rightarrow> u64 \<Rightarrow> Session" where
  "opUpdate s data len =
     (if data = None \<or> len = 0 then s else s\<lparr>opBuf_m := opBuf_m s @ read_mem data len\<rparr>)"

definition opTakeBuffer :: "Session \<Rightarrow> bytes \<times> Session" where
  "opTakeBuffer s = (opBuf_m s, s\<lparr>opBuf_m := []\<rparr>)"

definition opClear :: "Session \<Rightarrow> Session" where
  "opClear s = s\<lparr>opBuf_m := []\<rparr>"

definition setGcmParams :: "Session \<Rightarrow> bytes \<Rightarrow> bytes \<Rightarrow> Session" where
  "setGcmParams s iv aad = s\<lparr>gcmIv_m := iv, gcmAad_m := aad\<rparr>"

definition setOaepParams :: "Session \<Rightarrow> string \<Rightarrow> bytes \<Rightarrow> Session" where
  "setOaepParams s mgf1 label = s\<lparr>oaepMgf1_m := mgf1, oaepLabel_m := label\<rparr>"

subsection \<open>Find results\<close>

definition setFindResults :: "Session \<Rightarrow> CK_OBJECT_HANDLE list \<Rightarrow> Session" where
  "setFindResults s handles = s\<lparr>findHandles_m := handles, findPos_m := 0, findActive_m := True\<rparr>"

definition hasFindResults :: "Session \<Rightarrow> bool" where
  "hasFindResults s = (findPos_m s < length (findHandles_m s))"

text \<open>The loop of \<open>findNextBatch\<close>: the position and the handles written out.\<close>

function find_batch_loop :: "CK_OBJECT_HANDLE list \<Rightarrow> nat \<Rightarrow> nat \<Rightarrow> CK_OBJECT_HANDLE list \<Rightarrow> nat \<times> CK_OBJECT_HANDLE list" where
  "find_batch_loop hs pos maxCount out =
     (if pos < length hs \<and> length out < maxCount
      then find_batch_loop hs (pos + 1) maxCount (out @ [hs ! pos])
      else (pos, out))"
  by pat_completeness auto

termination by (relation "measure (\<lambda>(hs, pos, _). length hs - pos)") auto

definition findNextBatch :: "Session \<Rightarrow> u64 \<Rightarrow> CK_OBJECT_HANDLE list \<times> Session" where
  "findNextBatch s maxCount =
     (let (pos, out) = find_batch_loop (findHandles_m s) (findPos_m s) (unat maxCount) [] in
      (out, s\<lparr>findPos_m := pos\<rparr>))"

definition clearFindResults :: "Session \<Rightarrow> Session" where
  "clearFindResults s = s\<lparr>findHandles_m := [], findPos_m := 0, findActive_m := False\<rparr>"

definition getSessionInfo :: "Session \<Rightarrow> CK_SLOT_ID \<times> CK_STATE \<times> CK_FLAGS \<times> CK_ULONG" where
  "getSessionInfo s = (slotID_m s, state_m s, flags_m s, 0)"

subsection \<open>Stand-alone contexts\<close>

record FindContext =
  m_matches :: "CK_OBJECT_HANDLE list"
  m_current_index :: nat

definition has_next :: "FindContext \<Rightarrow> bool" where
  "has_next c = (m_current_index c < length (m_matches c))"

definition find_next :: "FindContext \<Rightarrow> cpp_exn + CK_OBJECT_HANDLE \<times> FindContext" where
  "find_next c =
     (if \<not> has_next c then Inl out_of_range
      else Inr (m_matches c ! m_current_index c, c\<lparr>m_current_index := m_current_index c + 1\<rparr>))"

definition find_reset :: "FindContext \<Rightarrow> FindContext" where
  "find_reset c = c\<lparr>m_current_index := 0\<rparr>"

record SignContext =
  m_mechanism :: CK_MECHANISM_TYPE
  m_key_handle :: CK_OBJECT_HANDLE
  m_accumulator :: bytes

definition new_SignContext :: "CK_MECHANISM_TYPE \<Rightarrow> CK_OBJECT_HANDLE \<Rightarrow> cpp_exn + SignContext" where
  "new_SignContext mech key =
     (if key = CKR_OBJECT_HANDLE_INVALID then Inl invalid_argument
      else Inr \<lparr>m_mechanism = mech, m_key_handle = key, m_accumulator = []\<rparr>)"

definition sign_update :: "SignContext \<Rightarrow> bytes option \<Rightarrow> u64 \<Rightarrow> cpp_exn + SignContext" where
  "sign_update c data len =
     (if data = None \<and> 0 < len then Inl invalid_argument
      else if 0 < len then Inr (c\<lparr>m_accumulator := m_accumulator c @ read_mem data len\<rparr>)
      else Inr c)"

definition sign_clear :: "SignContext \<Rightarrow> SignContext" where
  "sign_clear c = c\<lparr>m_accumulator := []\<rparr>"

subsection \<open>Login throttle\<close>

record Policy =
  soft_threshold :: u32
  base_delay_ms :: u32
  max_delay_ms :: u32

record LoginThrottle =
  policy_m :: Policy
  attempts_m :: "string \<rightharpoonup> u32"

definition default_Policy :: Policy where
  "default_Policy = \<lparr>soft_threshold = 3, base_delay_ms = 250, max_delay_ms = 8000\<rparr>"

definition new_LoginThrottle :: LoginThrottle where
  "new_LoginThrottle = \<lparr>policy_m = default_Policy, attempts_m = Map.empty\<rparr>"

definition delay_before_attempt :: "LoginThrottle \<Rightarrow> string \<Rightarrow> u32" where
  "delay_before_attempt th key = (case attempts_m th key of
     None \<Rightarrow> 0
   | Some consecutive_failures \<Rightarrow>
       if consecutive_failures < soft_threshold (policy_m th) then 0
       else let e = consecutive_failures - soft_threshold (policy_m th);
                delay = push_bit (unat (min e 16)) (base_delay_ms (policy_m th)) in
         min delay (max_delay_ms (policy_m th)))"

definition record_success :: "LoginThrottle \<Rightarrow> string \<Rightarrow> LoginThrottle" where
  "record_success th key = th\<lparr>attempts_m := (attempts_m th)(key := None)\<rparr>"

definition record_failure :: "LoginThrottle \<Rightarrow> string \<Rightarrow> LoginThrottle" where
  "record_failure th key =
     th\<lparr>attempts_m := (attempts_m th)(key \<mapsto> (case attempts_m th key of None \<Rightarrow> 0 | Some n \<Rightarrow> n) + 1)\<rparr>"

definition failures :: "LoginThrottle \<Rightarrow> string \<Rightarrow> u32" where
  "failures th key = (case attempts_m th key of None \<Rightarrow> 0 | Some n \<Rightarrow> n)"

subsection \<open>Session registry\<close>

record SessionManager =
  v_sessions :: "Session list"
  v_next_session_id :: CK_SESSION_HANDLE

definition new_SessionManager :: SessionManager where
  "new_SessionManager = \<lparr>v_sessions = [], v_next_session_id = 1\<rparr>"

definition v_open_session ::
  "SessionManager \<Rightarrow> CK_SLOT_ID \<Rightarrow> CK_FLAGS \<Rightarrow> u64 \<Rightarrow> u64 \<Rightarrow> CK_RV \<times> CK_SESSION_HANDLE \<times> SessionManager" where
  "v_open_session m slotID flags pApplication notify =
     (let h0 = v_next_session_id m; n0 = h0 + 1;
          (h, n) = (if h0 = 0 then (n0, n0 + 1) else (h0, n0)) in
      (CKR_OK, h, m\<lparr>v_sessions := v_sessions m @ [new_Session h slotID flags pApplication notify],
                    v_next_session_id := n\<rparr>))"

definition v_close_session :: "SessionManager \<Rightarrow> CK_SESSION_HANDLE \<Rightarrow> CK_RV \<times> SessionManager" where
  "v_close_session m h =
     (if \<exists>s\<in>set (v_sessions m). handle_m s = h
      then (CKR_OK, m\<lparr>v_sessions := takeWhile (\<lambda>s. handle_m s \<noteq> h) (v_sessions m) @
                                  tl (dropWhile (\<lambda>s. handle_m s \<noteq> h) (v_sessions m))\<rparr>)
      else (CKR_SESSION_HANDLE_INVALID, m))"

definition v_close_all_sessions :: "SessionManager \<Rightarrow> CK_SLOT_ID \<Rightarrow> CK_RV \<times> SessionManager" where
  "v_close_all_sessions m slotID =
     (CKR_OK, m\<lparr>v_sessions := filter (\<lambda>s. slotID_m s \<noteq> slotID) (v_sessions m)\<rparr>)"

definition v_get_session :: "SessionManager \<Rightarrow> CK_SESSION_HANDLE \<Rightarrow> Session option" where
  "v_get_session m h = find (\<lambda>s. handle_m s = h) (v_sessions m)"

definition v_have_session :: "SessionManager \<Rightarrow> CK_SLOT_ID \<Rightarrow> bool" where
  "v_have_session m slotID = list_ex (\<lambda>s. slotID_m s = slotID) (v_sessions m)"

definition v_have_ro_session :: "SessionManager \<Rightarrow> CK_SLOT_ID \<Rightarrow> bool" where
  "v_have_ro_session m slotID =
     list_ex (\<lambda>s. slotID_m s = slotID \<and> \<not> is_rw (flags_m s)) (v_sessions m)"

text \<open>A write through the pointer returned by \<open>v_get_session\<close>.\<close>

definition v_put_session :: "SessionManager \<Rightarrow> CK_SESSION_HANDLE \<Rightarrow> Session \<Rightarrow> SessionManager" where
  "v_put_session m h s' =
     m\<lparr>v_sessions := map (\<lambda>s. if handle_m s = h then s' else s) (v_sessions m)\<rparr>"

definition openSession ::
  "SessionManager \<Rightarrow> CK_SLOT_ID \<Rightarrow> CK_FLAGS \<Rightarrow> u64 \<Rightarrow> u64 \<Rightarrow> bool \<Rightarrow> CK_RV \<times> CK_SESSION_HANDLE option \<times> SessionManager" where
  "openSession m slotID flags pApplication notify has_phSession =
     (if \<not> has_phSession then (CKR_ARGUMENTS_BAD, None, m)
      else if flags AND NOT (CKF_RW_SESSION OR CKF_SERIAL_SESSION) \<noteq> 0 then (CKR_ARGUMENTS_BAD, None, m)
      else let (rv, h, m') = v_open_session m slotID flags pApplication notify in (rv, Some h, m'))"

subsection \<open>Slots\<close>

record Slot =
  slot_id_m :: u64
  token_slot_m :: "TokenCore option"
  description_m :: string
  manufacturer_id_m :: string
  hardware_version_m :: "u8 \<times> u8"
  firmware_version_m :: "u8 \<times> u8"

type_synonym SlotManager = "(u64 \<times> Slot) list"

definition new_Slot :: "u64 \<Rightarrow> Slot" where
  "new_Slot slot_id = \<lparr>slot_id_m = slot_id, token_slot_m = None,
     description_m = ''Virtual HSM Slot '' @ to_string (unat slot_id),
     manufacturer_id_m = ''vHSM Team Corp'', hardware_version_m = (1, 0), firmware_version_m = (1, 0)\<rparr>"

definition is_token_present :: "Slot \<Rightarrow> bool" where
  "is_token_present sl = (token_slot_m sl \<noteq> None)"

definition insert_token :: "Slot \<Rightarrow> TokenCore \<Rightarrow> Slot" where
  "insert_token sl t = sl\<lparr>token_slot_m := Some t\<rparr>"

definition remove_token :: "Slot \<Rightarrow> Slot" where
  "remove_token sl = sl\<lparr>token_slot_m := None\<rparr>"

definition slot_get_flags :: "Slot \<Rightarrow> u64" where
  "slot_get_flags sl =
     CKF_REMOVABLE_DEVICE OR CKF_HW_SLOT OR (if is_token_present sl then CKF_TOKEN_PRESENT else 0)"

definition define_firmware_version :: "Slot \<Rightarrow> u8 \<times> u8 \<Rightarrow> cpp_exn + Slot" where
  "define_firmware_version sl fv =
     (if fst fv \<le> fst (firmware_version_m sl) \<and>
         (fst fv \<noteq> fst (firmware_version_m sl) \<or> snd fv \<le> snd (firmware_version_m sl))
      then Inl runtime_error else Inr (sl\<lparr>firmware_version_m := fv\<rparr>))"

definition v_register_slot :: "SlotManager \<Rightarrow> u64 \<Rightarrow> bool \<times> SlotManager" where
  "v_register_slot m slot_id =
     (if map_of m slot_id \<noteq> None then (False, m) else (True, m @ [(slot_id, new_Slot slot_id)]))"

definition v_get_slot :: "SlotManager \<Rightarrow> u64 \<Rightarrow> Slot option" where
  "v_get_slot m slot_id = map_of m slot_id"

definition v_get_slot_id_list :: "SlotManager \<Rightarrow> u64 list" where
  "v_get_slot_id_list m = map fst m"

definition v_reset :: "SlotManager \<Rightarrow> SlotManager" where
  "v_reset m = []"

definition v_put_slot :: "SlotManager \<Rightarrow> u64 \<Rightarrow> Slot \<Rightarrow> SlotManager" where
  "v_put_slot m slot_id sl = map (\<lambda>(i, x). (i, if i = slot_id then sl else x)) m"

subsection \<open>Specification notions\<close>

text \<open>The state a session with these flags and this user type is in.\<close>

definition session_state_of :: "CK_FLAGS \<Rightarrow> CK_USER_TYPE \<Rightarrow> CK_STATE" where
  "session_state_of flags ut =
     (if ut = CKU_USER then (if is_rw flags then CKS_RW_USER_FUNCTIONS else CKS_RO_USER_FUNCTIONS)
      else if ut = CKU_SO then (if is_rw flags then CKS_RW_SO_FUNCTIONS else CKS_RO_SO_FUNCTIONS)
      else (if is_rw flags then CKS_RW_PUBLIC_SESSION else CKS_RO_PUBLIC_SESSION))"

definition session_inv :: "Session \<Rightarrow> bool" where
  "session_inv s = (state_m s = session_state_of (flags_m s) (userType_m s) \<and>
     (userType_m s = CKU_INVALID \<or> userType_m s = CKU_USER \<or> userType_m s = CKU_SO) \<and>
     findPos_m s \<le> length (findHandles_m s) \<and> store_inv (objectStore_m s))"

text \<open>The states a session can reach through its member functions.\<close>

inductive session_reachable :: "Session \<Rightarrow> bool" where
  new: "session_reachable (new_Session h sl fl app ntf)"
| login: "session_reachable s \<Longrightarrow> session_reachable (snd (session_login s ut))"
| logout: "session_reachable s \<Longrightarrow> session_reachable (snd (session_logout s))"
| initialize: "session_reachable s \<Longrightarrow> session_reachable (snd (initializeOperation s mech))"
| finalize: "session_reachable s \<Longrightarrow> session_reachable (snd (finalizeOperation s))"
| op_begin: "session_reachable s \<Longrightarrow> session_reachable (snd (opBegin s mech key))"
| op_end: "session_reachable s \<Longrightarrow> session_reachable (opEnd s)"
| op_update: "session_reachable s \<Longrightarrow> session_reachable (opUpdate s data len)"
| op_take: "session_reachable s \<Longrightarrow> session_reachable (snd (opTakeBuffer s))"
| op_clear: "session_reachable s \<Longrightarrow> session_reachable (opClear s)"
| gcm: "session_reachable s \<Longrightarrow> session_reachable (setGcmParams s iv aad)"
| oaep: "session_reachable s \<Longrightarrow> session_reachable (setOaepParams s mgf label)"
| find_set: "session_reachable s \<Longrightarrow> session_reachable (setFindResults s hs)"
| find_next: "session_reachable s \<Longrightarrow> session_reachable (snd (findNextBatch s mx))"
| find_clear: "session_reachable s \<Longrightarrow> session_reachable (clearFindResults s)"
| store: "session_reachable s \<Longrightarrow> session_reachable (s\<lparr>objectStore_m := store_step op (objectStore_m s)\<rparr>)"
    if "\<And>obj. op = Create obj \<Longrightarrow> store_room (objectStore_m s)"

text \<open>A client that fetches batches of the given sizes one after the other.\<close>

primrec find_batches :: "u64 list \<Rightarrow> Session \<Rightarrow> CK_OBJECT_HANDLE list \<times> Session" where
  "find_batches [] s = ([], s)"
| "find_batches (n # ns) s =
     (let (b, s1) = findNextBatch s n; (bs, s2) = find_batches ns s1 in (b @ bs, s2))"

definition registry_inv :: "SessionManager \<Rightarrow> bool" where
  "registry_inv m = (distinct (map handle_m (v_sessions m)) \<and>
     (\<forall>s\<in>set (v_sessions m). handle_m s \<noteq> 0 \<and> handle_m s < v_next_session_id m))"

text \<open>Requests to the registry; \<open>UpdateS\<close> is any change of a session through its pointer.\<close>

datatype registry_op = OpenS CK_SLOT_ID CK_FLAGS u64 u64 | CloseS CK_SESSION_HANDLE | CloseAllS CK_SLOT_ID
  | UpdateS CK_SESSION_HANDLE "Session \<Rightarrow> Session"

definition registry_step :: "registry_op \<Rightarrow> SessionManager \<Rightarrow> SessionManager" where
  "registry_step op m = (case op of
     OpenS sl fl a n \<Rightarrow> snd (snd (v_open_session m sl fl a n))
   | CloseS h \<Rightarrow> snd (v_close_session m h)
   | CloseAllS sl \<Rightarrow> snd (v_close_all_sessions m sl)
   | UpdateS h f \<Rightarrow> (case v_get_session m h of None \<Rightarrow> m
       | Some s \<Rightarrow> v_put_session m h ((f s)\<lparr>handle_m := h\<rparr>)))"

definition registry_run :: "registry_op list \<Rightarrow> SessionManager \<Rightarrow> SessionManager" where
  "registry_run ops m = fold registry_step ops m"

definition opens :: "registry_op list \<Rightarrow> nat" where
  "opens ops = length (filter (\<lambda>op. case op of OpenS _ _ _ _ \<Rightarrow> True | _ \<Rightarrow> False) ops)"

declare find_batch_loop.simps [simp del]

subsection \<open>Find batches\<close>

lemma find_batch_loop_eq:
  assumes "pos \<le> length hs" "length out \<le> mx"
  shows "find_batch_loop hs pos mx out =
    (let k = min (mx - length out) (length hs - pos) in (pos + k, out @ take k (drop pos hs)))"
  using assms
proof (induction hs pos mx out rule: find_batch_loop.induct)
  case (1 hs pos mx out)
  show ?case
  proof (cases "pos < length hs \<and> length out < mx")
    case True
    then have "find_batch_loop hs pos mx out = find_batch_loop hs (pos + 1) mx (out @ [hs ! pos])"
      by (simp add: find_batch_loop.simps [of hs pos])
    also have "\<dots> = (let k = min (mx - Suc (length out)) (length hs - Suc pos) in
        (Suc pos + k, (out @ [hs ! pos]) @ take k (drop (Suc pos) hs)))"
      using 1 True by simp
    also have "\<dots> = (let k = min (mx - length out) (length hs - pos) in (pos + k, out @ take k (drop pos hs)))"
    proof -
      have "min (mx - length out) (length hs - pos) = Suc (min (mx - Suc (length out)) (length hs - Suc pos))"
        using True by arith
      then show ?thesis using True by (simp add: Let_def Cons_nth_drop_Suc [symmetric])
    qed
    finally show ?thesis .
  next
    case False
    then show ?thesis using 1 by (auto simp: find_batch_loop.simps [of hs pos] Let_def)
  qed
qed

lemma findNextBatch_eq:
  assumes "findPos_m s \<le> length (findHandles_m s)"
  shows "findNextBatch s n =
    (let k = min (unat n) (length (findHandles_m s) - findPos_m s) in
     (take k (drop (findPos_m s) (findHandles_m s)), s\<lparr>findPos_m := findPos_m s + k\<rparr>))"
  using find_batch_loop_eq [OF assms, of "[]" "unat n"]
  by (simp add: findNextBatch_def Let_def)

lemma find_batches_eq:
  "findPos_m s \<le> length (findHandles_m s) \<Longrightarrow>
   fst (find_batches ns s) = take (sum_list (map unat ns)) (drop (findPos_m s) (findHandles_m s))"
proof (induction ns arbitrary: s)
  case (Cons n ns)
  let ?k = "min (unat n) (length (findHandles_m s) - findPos_m s)"
  let ?d = "drop (findPos_m s) (findHandles_m s)"
  have e: "findNextBatch s n = (take ?k ?d, s\<lparr>findPos_m := findPos_m s + ?k\<rparr>)"
    using findNextBatch_eq [OF Cons.prems] by (simp add: Let_def)
  have i: "fst (find_batches ns (s\<lparr>findPos_m := findPos_m s + ?k\<rparr>)) = take (sum_list (map unat ns)) (drop ?k ?d)"
    using Cons.IH [of "s\<lparr>findPos_m := findPos_m s + ?k\<rparr>"] Cons.prems by (simp add: add.commute)
  have c: "fst (find_batches (n # ns) s) =
      take ?k ?d @ fst (find_batches ns (s\<lparr>findPos_m := findPos_m s + ?k\<rparr>))"
    by (simp add: e split_def Let_def)
  have "take (unat n) ?d = take ?k ?d" "drop (unat n) ?d = drop ?k ?d" by (simp_all add: min_def)
  then show ?case unfolding c i by (simp add: take_add del: drop_drop)
qed simp

subsection \<open>The state machine\<close>

lemma session_inv_reachable: "session_reachable s \<Longrightarrow> session_inv s"
proof (induction rule: session_reachable.induct)
  case (find_next s mx)
  then have "findPos_m s \<le> length (findHandles_m s)" by (simp add: session_inv_def)
  from findNextBatch_eq [OF this, of mx] show ?case
    using find_next by (auto simp: session_inv_def Let_def)
next
  case (store op s)
  have "store_inv (store_step op (objectStore_m s))"
    using store by (cases op; cases "v_create_object (objectStore_m s) (case op of Create x \<Rightarrow> x)")
      (auto simp: session_inv_def destroy_inv put_inv intro: create_inv)
  then show ?case using store by (simp add: session_inv_def)
qed (auto simp: session_inv_def session_state_of_def new_Session_def session_login_def session_logout_def
    initializeOperation_def finalizeOperation_def opBegin_def opEnd_def opUpdate_def opTakeBuffer_def
    opClear_def setGcmParams_def setOaepParams_def setFindResults_def clearFindResults_def Let_def)

lemma logged_in_iff: "session_inv s \<Longrightarrow> is_logged_in_state (state_m s) \<longleftrightarrow> userType_m s \<noteq> CKU_INVALID"
  by (auto simp: session_inv_def session_state_of_def is_logged_in_state_def)


subsection \<open>The throttle\<close>

lemma throttle_shift:
  assumes "k \<le> 16"
  shows "unat (push_bit k (250 :: u32)) = 250 * 2 ^ k"
proof -
  have "(2::nat) ^ k \<le> 2 ^ 16" using assms by (intro power_increasing) simp_all
  then have "250 * 2 ^ k < (2::nat) ^ 32" by simp
  then have "take_bit 32 (250 * 2 ^ k :: nat) = 250 * 2 ^ k" by (simp add: take_bit_nat_eq_self)
  moreover have "unat (push_bit k (250 :: u32)) = take_bit 32 (push_bit k 250)"
    by (simp add: unsigned_push_bit_eq)
  ultimately show ?thesis by (simp add: push_bit_eq_mult)
qed

subsection \<open>The session registry\<close>

lemma get_session_Some: "v_get_session m h = Some s \<Longrightarrow> s \<in> set (v_sessions m) \<and> handle_m s = h"
  by (auto simp: v_get_session_def find_Some_iff)

lemma get_session_None: "v_get_session m h = None \<longleftrightarrow> h \<notin> handle_m ` set (v_sessions m)"
  by (auto simp: v_get_session_def find_None_iff)

lemma get_session_mem:
  "registry_inv m \<Longrightarrow> s \<in> set (v_sessions m) \<Longrightarrow> v_get_session m (handle_m s) = Some s"
  by (cases "v_get_session m (handle_m s)")
    (auto simp: get_session_None registry_inv_def distinct_map inj_on_def dest: get_session_Some)

lemma get_session_iff:
  "registry_inv m \<Longrightarrow> v_get_session m h = Some s \<longleftrightarrow> s \<in> set (v_sessions m) \<and> handle_m s = h"
  using get_session_Some get_session_mem by blast

lemma open_session_eq:
  assumes "0 < v_next_session_id m"
  shows "v_open_session m sl fl a n = (CKR_OK, v_next_session_id m,
    m\<lparr>v_sessions := v_sessions m @ [new_Session (v_next_session_id m) sl fl a n],
      v_next_session_id := v_next_session_id m + 1\<rparr>)"
  using assms by (simp add: v_open_session_def Let_def word_gt_0)

lemma handle_new_Session [simp]: "handle_m (new_Session h sl fl a n) = h"
  by (simp add: new_Session_def)

lemma registry_open:
  assumes "registry_inv m" "0 < v_next_session_id m" "v_next_session_id m < 0xFFFFFFFFFFFFFFFF"
  shows "registry_inv (snd (snd (v_open_session m sl fl a n)))"
proof -
  have "v_next_session_id m < v_next_session_id m + 1"
    using unat_plus_one [OF assms(3)] by (simp add: word_less_nat_alt)
  then show ?thesis using assms
    by (auto simp: registry_inv_def open_session_eq intro: less_trans)
qed

lemma close_remove1:
  assumes "distinct (map handle_m xs)"
  shows "takeWhile (\<lambda>s. handle_m s \<noteq> h) xs @ tl (dropWhile (\<lambda>s. handle_m s \<noteq> h) xs) =
    filter (\<lambda>s. handle_m s \<noteq> h) xs"
  using assms
proof (induction xs)
  case (Cons x xs)
  then show ?case
    by (cases "handle_m x = h") (auto simp: image_iff intro!: filter_True [symmetric])
qed simp

lemma close_session_eq:
  assumes "registry_inv m"
  shows "v_close_session m h =
    (if v_get_session m h = None then (CKR_SESSION_HANDLE_INVALID, m)
     else (CKR_OK, m\<lparr>v_sessions := filter (\<lambda>s. handle_m s \<noteq> h) (v_sessions m)\<rparr>))"
  using assms by (auto simp: v_close_session_def get_session_None registry_inv_def close_remove1)

lemma registry_filter: "registry_inv m \<Longrightarrow> registry_inv (m\<lparr>v_sessions := filter P (v_sessions m)\<rparr>)"
  by (auto simp: registry_inv_def distinct_map_filter)

lemma registry_put: "registry_inv m \<Longrightarrow> registry_inv (v_put_session m h (s\<lparr>handle_m := h\<rparr>))"
proof -
  have "map handle_m (map (\<lambda>x. if handle_m x = h then s\<lparr>handle_m := h\<rparr> else x) xs) = map handle_m xs" for xs
    by (induction xs) auto
  then show "registry_inv m \<Longrightarrow> ?thesis"
    unfolding registry_inv_def v_put_session_def by (simp del: map_map) auto
qed

lemma get_put_session:
  assumes "registry_inv m" "v_get_session m h = Some s0" "handle_m s = h"
  shows "v_get_session (v_put_session m h s) g = (if g = h then Some s else v_get_session m g)"
proof -
  have "find (\<lambda>x. handle_m x = g) (map (\<lambda>x. if handle_m x = h then s else x) xs) =
     (if g = h then (if h \<in> handle_m ` set xs then Some s else None) else find (\<lambda>x. handle_m x = g) xs)" for xs
    using assms(3) by (induction xs) auto
  moreover have "h \<in> handle_m ` set (v_sessions m)"
    using get_session_None [of m h] assms(2) by simp
  ultimately show ?thesis by (simp add: v_get_session_def v_put_session_def)
qed

lemma registry_step_inv:
  assumes "registry_inv m" "0 < v_next_session_id m"
    and "\<And>sl fl a n. op = OpenS sl fl a n \<Longrightarrow> v_next_session_id m < 0xFFFFFFFFFFFFFFFF"
  shows "registry_inv (registry_step op m)"
  using assms
  by (cases op)
    (auto simp: registry_step_def registry_open close_session_eq registry_filter v_close_all_sessions_def
      registry_put split: option.splits)

text \<open>Handles below the counter that are not in use stay unused.\<close>

lemma registry_run_unused:
  assumes "registry_inv m" "0 < v_next_session_id m" "unat (v_next_session_id m) + opens ops < 2 ^ 64 - 1"
    and "v_get_session m h = None" "h < v_next_session_id m"
  shows "registry_inv (registry_run ops m) \<and> v_get_session (registry_run ops m) h = None"
  using assms
proof (induction ops arbitrary: m)
  case (Cons op ops)
  let ?m = "registry_step op m"
  have lt: "v_next_session_id m < 0xFFFFFFFFFFFFFFFF"
    using Cons.prems(3) by (simp add: word_less_nat_alt)
  have inv: "registry_inv ?m" using registry_step_inv [OF Cons.prems(1,2)] lt by blast
  have nx: "v_next_session_id ?m = (case op of OpenS _ _ _ _ \<Rightarrow> v_next_session_id m + 1 | _ \<Rightarrow> v_next_session_id m)"
    using Cons.prems(1,2)
    by (cases op) (auto simp: registry_step_def open_session_eq close_session_eq v_close_all_sessions_def
        v_put_session_def split: option.splits)
  have none: "v_get_session ?m h = None"
    using Cons.prems by (cases op)
      (auto simp: registry_step_def open_session_eq close_session_eq v_close_all_sessions_def
        v_put_session_def get_session_None split: option.splits)
  have u: "unat (v_next_session_id m + 1) = unat (v_next_session_id m) + 1" using unat_plus_one [OF lt] .
  have "0 < v_next_session_id ?m" "h < v_next_session_id ?m"
    "unat (v_next_session_id ?m) + opens ops < 2 ^ 64 - 1"
    using Cons.prems(2,3,5) u unfolding nx by (cases op; simp add: opens_def word_less_nat_alt)+
  from Cons.IH [OF inv this(1,3) none this(2)] show ?case by (simp add: registry_run_def)
qed (simp add: registry_run_def)


subsection \<open>Properties\<close>

text \<open>
  C9. The login state machine is consistent: in every state a session can reach through its member
  functions, the recorded PKCS\#11 state is the one that its flags and user type determine, the
  user type is one of the three, the find cursor is inside the results, and the session's object
  store is well-formed.
\<close>

theorem session_state_consistent:
  assumes "session_reachable s"
  shows "state_m s = session_state_of (flags_m s) (userType_m s) \<and>
    (userType_m s = CKU_INVALID \<or> userType_m s = CKU_USER \<or> userType_m s = CKU_SO) \<and>
    findPos_m s \<le> length (findHandles_m s) \<and> store_inv (objectStore_m s)"
  using session_inv_reachable [OF assms] by (simp add: session_inv_def)

theorem session_state_consistent_witness:
  "state_m (snd (session_login (new_Session 1 0 CKF_RW_SESSION 0 0) CKU_USER)) = CKS_RW_USER_FUNCTIONS"
  using session_state_consistent [OF session_reachable.login [OF session_reachable.new,
      of 1 0 CKF_RW_SESSION 0 0 CKU_USER]]
  by (simp add: session_login_def session_state_of_def new_Session_def is_rw_def is_logged_in_state_def)

text \<open>
  Login and logout are the only transitions of the login state and alternate: on a reachable
  session a login succeeds exactly when nobody is logged in and the user type is USER or SO, a
  logout exactly when somebody is, and a logout after a login restores the login state and leaves
  no operation, buffer or find result behind.
\<close>

lemma login_logout_alternate:
  assumes "session_reachable s"
  shows "(fst (session_login s ut) = CKR_OK \<longleftrightarrow>
      userType_m s = CKU_INVALID \<and> (ut = CKU_USER \<or> ut = CKU_SO)) \<and>
    (fst (session_logout s) = CKR_OK \<longleftrightarrow> userType_m s \<noteq> CKU_INVALID) \<and>
    (fst (session_login s ut) = CKR_OK \<longrightarrow>
      (let s' = snd (session_logout (snd (session_login s ut))) in
       state_m s' = state_m s \<and> userType_m s' = CKU_INVALID \<and> activeMech_m s' = 0 \<and>
       opBuf_m s' = [] \<and> findHandles_m s' = [] \<and> \<not> operationInitialized_m s'))"
  using session_inv_reachable [OF assms]
  by (auto simp: session_inv_def session_state_of_def session_login_def session_logout_def
      is_logged_in_state_def Let_def)

text \<open>
  Fetching find results in batches loses and repeats nothing: after the results are installed,
  successive batches of any sizes deliver the result list in order, up to the requested total, and
  all of it once the sizes add up.
\<close>

lemma find_batches_deliver:
  "fst (find_batches ns (setFindResults s hs)) = take (sum_list (map unat ns)) hs \<and>
   (length hs \<le> sum_list (map unat ns) \<longrightarrow> fst (find_batches ns (setFindResults s hs)) = hs)"
proof -
  have "fst (find_batches ns (setFindResults s hs)) = take (sum_list (map unat ns)) hs"
    using find_batches_eq [of "setFindResults s hs" ns] by (simp add: setFindResults_def)
  then show ?thesis by simp
qed

text \<open>
  The login throttle has the delay its policy describes, with no overflow: none below three
  consecutive failures, then 250 ms doubling with each failure, never more than 8 s; a success
  clears it.
\<close>

lemma throttle_delay:
  assumes "policy_m th = default_Policy"
  shows "unat (delay_before_attempt th key) =
      (if unat (failures th key) < 3 then 0 else min 8000 (250 * 2 ^ (unat (failures th key) - 3))) \<and>
    delay_before_attempt (record_success th key) key = 0"
proof -
  have "unat (delay_before_attempt th key) =
      (if unat n < 3 then 0 else min 8000 (250 * 2 ^ (unat n - 3)))" if n: "attempts_m th key = Some n" for n
  proof (cases "unat n < 3")
    case True
    then show ?thesis using n assms
      by (simp add: delay_before_attempt_def default_Policy_def word_less_nat_alt)
  next
    case False
    let ?k = "unat (min (n - 3) 16)"
    have u: "unat (n - 3) = unat n - 3" using False by (simp add: unat_sub word_le_nat_alt)
    have k: "?k = min (unat n - 3) 16" by (simp add: min_def word_le_nat_alt u)
    have d: "delay_before_attempt th key = min (push_bit ?k 250) 8000"
      using n assms False by (simp add: delay_before_attempt_def default_Policy_def word_less_nat_alt Let_def)
    have "unat (delay_before_attempt th key) = min (250 * 2 ^ ?k) 8000"
      using throttle_shift [of ?k] unfolding d k by (simp add: min_def word_le_nat_alt)
    also have "\<dots> = min 8000 (250 * 2 ^ (unat n - 3))"
    proof (cases "unat n - 3 \<le> 16")
      case False
      then have "(2::nat) ^ 16 \<le> 2 ^ (unat n - 3)" by (intro power_increasing) simp_all
      then show ?thesis unfolding k using False by (simp add: min_def)
    qed (simp add: k min.commute)
    finally show ?thesis using False by simp
  qed
  then show ?thesis
    by (cases "attempts_m th key") (auto simp: failures_def record_success_def delay_before_attempt_def)
qed

text \<open>
  C10. A closed session handle is never honoured again: after a successful close, no sequence of
  opens, closes and session changes that stays within the 64-bit counter makes the handle resolve.
\<close>

theorem closed_handle_stays_closed:
  assumes "registry_inv m" and "v_close_session m h = (CKR_OK, m')"
    and "0 < v_next_session_id m" and "unat (v_next_session_id m) + opens ops < 2 ^ 64 - 1"
  shows "v_get_session m h \<noteq> None \<and> v_get_session (registry_run ops m') h = None"
proof -
  have h: "v_get_session m h \<noteq> None" and m': "m' = m\<lparr>v_sessions := filter (\<lambda>s. handle_m s \<noteq> h) (v_sessions m)\<rparr>"
    using assms(1,2) by (auto simp: close_session_eq split: if_splits)
  then obtain s where s: "s \<in> set (v_sessions m)" "handle_m s = h" using get_session_Some by fastforce
  have "registry_inv m'" unfolding m' by (rule registry_filter [OF assms(1)])
  moreover have "v_get_session m' h = None" by (auto simp: m' get_session_None)
  moreover have "h < v_next_session_id m'" using assms(1) s by (auto simp: m' registry_inv_def)
  ultimately show ?thesis using registry_run_unused [of m' ops h] assms(3,4) h m' by simp
qed

theorem closed_handle_stays_closed_witness:
  "let m = snd (snd (v_open_session new_SessionManager 0 CKF_SERIAL_SESSION 0 0));
       m' = snd (v_close_session m 1) in
   v_get_session m 1 \<noteq> None \<and> v_get_session (registry_run [OpenS 0 CKF_SERIAL_SESSION 0 0] m') 1 = None"
proof -
  let ?m = "snd (snd (v_open_session new_SessionManager 0 CKF_SERIAL_SESSION 0 0))"
  have i: "registry_inv ?m" by (rule registry_open) (simp_all add: new_SessionManager_def registry_inv_def)
  have n: "v_next_session_id ?m = 2" by (simp add: new_SessionManager_def v_open_session_def)
  have "v_get_session ?m 1 \<noteq> None"
    by (simp add: new_SessionManager_def v_open_session_def v_get_session_def)
  then have c: "v_close_session ?m 1 = (CKR_OK, snd (v_close_session ?m 1))"
    using i by (simp add: close_session_eq)
  show ?thesis
    using closed_handle_stays_closed [OF i c, of "[OpenS 0 CKF_SERIAL_SESSION 0 0]"]
    by (simp add: n opens_def)
qed

end
