(* ===== verification/Persistence.thy ===== *)
theory Persistence
  imports Token
begin

text \<open>
  Persistence: persistence/token\_serializer.cpp, persistence/migrations.cpp, persistence/kdf.cpp and
  the POSIX branch of persistence/vault.cpp, with crypto/aes\_gcm.cpp.

  The cryptographic library vhsm::scrypto is not part of the sources: its functions are the fields of
  the record \<open>Scrypto\<close>, which every definition that needs them takes as an argument.  Randomness is an
  argument as well.  The file system is a partial map from paths to contents.  \<open>Vault::save\<close> performs a
  sequence of system calls; their results are a script of integers that the model consumes, and a
  script that ends early is a crash of the process at that system call.  An unlink succeeds and
  the directory fsync, whose result the code ignores, has no effect on the contents.
\<close>

subsection \<open>The cryptographic library\<close>

record Scrypto =
  pbkdf2_hmac_sha256 :: "string \<Rightarrow> bytes \<Rightarrow> u32 \<Rightarrow> nat \<Rightarrow> bytes"
  aes256_gcm_encrypt :: "bytes \<Rightarrow> bytes \<Rightarrow> bytes \<Rightarrow> bytes \<times> bytes \<times> bytes"
  aes256_gcm_decrypt :: "bytes \<Rightarrow> bytes \<Rightarrow> bytes \<Rightarrow> bytes \<Rightarrow> bytes option"

record AESGCMResult =
  gcm_ciphertext :: bytes
  gcm_nonce :: bytes
  gcm_tag :: bytes

definition AESGCM_encrypt :: "Scrypto \<Rightarrow> bytes \<Rightarrow> bytes \<Rightarrow> bytes \<Rightarrow> cpp_exn + AESGCMResult" where
  "AESGCM_encrypt sc key rnd plaintext =
     (if length key \<noteq> 32 then Inl invalid_argument
      else case aes256_gcm_encrypt sc key rnd plaintext of
        (ct, nonce, tag) \<Rightarrow> Inr \<lparr>gcm_ciphertext = ct, gcm_nonce = nonce, gcm_tag = tag\<rparr>)"

definition AESGCM_decrypt :: "Scrypto \<Rightarrow> bytes \<Rightarrow> AESGCMResult \<Rightarrow> cpp_exn + bytes" where
  "AESGCM_decrypt sc key r =
     (if length key \<noteq> 32 then Inl invalid_argument
      else if length (gcm_nonce r) \<noteq> 12 then Inl invalid_argument
      else if length (gcm_tag r) \<noteq> 16 then Inl invalid_argument
      else case aes256_gcm_decrypt sc key (gcm_ciphertext r) (gcm_nonce r) (gcm_tag r) of
        None \<Rightarrow> Inl runtime_error
      | Some p \<Rightarrow> Inr p)"

definition derive_vault_key :: "Scrypto \<Rightarrow> string \<Rightarrow> bytes \<Rightarrow> u32 \<Rightarrow> nat \<Rightarrow> cpp_exn + bytes" where
  "derive_vault_key sc password salt iterations out_len =
     (if password = [] then Inl runtime_error
      else if salt = [] then Inl runtime_error
      else if iterations = 0 then Inl runtime_error
      else if out_len = 0 then Inl runtime_error
      else Inr (pbkdf2_hmac_sha256 sc password salt iterations out_len))"

subsection \<open>Token snapshots\<close>

record TokenSnapshot =
  snap_label :: string
  snap_id :: string
  snap_max_session_count :: CK_ULONG
  snap_session_count :: CK_ULONG
  snap_max_rw_session_count :: CK_ULONG
  snap_rw_session_count :: CK_ULONG
  snap_token_initialized :: CK_BBOOL
  snap_user_pin_set :: CK_BBOOL
  snap_so_pin_set :: CK_BBOOL
  snap_user_login_required :: CK_BBOOL
  snap_so_login_required :: CK_BBOOL
  snap_max_failed_attempts :: u32
  snap_user_failed_attempts :: u32
  snap_so_failed_attempts :: u32
  snap_user_pin_locked :: CK_BBOOL
  snap_so_pin_locked :: CK_BBOOL
  snap_kek :: bytes

definition KMagic :: u32 where "KMagic = 0x5648534D"

definition KVersion :: u32 where "KVersion = 1"

text \<open>A character of a \<open>std::string\<close> as a byte, and back.\<close>

definition bytes_of_string :: "string \<Rightarrow> bytes" where
  "bytes_of_string s = map (\<lambda>c. word_of_nat (of_char c)) s"

definition string_of_bytes :: "bytes \<Rightarrow> string" where
  "string_of_bytes b = map (\<lambda>x. char_of (unat x)) b"

definition snapshot_flags :: "TokenSnapshot \<Rightarrow> u8" where
  "snapshot_flags s =
     (if snap_token_initialized s \<noteq> 0 then 1 else 0) OR
     (if snap_user_pin_set s \<noteq> 0 then 2 else 0) OR
     (if snap_so_pin_set s \<noteq> 0 then 4 else 0) OR
     (if snap_user_login_required s \<noteq> 0 then 8 else 0) OR
     (if snap_so_login_required s \<noteq> 0 then 16 else 0) OR
     (if snap_user_pin_locked s \<noteq> 0 then 32 else 0) OR
     (if snap_so_pin_locked s \<noteq> 0 then 64 else 0)"

definition serialize_token_snapshot :: "TokenSnapshot \<Rightarrow> cpp_exn + bytes" where
  "serialize_token_snapshot s =
     (if 255 < length (snap_label s) then Inl runtime_error
      else if 255 < length (snap_id s) then Inl runtime_error
      else Inr (put_le32 KMagic @ put_le32 KVersion @
        of_nat (length (snap_label s)) # bytes_of_string (snap_label s) @
        of_nat (length (snap_id s)) # bytes_of_string (snap_id s) @
        put_le64 (snap_max_session_count s) @ put_le64 (snap_session_count s) @
        put_le64 (snap_max_rw_session_count s) @ put_le64 (snap_rw_session_count s) @
        snapshot_flags s #
        put_le32 (snap_max_failed_attempts s) @ put_le32 (snap_user_failed_attempts s) @
        put_le32 (snap_so_failed_attempts s) @
        put_le64 (of_nat (length (snap_kek s))) @ snap_kek s))"

definition read_string :: "bytes \<Rightarrow> nat \<Rightarrow> cpp_exn + string \<times> nat" where
  "read_string data off =
     (if \<not> off < length data then Inl runtime_error
      else let len = unat (data ! off); off = off + 1 in
        if \<not> len \<le> length data - off then Inl runtime_error
        else Inr (string_of_bytes (take len (drop off data)), off + len))"

definition flag_bit :: "u8 \<Rightarrow> u8 \<Rightarrow> CK_BBOOL" where
  "flag_bit flags m = (if flags AND m \<noteq> 0 then CK_TRUE else CK_FALSE)"

definition read_numeric_fields :: "bytes \<Rightarrow> nat \<Rightarrow> string \<Rightarrow> string \<Rightarrow> cpp_exn + TokenSnapshot" where
  "read_numeric_fields data off label tid =
     (if \<not> 53 \<le> length data - off then Inl runtime_error
      else let flags = data ! (off + 32);
               kek_len = unat (get_le64 (drop (off + 45) data)) in
        if \<not> kek_len \<le> length data - (off + 53) then Inl runtime_error
        else Inr \<lparr>snap_label = label, snap_id = tid,
          snap_max_session_count = get_le64 (drop off data),
          snap_session_count = get_le64 (drop (off + 8) data),
          snap_max_rw_session_count = get_le64 (drop (off + 16) data),
          snap_rw_session_count = get_le64 (drop (off + 24) data),
          snap_token_initialized = flag_bit flags 1, snap_user_pin_set = flag_bit flags 2,
          snap_so_pin_set = flag_bit flags 4, snap_user_login_required = flag_bit flags 8,
          snap_so_login_required = flag_bit flags 16,
          snap_max_failed_attempts = get_le32 (drop (off + 33) data),
          snap_user_failed_attempts = get_le32 (drop (off + 37) data),
          snap_so_failed_attempts = get_le32 (drop (off + 41) data),
          snap_user_pin_locked = flag_bit flags 32, snap_so_pin_locked = flag_bit flags 64,
          snap_kek = take kek_len (drop (off + 53) data)\<rparr>)"

definition deserialize_token_snapshot :: "bytes \<Rightarrow> cpp_exn + TokenSnapshot" where
  "deserialize_token_snapshot data =
     (if \<not> 10 \<le> length data then Inl runtime_error
      else if get_le32 data \<noteq> KMagic then Inl runtime_error
      else if get_le32 (drop 4 data) \<noteq> KVersion then Inl runtime_error
      else case read_string data 8 of
        Inl e \<Rightarrow> Inl e
      | Inr (label, off) \<Rightarrow> (case read_string data off of
          Inl e \<Rightarrow> Inl e
        | Inr (tid, off) \<Rightarrow> read_numeric_fields data off label tid))"

definition snapshot_from_token :: "TokenCore \<Rightarrow> TokenSnapshot" where
  "snapshot_from_token t = \<lparr>snap_label = v_label t, snap_id = v_id t,
     snap_max_session_count = 1024, snap_session_count = v_session_count t,
     snap_max_rw_session_count = 1024, snap_rw_session_count = v_rw_session_count t,
     snap_token_initialized = v_token_initialized t, snap_user_pin_set = v_user_pin_set t,
     snap_so_pin_set = v_so_pin_set t, snap_user_login_required = v_user_login_required t,
     snap_so_login_required = v_so_login_required t,
     snap_max_failed_attempts = v_max_failed_attempts t,
     snap_user_failed_attempts = v_user_failed_attempts t,
     snap_so_failed_attempts = v_so_failed_attempts t,
     snap_user_pin_locked = v_user_pin_locked t, snap_so_pin_locked = v_so_pin_locked t,
     snap_kek = v_get_kek t\<rparr>"

definition restore_token_from_snapshot :: "TokenCore \<Rightarrow> TokenSnapshot \<Rightarrow> cpp_exn + TokenCore" where
  "restore_token_from_snapshot t s =
     (if 255 < length (snap_label s) \<or> 255 < length (snap_id s) then Inl runtime_error
      else Inr (v_restore_state t (snap_token_initialized s) (snap_user_pin_set s) (snap_so_pin_set s)
        (snap_user_login_required s) (snap_so_login_required s) (snap_max_failed_attempts s)
        (snap_user_failed_attempts s) (snap_so_failed_attempts s) (snap_user_pin_locked s)
        (snap_so_pin_locked s) (snap_kek s)))"

subsection \<open>Migrations\<close>

type_synonym MigrationRegistry = "u32 \<rightharpoonup> (bytes \<Rightarrow> bytes)"

definition register_migration ::
  "MigrationRegistry \<Rightarrow> u32 \<Rightarrow> (bytes \<Rightarrow> bytes) option \<Rightarrow> cpp_exn + bool \<times> MigrationRegistry" where
  "register_migration fns from fn = (case fn of
     None \<Rightarrow> Inl runtime_error
   | Some f \<Rightarrow> (case fns from of
       Some _ \<Rightarrow> Inr (False, fns)
     | None \<Rightarrow> Inr (True, fns(from \<mapsto> f))))"

function migrate_loop :: "MigrationRegistry \<Rightarrow> bytes \<Rightarrow> u32 \<Rightarrow> u32 \<Rightarrow> cpp_exn + bytes" where
  "migrate_loop fns data current target =
     (if current < target then
        case fns current of
          None \<Rightarrow> Inl runtime_error
        | Some f \<Rightarrow> migrate_loop fns (f data) (current + 1) target
      else Inr data)"
  by pat_completeness auto

termination
  by (relation "measure (\<lambda>(fns, data, current, target). unat target - unat current)")
     (auto simp: word_less_nat_alt unat_plus_one)

definition migrate :: "MigrationRegistry \<Rightarrow> bytes \<Rightarrow> u32 \<Rightarrow> u32 \<Rightarrow> cpp_exn + bytes" where
  "migrate fns data from target =
     (if from = target then Inr data
      else if target < from then Inl runtime_error
      else migrate_loop fns data from target)"

subsection \<open>The vault file\<close>

record Vault =
  path_m :: string
  password_m :: string
  version_vm :: u32
  valid_m :: bool

type_synonym file_system = "string \<rightharpoonup> bytes"

definition K_VAULT_MAGIC :: bytes where
  "K_VAULT_MAGIC = bytes_of_string ''VHSMVAUL''"

definition K_VAULT_FORMAT_VERSION :: u32 where "K_VAULT_FORMAT_VERSION = 1"

definition K_VAULT_PBKDF2_ITERATIONS :: u32 where "K_VAULT_PBKDF2_ITERATIONS = 600000"

definition K_VAULT_HEADER_LEN :: nat where "K_VAULT_HEADER_LEN = 8 + 4 + 16 + 4 + 12 + 16 + 8"

definition vault_make_key :: "Scrypto \<Rightarrow> Vault \<Rightarrow> bytes \<Rightarrow> u32 \<Rightarrow> cpp_exn + bytes" where
  "vault_make_key sc v salt iterations = derive_vault_key sc (password_m v) salt iterations 32"

text \<open>
  The header fields salt, iterations, nonce and tag with the ciphertext behind them, as both
  the opening constructor and \<open>load\<close> read them; the constructor alone refuses a zero iteration count.
\<close>

definition vault_parse :: "bytes \<Rightarrow> cpp_exn + bytes \<times> u32 \<times> AESGCMResult" where
  "vault_parse raw =
     (if length raw < K_VAULT_HEADER_LEN then Inl runtime_error
      else if take 8 raw \<noteq> K_VAULT_MAGIC then Inl runtime_error
      else if get_le32 (drop 8 raw) \<noteq> K_VAULT_FORMAT_VERSION then Inl runtime_error
      else if length raw \<noteq> K_VAULT_HEADER_LEN + unat (get_le64 (drop 60 raw)) then Inl runtime_error
      else Inr (take 16 (drop 12 raw), get_le32 (drop 28 raw),
        \<lparr>gcm_ciphertext = drop K_VAULT_HEADER_LEN raw, gcm_nonce = take 12 (drop 32 raw),
         gcm_tag = take 16 (drop 44 raw)\<rparr>))"

definition vault_open :: "Scrypto \<Rightarrow> file_system \<Rightarrow> string \<Rightarrow> string \<Rightarrow> cpp_exn + Vault" where
  "vault_open sc fs path password =
     (let v = \<lparr>path_m = path, password_m = password, version_vm = K_VAULT_FORMAT_VERSION, valid_m = False\<rparr> in
      case fs path of
        None \<Rightarrow> Inl runtime_error
      | Some raw \<Rightarrow> (case vault_parse raw of
          Inl e \<Rightarrow> Inl e
        | Inr (salt, iterations, res) \<Rightarrow>
            if iterations = 0 then Inl runtime_error
            else (case vault_make_key sc v salt iterations of
              Inl e \<Rightarrow> Inl e
            | Inr key \<Rightarrow> (case AESGCM_decrypt sc key res of
                Inl _ \<Rightarrow> Inl runtime_error
              | Inr _ \<Rightarrow> Inr (v\<lparr>valid_m := True\<rparr>)))))"

definition vault_load :: "Scrypto \<Rightarrow> file_system \<Rightarrow> Vault \<Rightarrow> cpp_exn + bytes" where
  "vault_load sc fs v =
     (if \<not> valid_m v then Inl runtime_error
      else case fs (path_m v) of
        None \<Rightarrow> Inl runtime_error
      | Some raw \<Rightarrow> (case vault_parse raw of
          Inl e \<Rightarrow> Inl e
        | Inr (salt, iterations, res) \<Rightarrow> (case vault_make_key sc v salt iterations of
            Inl e \<Rightarrow> Inl e
          | Inr key \<Rightarrow> AESGCM_decrypt sc key res)))"

definition vault_image :: "bytes \<Rightarrow> AESGCMResult \<Rightarrow> bytes" where
  "vault_image salt enc =
     K_VAULT_MAGIC @ put_le32 K_VAULT_FORMAT_VERSION @ salt @ put_le32 K_VAULT_PBKDF2_ITERATIONS @
     gcm_nonce enc @ gcm_tag enc @ put_le64 (of_nat (length (gcm_ciphertext enc))) @ gcm_ciphertext enc"

datatype io_outcome = Crashed | Threw | Completed

text \<open>
  The write loop on the temporary file; each script element is the result of one \<open>write\<close>.
\<close>

fun write_loop ::
  "file_system \<Rightarrow> string \<Rightarrow> bytes \<Rightarrow> nat \<Rightarrow> int list \<Rightarrow> io_outcome \<times> file_system \<times> int list" where
  "write_loop fs tmp out written script =
     (if \<not> written < length out then (Completed, fs, script)
      else case script of
        [] \<Rightarrow> (Crashed, fs, [])
      | n # rest \<Rightarrow>
          if n < 0 then (Threw, fs(tmp := None), rest)
          else write_loop (fs(tmp := map_option (\<lambda>c. c @ take (nat n) (drop written out)) (fs tmp)))
                 tmp out (written + nat n) rest)"

text \<open>fsync, close and rename of the written temporary file.\<close>

fun commit_file :: "file_system \<Rightarrow> string \<Rightarrow> string \<Rightarrow> int list \<Rightarrow> io_outcome \<times> file_system" where
  "commit_file fs tmp path (r1 # r2 # r3 # _) =
     (if r1 \<noteq> 0 \<or> r2 \<noteq> 0 \<or> r3 \<noteq> 0 then (Threw, fs(tmp := None))
      else (Completed, fs(path := fs tmp, tmp := None)))"
| "commit_file fs tmp path [r1, r2] = (if r1 \<noteq> 0 \<or> r2 \<noteq> 0 then (Threw, fs(tmp := None)) else (Crashed, fs))"
| "commit_file fs tmp path [r1] = (if r1 \<noteq> 0 then (Threw, fs(tmp := None)) else (Crashed, fs))"
| "commit_file fs tmp path [] = (Crashed, fs)"

definition write_image :: "file_system \<Rightarrow> string \<Rightarrow> string \<Rightarrow> bytes \<Rightarrow> int list \<Rightarrow> io_outcome \<times> file_system" where
  "write_image fs tmp path out script = (case script of
     [] \<Rightarrow> (Crashed, fs)
   | fd # rest \<Rightarrow>
       if fd < 0 then (Threw, fs)
       else (case write_loop (fs(tmp \<mapsto> [])) tmp out 0 rest of
           (Completed, fs', rest') \<Rightarrow> commit_file fs' tmp path rest'
         | (outcome, fs', _) \<Rightarrow> (outcome, fs')))"

definition vault_save ::
  "Scrypto \<Rightarrow> file_system \<Rightarrow> Vault \<Rightarrow> bytes \<Rightarrow> bytes \<Rightarrow> string \<Rightarrow> int list \<Rightarrow> bytes \<Rightarrow>
   io_outcome \<times> Vault \<times> file_system" where
  "vault_save sc fs v salt rnd tmp script payload =
     (if password_m v = [] then (Threw, v, fs)
      else case vault_make_key sc v salt K_VAULT_PBKDF2_ITERATIONS of
        Inl _ \<Rightarrow> (Threw, v, fs)
      | Inr key \<Rightarrow> (case AESGCM_encrypt sc key rnd payload of
          Inl _ \<Rightarrow> (Threw, v, fs)
        | Inr enc \<Rightarrow> (case write_image fs tmp (path_m v) (vault_image salt enc) script of
            (Completed, fs') \<Rightarrow> (Completed, v\<lparr>valid_m := True\<rparr>, fs')
          | (outcome, fs') \<Rightarrow> (outcome, v, fs'))))"

definition vault_create ::
  "Scrypto \<Rightarrow> file_system \<Rightarrow> string \<Rightarrow> string \<Rightarrow> bytes \<Rightarrow> bytes \<Rightarrow> string \<Rightarrow> int list \<Rightarrow> bytes \<Rightarrow>
   io_outcome \<times> Vault option \<times> file_system" where
  "vault_create sc fs path password salt rnd tmp script payload =
     (if password = [] then (Threw, None, fs)
      else if fs path \<noteq> None then (Threw, None, fs)
      else let v = \<lparr>path_m = path, password_m = password, version_vm = K_VAULT_FORMAT_VERSION, valid_m = False\<rparr> in
        case vault_save sc fs v salt rnd tmp script payload of
          (Completed, v', fs') \<Rightarrow> (Completed, Some v', fs')
        | (outcome, _, fs') \<Rightarrow> (outcome, None, fs'))"

definition persist_token_to_vault ::
  "Scrypto \<Rightarrow> file_system \<Rightarrow> TokenCore \<Rightarrow> Vault \<Rightarrow> bytes \<Rightarrow> bytes \<Rightarrow> string \<Rightarrow> int list \<Rightarrow>
   io_outcome \<times> Vault \<times> file_system" where
  "persist_token_to_vault sc fs t v salt rnd tmp script =
     (case serialize_token_snapshot (snapshot_from_token t) of
        Inl _ \<Rightarrow> (Threw, v, fs)
      | Inr payload \<Rightarrow> vault_save sc fs v salt rnd tmp script payload)"

definition restore_token_from_vault :: "Scrypto \<Rightarrow> file_system \<Rightarrow> TokenCore \<Rightarrow> Vault \<Rightarrow> cpp_exn + TokenCore" where
  "restore_token_from_vault sc fs t v = (case vault_load sc fs v of
     Inl e \<Rightarrow> Inl e
   | Inr payload \<Rightarrow> (case deserialize_token_snapshot payload of
       Inl e \<Rightarrow> Inl e
     | Inr s \<Rightarrow> restore_token_from_snapshot t s))"

subsection \<open>Specification notions\<close>

definition is_bbool :: "CK_BBOOL \<Rightarrow> bool" where
  "is_bbool b = (b = CK_FALSE \<or> b = CK_TRUE)"

definition snapshot_wf :: "TokenSnapshot \<Rightarrow> bool" where
  "snapshot_wf s = (length (snap_label s) \<le> 255 \<and> length (snap_id s) \<le> 255 \<and>
     length (snap_kek s) < 2 ^ 64 \<and> is_bbool (snap_token_initialized s) \<and>
     is_bbool (snap_user_pin_set s) \<and> is_bbool (snap_so_pin_set s) \<and>
     is_bbool (snap_user_login_required s) \<and> is_bbool (snap_so_login_required s) \<and>
     is_bbool (snap_user_pin_locked s) \<and> is_bbool (snap_so_pin_locked s))"

definition scrypto_ok :: "Scrypto \<Rightarrow> bool" where
  "scrypto_ok sc = ((\<forall>pw salt it n. length (pbkdf2_hmac_sha256 sc pw salt it n) = n) \<and>
     (\<forall>key rnd p. length key = 32 \<longrightarrow> (case aes256_gcm_encrypt sc key rnd p of
        (ct, nonce, tag) \<Rightarrow> length nonce = 12 \<and> length tag = 16 \<and> length ct = length p \<and>
          aes256_gcm_decrypt sc key ct nonce tag = Some p)))"

text \<open>
  The states a token takes in the program: fresh, after its own operations, and after a restore
  from the snapshot of such a token.
\<close>

inductive token_reachable :: "TokenCore \<Rightarrow> bool" where
  fresh: "token_reachable (new_TokenCore l i c)"
| init_user: "token_reachable t \<Longrightarrow> token_reachable (snd (initialize_user_pin t p n))"
| init_so: "token_reachable t \<Longrightarrow> token_reachable (snd (initialize_so_pin t p n))"
| set_user: "token_reachable t \<Longrightarrow> token_reachable (snd (set_user_pin t p n q k))"
| set_so: "token_reachable t \<Longrightarrow> token_reachable (snd (set_so_pin t p n q k))"
| change_user: "token_reachable t \<Longrightarrow> token_reachable (snd (change_user_pin t p n q k))"
| login_as: "token_reachable t \<Longrightarrow> token_reachable (snd (login t u p n))"
| limit: "token_reachable t \<Longrightarrow> token_reachable (v_set_max_failed_attempts t m)"
| restored: "token_reachable t \<Longrightarrow> token_reachable t' \<Longrightarrow>
    restore_token_from_snapshot t (snapshot_from_token t') = Inr t'' \<Longrightarrow> token_reachable t''"

text \<open>A cipher that appends nothing secret but has the documented shape, for the witnesses.\<close>

definition plain_scrypto :: Scrypto where
  "plain_scrypto = \<lparr>pbkdf2_hmac_sha256 = (\<lambda>pw salt it n. replicate n 0),
     aes256_gcm_encrypt = (\<lambda>key rnd p. (p, replicate 12 0, replicate 16 0)),
     aes256_gcm_decrypt = (\<lambda>key ct nonce tag. if tag = replicate 16 0 then Some ct else None)\<rparr>"

subsection \<open>Strings and flags\<close>

lemma string_bytes_inverse [simp]: "string_of_bytes (bytes_of_string s) = s"
  by (simp add: string_of_bytes_def bytes_of_string_def o_def unat_of_nat take_bit_nat_eq_self)

lemma length_bytes_of_string [simp]: "length (bytes_of_string s) = length s"
  by (simp add: bytes_of_string_def)

lemma length_string_of_bytes [simp]: "length (string_of_bytes b) = length b"
  by (simp add: string_of_bytes_def)

lemma bbool_norm: "is_bbool b \<Longrightarrow> (if b \<noteq> 0 then 1 else 0) = b"
  by (auto simp: is_bbool_def)

lemma flag_bit_snapshot:
  "flag_bit (snapshot_flags s) 1 = (if snap_token_initialized s \<noteq> 0 then 1 else 0)"
  "flag_bit (snapshot_flags s) 2 = (if snap_user_pin_set s \<noteq> 0 then 1 else 0)"
  "flag_bit (snapshot_flags s) 4 = (if snap_so_pin_set s \<noteq> 0 then 1 else 0)"
  "flag_bit (snapshot_flags s) 8 = (if snap_user_login_required s \<noteq> 0 then 1 else 0)"
  "flag_bit (snapshot_flags s) 16 = (if snap_so_login_required s \<noteq> 0 then 1 else 0)"
  "flag_bit (snapshot_flags s) 32 = (if snap_user_pin_locked s \<noteq> 0 then 1 else 0)"
  "flag_bit (snapshot_flags s) 64 = (if snap_so_pin_locked s \<noteq> 0 then 1 else 0)"
  by (simp_all add: flag_bit_def snapshot_flags_def)

subsection \<open>Reading what was written\<close>

lemma read_string_at:
  assumes "length s \<le> 255" "n = length pre"
  shows "read_string (pre @ of_nat (length s) # bytes_of_string s @ rest) n = Inr (s, n + 1 + length s)"
proof -
  have "unat (of_nat (length s) :: u8) = length s"
    using assms(1) by (simp add: unat_of_nat take_bit_nat_eq_self)
  then show ?thesis using assms(2) by (simp add: read_string_def nth_append)
qed

lemma drop_plus_append: "n = length pre \<Longrightarrow> drop (n + k) (pre @ xs) = drop k xs"
  by simp

lemma read_numeric_at:
  assumes "snapshot_wf s" "n = length pre"
  shows "read_numeric_fields (pre @ put_le64 (snap_max_session_count s) @ put_le64 (snap_session_count s) @
        put_le64 (snap_max_rw_session_count s) @ put_le64 (snap_rw_session_count s) @
        snapshot_flags s #
        put_le32 (snap_max_failed_attempts s) @ put_le32 (snap_user_failed_attempts s) @
        put_le32 (snap_so_failed_attempts s) @
        put_le64 (of_nat (length (snap_kek s))) @ snap_kek s) n (snap_label s) (snap_id s) = Inr s"
  using assms
  by (simp add: read_numeric_fields_def le64.length_put le32.length_put get_le64_append get_le32_append
      flag_bit_snapshot nth_append unat_of_nat_len64 snapshot_wf_def bbool_norm)

lemma serialize_inverse:
  assumes "snapshot_wf s"
  shows "\<exists>bs. serialize_token_snapshot s = Inr bs \<and> deserialize_token_snapshot bs = Inr s \<and>
    length bs = 63 + length (snap_label s) + length (snap_id s) + length (snap_kek s)"
proof -
  let ?tail = "put_le64 (snap_max_session_count s) @ put_le64 (snap_session_count s) @
        put_le64 (snap_max_rw_session_count s) @ put_le64 (snap_rw_session_count s) @
        snapshot_flags s #
        put_le32 (snap_max_failed_attempts s) @ put_le32 (snap_user_failed_attempts s) @
        put_le32 (snap_so_failed_attempts s) @
        put_le64 (of_nat (length (snap_kek s))) @ snap_kek s"
  let ?hd = "put_le32 KMagic @ put_le32 KVersion"
  let ?l = "of_nat (length (snap_label s)) # bytes_of_string (snap_label s)"
  let ?i = "of_nat (length (snap_id s)) # bytes_of_string (snap_id s)"
  let ?bs = "?hd @ ?l @ ?i @ ?tail"
  have wf: "length (snap_label s) \<le> 255" "length (snap_id s) \<le> 255" using assms by (simp_all add: snapshot_wf_def)
  have hd: "length ?hd = 8" by (simp add: le32.length_put)
  have "read_string ?bs 8 = Inr (snap_label s, 9 + length (snap_label s))"
    using read_string_at [OF wf(1), of 8 ?hd "?i @ ?tail"] hd by simp
  moreover have "read_string ?bs (9 + length (snap_label s)) =
      Inr (snap_id s, 10 + length (snap_label s) + length (snap_id s))"
    using read_string_at [OF wf(2), of "9 + length (snap_label s)" "?hd @ ?l" ?tail] hd by simp
  moreover have "read_numeric_fields ?bs (10 + length (snap_label s) + length (snap_id s))
      (snap_label s) (snap_id s) = Inr s"
    using read_numeric_at [OF assms, of "10 + length (snap_label s) + length (snap_id s)" "?hd @ ?l @ ?i"] hd by simp
  moreover have "get_le32 ?bs = KMagic" "get_le32 (drop 4 ?bs) = KVersion"
    by (simp_all add: get_le32_append le32.length_put)
  ultimately have "deserialize_token_snapshot ?bs = Inr s"
    using hd by (simp add: deserialize_token_snapshot_def)
  then show ?thesis using wf by (auto simp: serialize_token_snapshot_def le64.length_put le32.length_put)
qed

subsection \<open>Truncated input\<close>

lemma get_le_take:
  "4 \<le> k \<Longrightarrow> get_le32 (take k xs) = get_le32 xs"
  "8 \<le> k \<Longrightarrow> get_le64 (take k xs) = get_le64 xs"
  by (simp_all add: get_le32_def get_le64_def)

lemma read_string_bounds:
  "read_string data off = Inr (s, off') \<Longrightarrow> off' = off + 1 + length s \<and> off' \<le> length data"
  by (auto simp: read_string_def Let_def split: if_splits)

lemma read_string_take:
  "read_string (take k data) off = Inr r \<Longrightarrow> read_string data off = Inr r"
  by (auto simp: read_string_def Let_def drop_take split: if_splits)

lemma read_numeric_bounds:
  "read_numeric_fields data off l t = Inr s \<Longrightarrow> off + 53 + length (snap_kek s) \<le> length data \<and>
     snap_label s = l \<and> snap_id s = t"
  by (auto simp: read_numeric_fields_def Let_def split: if_splits)

lemma read_numeric_take:
  "read_numeric_fields (take k data) off l t = Inr s \<Longrightarrow> k \<le> length data \<Longrightarrow>
   read_numeric_fields data off l t = Inr s"
  by (auto simp: read_numeric_fields_def Let_def get_le_take drop_take split: if_splits)

lemma deserialize_bounds:
  "deserialize_token_snapshot data = Inr s \<Longrightarrow>
   63 + length (snap_label s) + length (snap_id s) + length (snap_kek s) \<le> length data"
  by (auto simp: deserialize_token_snapshot_def split: if_splits sum.splits prod.splits
      dest!: read_string_bounds read_numeric_bounds)

lemma deserialize_take:
  assumes "deserialize_token_snapshot (take k data) = Inr s" "k \<le> length data"
  shows "deserialize_token_snapshot data = Inr s"
proof -
  have "10 \<le> k" using assms by (auto simp: deserialize_token_snapshot_def split: if_splits)
  then have "get_le32 (take k data) = get_le32 data" "get_le32 (drop 4 (take k data)) = get_le32 (drop 4 data)"
    by (simp_all add: get_le_take drop_take)
  then show ?thesis using assms
    by (auto simp: deserialize_token_snapshot_def split: if_splits sum.splits prod.splits
        dest!: read_string_take read_numeric_take)
qed

lemma deserialize_error: "deserialize_token_snapshot data = Inl e \<Longrightarrow> e = runtime_error"
  by (auto simp: deserialize_token_snapshot_def read_string_def read_numeric_fields_def Let_def
      split: if_splits sum.splits prod.splits)

subsection \<open>Migration chains\<close>

declare migrate_loop.simps [simp del] write_loop.simps [simp del]

lemma migrate_loop_split:
  "from \<le> mid \<Longrightarrow> mid \<le> target \<Longrightarrow> migrate_loop fns data from target =
    (case migrate_loop fns data from mid of Inl e \<Rightarrow> Inl e | Inr d \<Rightarrow> migrate_loop fns d mid target)"
proof (induction fns data "from" target rule: migrate_loop.induct)
  case (1 fns data c target)
  show ?case
  proof (cases "c < mid")
    case True
    then have "c < target" "c + 1 \<le> mid" using 1(3) by (auto simp: inc_le)
    then show ?thesis using 1 True
      by (simp add: migrate_loop.simps [of fns data c] split: option.split)
  next
    case False
    then have "c = mid" using 1(2) by simp
    then show ?thesis by (simp add: migrate_loop.simps [of fns data mid mid])
  qed
qed

lemma migrate_eq_loop: "from \<le> target \<Longrightarrow> migrate fns data from target = migrate_loop fns data from target"
  by (auto simp: migrate_def migrate_loop.simps [of fns data target target])

subsection \<open>Writing the vault file\<close>

lemma write_loop_spec:
  assumes "fs tmp = Some c"
  shows "case write_loop fs tmp out written script of
     (Completed, fs', _) \<Rightarrow> fs' = fs(tmp \<mapsto> c @ drop written out)
   | (Threw, fs', _) \<Rightarrow> fs' = fs(tmp := None)
   | (Crashed, fs', _) \<Rightarrow> \<exists>c'. fs' = fs(tmp \<mapsto> c')"
  using assms
proof (induction script arbitrary: fs c written)
  case Nil
  then show ?case by (subst write_loop.simps) (auto simp: fun_upd_idem intro!: exI [of _ c])
next
  case (Cons n script)
  show ?case
  proof (cases "written < length out \<and> 0 \<le> n")
    case True
    let ?w = "take (nat n) (drop written out)"
    have d: "?w @ drop (written + nat n) out = drop written out"
      by (metis add.commute append_take_drop_id drop_drop)
    have "write_loop fs tmp out written (n # script) =
        write_loop (fs(tmp \<mapsto> c @ ?w)) tmp out (written + nat n) script"
      using True Cons.prems by (subst write_loop.simps) simp
    moreover have "case write_loop (fs(tmp \<mapsto> c @ ?w)) tmp out (written + nat n) script of
        (Completed, fs', _) \<Rightarrow> fs' = fs(tmp \<mapsto> c @ drop written out)
      | (Threw, fs', _) \<Rightarrow> fs' = fs(tmp := None)
      | (Crashed, fs', _) \<Rightarrow> \<exists>c'. fs' = fs(tmp \<mapsto> c')"
      using Cons.IH [where fs = "fs(tmp \<mapsto> c @ ?w)" and c = "c @ ?w" and written = "written + nat n", OF fun_upd_same]
      unfolding fun_upd_upd append_assoc d .
    ultimately show ?thesis by simp
  next
    case False
    then show ?thesis using Cons.prems by (subst write_loop.simps) (auto simp: fun_upd_idem)
  qed
qed

lemma write_image_spec:
  "case write_image fs tmp path out script of
     (Completed, fs') \<Rightarrow> fs' = fs(path \<mapsto> out, tmp := None)
   | (Threw, fs') \<Rightarrow> fs' = fs \<or> fs' = fs(tmp := None)
   | (Crashed, fs') \<Rightarrow> fs' = fs \<or> (\<exists>c. fs' = fs(tmp \<mapsto> c))"
proof (cases script)
  case (Cons fd rest)
  show ?thesis
  proof (cases "fd < 0")
    case False
    obtain oc fs' rest' where w: "write_loop (fs(tmp \<mapsto> [])) tmp out 0 rest = (oc, fs', rest')"
      by (cases "write_loop (fs(tmp \<mapsto> [])) tmp out 0 rest")
    have s: "case oc of Completed \<Rightarrow> fs' = fs(tmp \<mapsto> out) | Threw \<Rightarrow> fs' = fs(tmp := None)
        | Crashed \<Rightarrow> \<exists>c. fs' = fs(tmp \<mapsto> c)"
      using write_loop_spec [of "fs(tmp \<mapsto> [])" tmp "[]" 0 out rest] w by (simp split: io_outcome.splits)
    show ?thesis
    proof (cases oc)
      case Completed
      then show ?thesis using s w Cons False
        by (cases "(fs', tmp, path, rest')" rule: commit_file.cases)
          (auto simp: write_image_def fun_upd_twist)
    qed (use s w Cons False in \<open>auto simp: write_image_def\<close>)
  qed (simp add: write_image_def Cons)
qed (simp add: write_image_def)

lemma write_image_completes:
  "out \<noteq> [] \<Longrightarrow> 0 \<le> fd \<Longrightarrow> write_image fs tmp path out [fd, int (length out), 0, 0, 0] =
     (Completed, fs(path \<mapsto> out, tmp := None))"
  by (simp add: write_image_def, subst write_loop.simps, simp, subst write_loop.simps)
    (simp add: fun_eq_iff)

subsection \<open>Reading the vault file back\<close>

lemma length_K_VAULT_MAGIC: "length K_VAULT_MAGIC = 8"
  by (simp add: K_VAULT_MAGIC_def)

lemma vault_parse_image:
  assumes "length salt = 16" "length (gcm_nonce enc) = 12" "length (gcm_tag enc) = 16"
    "length (gcm_ciphertext enc) < 2 ^ 64"
  shows "vault_parse (vault_image salt enc) = Inr (salt, K_VAULT_PBKDF2_ITERATIONS, enc)"
  using assms
  by (simp add: vault_parse_def vault_image_def K_VAULT_HEADER_LEN_def length_K_VAULT_MAGIC
      le32.length_put le64.length_put get_le32_append get_le64_append unat_of_nat_len64)

lemma migrate_loop_total:
  "(\<exists>d. migrate_loop fns data current target = Inr d) \<longleftrightarrow>
    (\<forall>v. current \<le> v \<and> v < target \<longrightarrow> fns v \<noteq> None)"
proof (induction fns data current target rule: migrate_loop.induct)
  case (1 fns data c target)
  show ?case
  proof (cases "c < target \<and> fns c \<noteq> None")
    case True
    then obtain f where f: "fns c = Some f" by auto
    have u: "unat (c + 1) = unat c + 1" using True by (metis unat_plus_one)
    have "c \<le> v \<longleftrightarrow> v = c \<or> c + 1 \<le> v" for v
      by (auto simp: word_le_nat_alt u word_unat_eq_iff)
    then have "(\<forall>v. c \<le> v \<and> v < target \<longrightarrow> fns v \<noteq> None) \<longleftrightarrow>
        (\<forall>v. c + 1 \<le> v \<and> v < target \<longrightarrow> fns v \<noteq> None)" using f by auto
    moreover have "migrate_loop fns data c target = migrate_loop fns (f data) (c + 1) target"
      using True f by (subst migrate_loop.simps) simp
    ultimately show ?thesis using 1 [OF _ f] True by simp
  next
    case False
    then show ?thesis by (subst migrate_loop.simps) (auto split: option.splits)
  qed
qed

lemma v_restore_state_fields [simp]:
  "v_label (v_restore_state t b1 b2 b3 b4 b5 m1 m2 m3 b6 b7 kek) = v_label t"
  "v_id (v_restore_state t b1 b2 b3 b4 b5 m1 m2 m3 b6 b7 kek) = v_id t"
  "v_session_count (v_restore_state t b1 b2 b3 b4 b5 m1 m2 m3 b6 b7 kek) = v_session_count t"
  "v_rw_session_count (v_restore_state t b1 b2 b3 b4 b5 m1 m2 m3 b6 b7 kek) = v_rw_session_count t"
  "v_token_initialized (v_restore_state t b1 b2 b3 b4 b5 m1 m2 m3 b6 b7 kek) = b1"
  "v_user_pin_set (v_restore_state t b1 b2 b3 b4 b5 m1 m2 m3 b6 b7 kek) = b2"
  "v_so_pin_set (v_restore_state t b1 b2 b3 b4 b5 m1 m2 m3 b6 b7 kek) = b3"
  "v_user_login_required (v_restore_state t b1 b2 b3 b4 b5 m1 m2 m3 b6 b7 kek) = b4"
  "v_so_login_required (v_restore_state t b1 b2 b3 b4 b5 m1 m2 m3 b6 b7 kek) = b5"
  "v_max_failed_attempts (v_restore_state t b1 b2 b3 b4 b5 m1 m2 m3 b6 b7 kek) = m1"
  "v_user_failed_attempts (v_restore_state t b1 b2 b3 b4 b5 m1 m2 m3 b6 b7 kek) = m2"
  "v_so_failed_attempts (v_restore_state t b1 b2 b3 b4 b5 m1 m2 m3 b6 b7 kek) = m3"
  "v_user_pin_locked (v_restore_state t b1 b2 b3 b4 b5 m1 m2 m3 b6 b7 kek) = b6"
  "v_so_pin_locked (v_restore_state t b1 b2 b3 b4 b5 m1 m2 m3 b6 b7 kek) = b7"
  by (simp_all add: v_restore_state_def Let_def)

lemma new_token_kek_ready:
  "store_inv (v_object_store (new_TokenCore l i c)) \<and> store_room (v_object_store (new_TokenCore l i c)) \<and>
   kek_unique (v_object_store (new_TokenCore l i c))"
proof -
  have "v_get_object new_ObjectStore h = None" for h
    by (simp add: v_get_object_unfold new_ObjectStore_def)
  then show ?thesis
    by (simp add: new_TokenCore_def kek_unique_def store_room_def) (simp add: new_ObjectStore_def)
qed

lemma restore_new_token:
  assumes "length (snap_label s) \<le> 255" "length (snap_id s) \<le> 255" "length (snap_kek s) < 2 ^ 64"
    "snap_max_session_count s = 1024" "snap_max_rw_session_count s = 1024"
  shows "\<exists>t. restore_token_from_snapshot (new_TokenCore l i c) s = Inr t \<and>
    snapshot_from_token t = s\<lparr>snap_label := l, snap_id := i, snap_session_count := 0, snap_rw_session_count := 0\<rparr>"
  using assms new_token_kek_ready [of l i c]
  by (simp add: restore_token_from_snapshot_def snapshot_from_token_def restore_kek not_less)
     (simp add: new_TokenCore_def)

lemma vault_save_cases:
  assumes "vault_save sc fs v salt rnd tmp script payload = (oc, v', fs')"
  shows "(oc = Threw \<and> v' = v \<and> fs' = fs) \<or>
    (\<exists>key enc. password_m v \<noteq> [] \<and> vault_make_key sc v salt K_VAULT_PBKDF2_ITERATIONS = Inr key \<and>
      AESGCM_encrypt sc key rnd payload = Inr enc \<and>
      write_image fs tmp (path_m v) (vault_image salt enc) script = (oc, fs') \<and>
      v' = (if oc = Completed then v\<lparr>valid_m := True\<rparr> else v))"
  using assms by (auto simp: vault_save_def split: if_splits sum.splits prod.splits io_outcome.splits)

lemma gcm_roundtrip:
  assumes "scrypto_ok sc" "length key = 32" "AESGCM_encrypt sc key rnd p = Inr enc"
  shows "AESGCM_decrypt sc key enc = Inr p \<and> length (gcm_nonce enc) = 12 \<and> length (gcm_tag enc) = 16 \<and>
    length (gcm_ciphertext enc) = length p"
proof -
  obtain ct nonce tag where e: "aes256_gcm_encrypt sc key rnd p = (ct, nonce, tag)"
    by (cases "aes256_gcm_encrypt sc key rnd p")
  have "length nonce = 12 \<and> length tag = 16 \<and> length ct = length p \<and>
      aes256_gcm_decrypt sc key ct nonce tag = Some p"
  proof -
    have "case aes256_gcm_encrypt sc key rnd p of (ct, nonce, tag) \<Rightarrow> length nonce = 12 \<and>
        length tag = 16 \<and> length ct = length p \<and> aes256_gcm_decrypt sc key ct nonce tag = Some p"
      using assms(1) [unfolded scrypto_ok_def, THEN conjunct2, rule_format, OF assms(2)] .
    then show ?thesis by (simp add: e)
  qed
  then show ?thesis using assms(2,3) e by (auto simp: AESGCM_encrypt_def AESGCM_decrypt_def)
qed

lemma vault_save_readable:
  assumes "scrypto_ok sc" "length salt = 16" "length payload < 2 ^ 64" "tmp \<noteq> path_m v"
    "vault_save sc fs v salt rnd tmp script payload = (Completed, v', fs')"
  shows "vault_load sc fs' v' = Inr payload \<and>
    vault_open sc fs' (path_m v) (password_m v) = Inr (v'\<lparr>version_vm := K_VAULT_FORMAT_VERSION\<rparr>)"
proof -
  obtain key enc where k: "vault_make_key sc v salt K_VAULT_PBKDF2_ITERATIONS = Inr key"
      "AESGCM_encrypt sc key rnd payload = Inr enc"
      "write_image fs tmp (path_m v) (vault_image salt enc) script = (Completed, fs')"
      "v' = v\<lparr>valid_m := True\<rparr>"
    using vault_save_cases [OF assms(5)] by auto
  have fs': "fs' (path_m v) = Some (vault_image salt enc)"
    using write_image_spec [of fs tmp "path_m v" "vault_image salt enc" script] k(3) assms(4) by simp
  have "length key = 32" using k(1) assms(1)
    by (auto simp: vault_make_key_def derive_vault_key_def scrypto_ok_def split: if_splits)
  then have g: "AESGCM_decrypt sc key enc = Inr payload" "length (gcm_nonce enc) = 12"
      "length (gcm_tag enc) = 16" "length (gcm_ciphertext enc) = length payload"
    using gcm_roundtrip [OF assms(1) _ k(2)] by auto
  have p: "vault_parse (vault_image salt enc) = Inr (salt, K_VAULT_PBKDF2_ITERATIONS, enc)"
    using g assms(2,3) by (simp add: vault_parse_image)
  have m: "derive_vault_key sc (password_m v) salt K_VAULT_PBKDF2_ITERATIONS 32 = Inr key"
    using k(1) by (simp add: vault_make_key_def)
  have i: "K_VAULT_PBKDF2_ITERATIONS \<noteq> 0" by (simp add: K_VAULT_PBKDF2_ITERATIONS_def)
  show ?thesis using fs' p k(4) g(1) i m by (simp add: vault_load_def vault_open_def vault_make_key_def)
qed

subsection \<open>Tokens that were never given a key\<close>

lemma find_new_none: "v_find_object_if new_ObjectStore P = (CK_INVALID_HANDLE, None)"
  by (simp add: v_find_object_if_def v_snapshot_def new_ObjectStore_def)

lemma empty_store_no_kek: "v_object_store t = new_ObjectStore \<Longrightarrow> v_get_kek t = []"
  by (simp add: v_get_kek_def find_new_none)

lemma reachable_store: "token_reachable t \<Longrightarrow> v_object_store t = new_ObjectStore"
proof (induction rule: token_reachable.induct)
  case (restored t t' t'')
  then show ?case
    by (auto simp: restore_token_from_snapshot_def snapshot_from_token_def v_restore_state_def Let_def
        find_new_none empty_store_no_kek split: if_splits)
qed (auto simp: new_TokenCore_def initialize_user_pin_def initialize_so_pin_def set_user_pin_def
    set_so_pin_def change_user_pin_def login_def v_login_def v_verify_user_pin_def v_verify_so_pin_def
    v_initialize_user_pin_def v_initialize_so_pin_def v_set_user_pin_def v_set_so_pin_def
    v_touch_pin_op_def v_set_max_failed_attempts_def Let_def split: sum.splits prod.splits)

subsection \<open>Properties\<close>

text \<open>
  C15. The snapshot format is lossless and rejects truncation: a snapshot within the format's limits
  serialises, reading the bytes returns it, and every proper prefix of the bytes is refused with an
  exception instead of being read out of bounds.
\<close>

theorem snapshot_roundtrip:
  assumes "snapshot_wf s"
  shows "\<exists>bs. serialize_token_snapshot s = Inr bs \<and> deserialize_token_snapshot bs = Inr s \<and>
    (\<forall>k<length bs. deserialize_token_snapshot (take k bs) = Inl runtime_error)"
proof -
  obtain bs where bs: "serialize_token_snapshot s = Inr bs" "deserialize_token_snapshot bs = Inr s"
      "length bs = 63 + length (snap_label s) + length (snap_id s) + length (snap_kek s)"
    using serialize_inverse [OF assms] by auto
  have "deserialize_token_snapshot (take k bs) = Inl runtime_error" if "k < length bs" for k
  proof (cases "deserialize_token_snapshot (take k bs)")
    case (Inr s')
    then have "s' = s" using deserialize_take [of k bs s'] bs(2) that by simp
    then show ?thesis using deserialize_bounds [OF Inr] bs(3) that by simp
  qed (use deserialize_error in blast)
  then show ?thesis using bs by blast
qed

theorem snapshot_roundtrip_witness:
  "\<exists>bs. serialize_token_snapshot (snapshot_from_token (new_TokenCore ''vHSM'' ''0'' 0)) = Inr bs \<and>
     deserialize_token_snapshot (take 10 bs) = Inl runtime_error"
proof -
  have "snapshot_wf (snapshot_from_token (new_TokenCore ''vHSM'' ''0'' 0))"
    by (simp add: snapshot_wf_def snapshot_from_token_def is_bbool_def empty_store_no_kek new_TokenCore_def)
  then obtain bs where "serialize_token_snapshot (snapshot_from_token (new_TokenCore ''vHSM'' ''0'' 0)) = Inr bs"
      "deserialize_token_snapshot bs = Inr (snapshot_from_token (new_TokenCore ''vHSM'' ''0'' 0))"
      "\<forall>k<length bs. deserialize_token_snapshot (take k bs) = Inl runtime_error"
    using snapshot_roundtrip by blast
  moreover from this(2) have "10 < length bs" by (auto dest: deserialize_bounds)
  ultimately show ?thesis by blast
qed

text \<open>
  C16. What is saved can be loaded: with a cipher and a key derivation that behave as documented, a
  completed save leaves a file from which \<open>load\<close> returns the payload, and which the opening
  constructor accepts under the same password.
\<close>

theorem vault_save_load:
  assumes "scrypto_ok sc" and "length salt = 16" and "length payload < 2 ^ 64" and "tmp \<noteq> path_m v"
    and "vault_save sc fs v salt rnd tmp script payload = (Completed, v', fs')"
  shows "vault_load sc fs' v' = Inr payload \<and>
    vault_open sc fs' (path_m v) (password_m v) = Inr (v'\<lparr>version_vm := K_VAULT_FORMAT_VERSION\<rparr>)"
  by (rule vault_save_readable [OF assms])


lemma plain_scrypto_ok: "scrypto_ok plain_scrypto"
  by (simp add: scrypto_ok_def plain_scrypto_def)

lemma plain_save:
  assumes "length payload < 2 ^ 32"
  defines "v \<equiv> \<lparr>path_m = ''vault'', password_m = ''pw'', version_vm = 1, valid_m = False\<rparr>"
    and "enc \<equiv> \<lparr>gcm_ciphertext = payload, gcm_nonce = replicate 12 0, gcm_tag = replicate 16 0\<rparr>"
  shows "vault_save plain_scrypto Map.empty v (replicate 16 1) [] ''tmp''
      [3, int (length (vault_image (replicate 16 1) enc)), 0, 0, 0] payload =
    (Completed, v\<lparr>valid_m := True\<rparr>, Map.empty(''vault'' \<mapsto> vault_image (replicate 16 1) enc))"
proof -
  have "vault_image (replicate 16 1) enc \<noteq> []"
    by (auto simp: vault_image_def K_VAULT_MAGIC_def bytes_of_string_def)
  from write_image_completes [OF this, of 3] show ?thesis
    by (simp add: vault_save_def vault_make_key_def derive_vault_key_def K_VAULT_PBKDF2_ITERATIONS_def
        AESGCM_encrypt_def plain_scrypto_def v_def enc_def)
qed

theorem vault_save_load_witness:
  "\<exists>v' fs'. vault_load plain_scrypto fs' v' = Inr [1, 2, 3] \<and> valid_m v'"
  using vault_save_load [OF plain_scrypto_ok _ _ _ plain_save [of "[1, 2, 3]"]] by force






text \<open>
  Migration terminates and composes: it succeeds exactly when the target is not below the source
  version and every version in between has a migration, and migrating in two stages through any
  intermediate version is migrating at once.
\<close>

lemma migrate_composes:
  "((\<exists>d. migrate fns data from target = Inr d) \<longleftrightarrow>
      from \<le> target \<and> (\<forall>v. from \<le> v \<and> v < target \<longrightarrow> fns v \<noteq> None)) \<and>
   (from \<le> mid \<and> mid \<le> target \<longrightarrow> migrate fns data from target =
      (case migrate fns data from mid of Inl e \<Rightarrow> Inl e | Inr d \<Rightarrow> migrate fns d mid target))"
proof -
  have "(\<exists>d. migrate fns data from target = Inr d) \<longleftrightarrow>
      from \<le> target \<and> (\<forall>v. from \<le> v \<and> v < target \<longrightarrow> fns v \<noteq> None)"
  proof (cases "from \<le> target")
    case True
    then show ?thesis using migrate_loop_total [of fns data "from" target] by (simp add: migrate_eq_loop)
  qed (auto simp: migrate_def)
  moreover have "migrate fns data from target =
      (case migrate fns data from mid of Inl e \<Rightarrow> Inl e | Inr d \<Rightarrow> migrate fns d mid target)"
    if "from \<le> mid" "mid \<le> target"
  proof -
    have "migrate fns d mid target = migrate_loop fns d mid target" for d
      using that by (simp add: migrate_eq_loop)
    then show ?thesis
      using that order_trans [OF that] migrate_loop_split [OF that, of fns data]
      by (simp add: migrate_eq_loop split: sum.splits)
  qed
  ultimately show ?thesis by blast
qed

end
