(* ===== verification/Notification.thy ===== *)
theory Notification
  imports Prelude
begin

text \<open>
  Notification events and the bounded in-process bus: notification/notification\_event.h and
  notification/bounded\_notification\_bus.cpp.  Every member function runs under the mutex of the bus,
  so each is one atomic step.  \<open>pop_timeout\<close> waits until the queue is non-empty or the time is up;
  what the queue looks like when the wait ends is its argument.
\<close>

datatype EventType = SIGN_CREATED | DB_WRITE_FAILED | LEDGER_COMMIT_FAILED | LEDGER_COMMITTED
  | LEDGER_VERIFY_FAILED | VERIFY_COMPLETED | VERIFY_FAILED | ENCRYPT_COMPLETED | DECRYPT_COMPLETED
  | WRAP_KEY_COMPLETED | UNWRAP_KEY_COMPLETED | KEY_ROTATED | KEY_DESTROYED | INTEGRITY_ALERT
  | ADMIN_LOGIN | PIN_LOCKOUT

datatype Severity = INFO | WARNING | CRITICAL

record NotificationEvent =
  ev_type :: EventType
  ev_severity :: Severity
  ev_timestamp :: int
  ev_source :: string
  ev_actor :: string
  ev_summary :: string
  ev_detail_json :: string
  ev_hsm_instance :: string

record BoundedNotificationBus =
  capacity_m :: nat
  queue_m :: "NotificationEvent list"
  dropped_m :: nat

definition new_BoundedNotificationBus :: "nat \<Rightarrow> BoundedNotificationBus" where
  "new_BoundedNotificationBus capacity =
     \<lparr>capacity_m = (if 0 < capacity then capacity else 1), queue_m = [], dropped_m = 0\<rparr>"

definition publish :: "BoundedNotificationBus \<Rightarrow> NotificationEvent \<Rightarrow> BoundedNotificationBus" where
  "publish b event =
     (if capacity_m b \<le> length (queue_m b) then b\<lparr>dropped_m := dropped_m b + 1\<rparr>
      else b\<lparr>queue_m := queue_m b @ [event]\<rparr>)"

definition try_pop :: "BoundedNotificationBus \<Rightarrow> NotificationEvent option \<times> BoundedNotificationBus" where
  "try_pop b = (case queue_m b of
     [] \<Rightarrow> (None, b)
   | e # es \<Rightarrow> (Some e, b\<lparr>queue_m := es\<rparr>))"

definition pop_timeout :: "BoundedNotificationBus \<Rightarrow> NotificationEvent option \<times> BoundedNotificationBus" where
  "pop_timeout b_at_wakeup = (case queue_m b_at_wakeup of
     [] \<Rightarrow> (None, b_at_wakeup)
   | e # es \<Rightarrow> (Some e, b_at_wakeup\<lparr>queue_m := es\<rparr>))"

definition bus_size :: "BoundedNotificationBus \<Rightarrow> nat" where
  "bus_size b = length (queue_m b)"

definition dropped_count :: "BoundedNotificationBus \<Rightarrow> nat" where
  "dropped_count b = dropped_m b"

subsection \<open>Specification notions\<close>

text \<open>A run of the bus: publications and pops in the order in which they take the mutex.\<close>

datatype bus_op = Publish NotificationEvent | TryPop

definition bus_step :: "bus_op \<Rightarrow> BoundedNotificationBus \<times> NotificationEvent list \<Rightarrow> BoundedNotificationBus \<times> NotificationEvent list" where
  "bus_step op = (\<lambda>(b, out). case op of
     Publish e \<Rightarrow> (publish b e, out)
   | TryPop \<Rightarrow> (case try_pop b of (None, b') \<Rightarrow> (b', out) | (Some e, b') \<Rightarrow> (b', out @ [e])))"

definition bus_run :: "bus_op list \<Rightarrow> BoundedNotificationBus \<Rightarrow> BoundedNotificationBus \<times> NotificationEvent list" where
  "bus_run ops b = fold bus_step ops (b, [])"

text \<open>The events a run accepts: those published while the queue is below its capacity.\<close>

primrec accepted :: "nat \<Rightarrow> nat \<Rightarrow> bus_op list \<Rightarrow> NotificationEvent list" where
  "accepted cap n [] = []"
| "accepted cap n (op # ops) = (case op of
     Publish e \<Rightarrow> if cap \<le> n then accepted cap n ops else e # accepted cap (n + 1) ops
   | TryPop \<Rightarrow> accepted cap (n - 1) ops)"

definition published :: "bus_op list \<Rightarrow> NotificationEvent list" where
  "published ops = [e. Publish e \<leftarrow> ops]"

definition bus_inv :: "BoundedNotificationBus \<Rightarrow> bool" where
  "bus_inv b = (0 < capacity_m b \<and> length (queue_m b) \<le> capacity_m b)"

subsection \<open>The queue interface\<close>

text \<open>
  What a consumer of a bounded queue relies on: a publication either appends to the pending events or
  is counted as dropped, a pop takes the oldest one, and the number pending is bounded.
\<close>

locale event_queue =
  fixes put :: "'q \<Rightarrow> 'e \<Rightarrow> 'q" and pop :: "'q \<Rightarrow> 'e option \<times> 'q"
    and pending :: "'q \<Rightarrow> 'e list" and lost :: "'q \<Rightarrow> nat" and limit :: "'q \<Rightarrow> nat"
  assumes put_pending: "pending (put q e) = (if length (pending q) < limit q then pending q @ [e] else pending q)"
    and put_lost: "lost (put q e) = (if length (pending q) < limit q then lost q else lost q + 1)"
    and put_limit: "limit (put q e) = limit q"
    and pop_result: "fst (pop q) = (case pending q of [] \<Rightarrow> None | e # _ \<Rightarrow> Some e)"
    and pop_pending: "pending (snd (pop q)) = tl (pending q)"
    and pop_lost: "lost (snd (pop q)) = lost q"
    and pop_limit: "limit (snd (pop q)) = limit q"
begin

lemma bounded_put: "length (pending q) \<le> limit q \<Longrightarrow> length (pending (put q e)) \<le> limit (put q e)"
  by (auto simp: put_pending put_limit)

lemma bounded_pop: "length (pending q) \<le> limit q \<Longrightarrow> length (pending (snd (pop q))) \<le> limit (snd (pop q))"
  by (simp add: pop_pending pop_limit)

lemma put_conserves: "length (pending (put q e)) + lost (put q e) = length (pending q) + lost q + 1"
  by (simp add: put_pending put_lost)

lemma drain: "pending (((\<lambda>s. snd (pop s)) ^^ n) q) = drop n (pending q)"
  by (induction n) (simp_all add: pop_pending drop_Suc tl_drop)

end

interpretation bounded_bus: event_queue publish try_pop queue_m dropped_m capacity_m
  by unfold_locales (auto simp: publish_def try_pop_def split: list.splits)

lemma bus_step_inv: "bus_inv b \<Longrightarrow> bus_inv (fst (bus_step op (b, out)))"
  by (auto simp: bus_step_def bus_inv_def publish_def try_pop_def split: bus_op.splits list.splits)

lemma bus_step_acc:
  "bus_step op (b, out) = (fst (bus_step op (b, [])), out @ snd (bus_step op (b, [])))"
  by (simp add: bus_step_def try_pop_def split: bus_op.splits list.splits)

lemma fold_bus_step:
  "fold bus_step ops (b, out) = (fst (fold bus_step ops (b, [])), out @ snd (fold bus_step ops (b, [])))"
proof (induction ops arbitrary: b out)
  case (Cons op ops)
  obtain b' out' where s: "bus_step op (b, []) = (b', out')" by fastforce
  then have o: "bus_step op (b, out) = (b', out @ out')" using bus_step_acc [of op b out] by simp
  show ?case using Cons [of b' "out @ out'"] Cons [of b' out'] s o by simp
qed simp

lemma bus_run_order:
  assumes "bus_inv b"
  shows "case bus_run ops b of (b', out) \<Rightarrow>
           out @ queue_m b' = queue_m b @ accepted (capacity_m b) (length (queue_m b)) ops \<and>
           capacity_m b' = capacity_m b \<and> bus_inv b' \<and>
           dropped_m b' + length (accepted (capacity_m b) (length (queue_m b)) ops) =
             dropped_m b + length (published ops)"
  using assms
proof (induction ops arbitrary: b)
  case Nil
  then show ?case by (simp add: bus_run_def published_def)
next
  case (Cons op ops)
  obtain b1 o1 where s: "bus_step op (b, []) = (b1, o1)" by fastforce
  obtain b2 o2 where r: "fold bus_step ops (b1, []) = (b2, o2)" by fastforce
  have run: "bus_run (op # ops) b = (b2, o1 @ o2)"
    using fold_bus_step [of ops b1 o1] s r by (simp add: bus_run_def)
  have inv: "bus_inv b1" using bus_step_inv [OF Cons.prems, of op "[]"] s by simp
  have ih: "o2 @ queue_m b2 = queue_m b1 @ accepted (capacity_m b1) (length (queue_m b1)) ops"
    "capacity_m b2 = capacity_m b1" "bus_inv b2"
    "dropped_m b2 + length (accepted (capacity_m b1) (length (queue_m b1)) ops) =
      dropped_m b1 + length (published ops)"
    using Cons.IH [OF inv] r by (simp_all add: bus_run_def)
  show ?case
  proof (cases op)
    case (Publish e)
    then show ?thesis using s ih run by (auto simp: bus_step_def publish_def published_def split: if_splits)
  next
    case TryPop
    then show ?thesis using s ih run
      by (auto simp: bus_step_def try_pop_def published_def split: list.splits)
  qed
qed

lemma accepted_pops: "accepted cap k (ops @ replicate n TryPop) = accepted cap k ops"
proof (induction ops arbitrary: k)
  case Nil
  show ?case by (induction n arbitrary: k) simp_all
qed (simp split: bus_op.splits)

lemma published_pops: "published (ops @ replicate n TryPop) = published ops"
  by (simp add: published_def)

lemma run_pops: "fst (fold bus_step (replicate n TryPop) (b, out)) = ((\<lambda>s. snd (try_pop s)) ^^ n) b"
proof (induction n arbitrary: b out)
  case (Suc n)
  have "fst (bus_step TryPop (b, out)) = snd (try_pop b)"
    by (simp add: bus_step_def split: prod.splits option.splits)
  then show ?case using Suc [of "snd (try_pop b)"] by (cases "bus_step TryPop (b, out)") (simp add: funpow_swap1 [of "\<lambda>s. snd (try_pop s)"])
qed simp

subsection \<open>Delivery\<close>

text \<open>
  C24.  The bus delivers what it accepts: for every interleaving of publications and pops on a fresh bus
  of any requested capacity, the events delivered so far followed by those still queued are exactly
  the accepted events in publication order, every publication is either accepted or counted as
  dropped, and the queue never exceeds the capacity; once publications stop, capacity many further
  pops deliver all accepted events.
\<close>

theorem bus_delivery:
  "case bus_run (ops @ replicate n TryPop) (new_BoundedNotificationBus capacity) of (b, out) \<Rightarrow>
     out @ queue_m b = accepted (max capacity 1) 0 ops \<and>
     dropped_count b + length (accepted (max capacity 1) 0 ops) = length (published ops) \<and>
     bus_size b \<le> max capacity 1 \<and>
     (max capacity 1 \<le> n \<longrightarrow> out = accepted (max capacity 1) 0 ops)"
proof -
  let ?b0 = "new_BoundedNotificationBus capacity"
  have i: "bus_inv ?b0" and c: "capacity_m ?b0 = max capacity 1" "queue_m ?b0 = []" "dropped_m ?b0 = 0"
    by (simp_all add: new_BoundedNotificationBus_def bus_inv_def)
  obtain b out where r: "bus_run (ops @ replicate n TryPop) ?b0 = (b, out)" by fastforce
  obtain b1 o1 where r1: "bus_run ops ?b0 = (b1, o1)" by fastforce
  have all: "out @ queue_m b = accepted (max capacity 1) 0 ops" "bus_inv b" "capacity_m b = max capacity 1"
    "dropped_m b + length (accepted (max capacity 1) 0 ops) = length (published ops)"
    using bus_run_order [OF i, of "ops @ replicate n TryPop"] r c
    by (simp_all add: accepted_pops published_pops)
  have "length (queue_m b1) \<le> max capacity 1" using bus_run_order [OF i, of ops] r1 c by (simp add: bus_inv_def)
  moreover have "queue_m b = drop n (queue_m b1)"
    using run_pops [of n b1 o1] bounded_bus.drain [of n b1] r r1 by (simp add: bus_run_def)
  ultimately have "max capacity 1 \<le> n \<Longrightarrow> queue_m b = []" by auto
  then show ?thesis using all r by (auto simp: dropped_count_def bus_size_def bus_inv_def)
qed

definition sample_event :: NotificationEvent where
  "sample_event = \<lparr>ev_type = PIN_LOCKOUT, ev_severity = WARNING, ev_timestamp = 0, ev_source = ''s'',
     ev_actor = ''a'', ev_summary = [], ev_detail_json = [], ev_hsm_instance = []\<rparr>"

theorem bus_delivery_witness:
  "snd (bus_run ([Publish sample_event, Publish sample_event] @ replicate 1 TryPop)
     (new_BoundedNotificationBus 1)) = [sample_event]"
  using bus_delivery [where ops = "[Publish sample_event, Publish sample_event]" and n = 1 and capacity = 1]
  by (simp add: split: prod.splits)

end
