(* ===== verification/SignatureStore.thy ===== *)
theory SignatureStore
  imports Persistence Notification
begin

text \<open>
  The signature store: row integrity (signature\_store/row\_integrity.cpp, db\_hmac\_key.cpp), the
  dispatcher (signature\_store/signature\_dispatcher.cpp with its core), the repository
  (signature\_repository.cpp), the retry queue (ledger\_retry\_queue.cpp), the outbox poller
  (outbox\_poller.cpp) and the verification service (verification\_service\_core.cpp).

  The database is external.  Its two tables used here are lists of rows, with the constraints of
  signature\_store/db\_schema.cpp: the identifier is the primary key and the ledger status is one of
  PENDING, COMMITTED and FAILED; a statement that violates one fails.  Whether the database accepts a
  statement at all is an argument.  A column is its text, as DbRow returns it.  HMAC-SHA256, the key
  derivation from the key encryption key, identifiers and clock are arguments, and so is the
  post-quantum companion signature (the triple of algorithm, signature and public key texts, empty
  without a paired key).
\<close>

subsection \<open>Rows\<close>

text \<open>The eighteen columns under the integrity code, the code itself, and the post-quantum columns.\<close>

record SigRow =
  sr_cols :: "string list"
  sr_hmac :: string
  sr_pqc :: "string list"

record OutboxRow =
  ob_id :: string
  ob_created_at :: int
  ob_event_type :: string
  ob_aggregate_id :: string
  ob_payload :: string
  ob_status :: string

record Db =
  signature_records :: "SigRow list"
  event_outbox :: "OutboxRow list"

definition row_id :: "SigRow \<Rightarrow> string" where
  "row_id r = sr_cols r ! 0"

definition row_status :: "SigRow \<Rightarrow> string" where
  "row_status r = sr_cols r ! 17"

definition status_allowed :: "string \<Rightarrow> bool" where
  "status_allowed s = (s \<in> {''PENDING'', ''COMMITTED'', ''FAILED''})"

definition insert_signature :: "SigRow \<Rightarrow> Db \<Rightarrow> Db option" where
  "insert_signature r db =
     (if row_id r \<in> row_id ` set (signature_records db) \<or> \<not> status_allowed (row_status r) then None
      else Some (db\<lparr>signature_records := signature_records db @ [r]\<rparr>))"

text \<open>An UPDATE of the rows that satisfy a condition; it fails when a new row violates the status check.\<close>

definition update_signatures :: "(SigRow \<Rightarrow> bool) \<Rightarrow> (SigRow \<Rightarrow> SigRow) \<Rightarrow> Db \<Rightarrow> (nat \<times> Db) option" where
  "update_signatures cond f db =
     (let rows = signature_records db in
      if \<exists>r\<in>set rows. cond r \<and> \<not> status_allowed (row_status (f r)) then None
      else Some (length (filter cond rows), db\<lparr>signature_records := map (\<lambda>r. if cond r then f r else r) rows\<rparr>))"

definition select_signature :: "string \<Rightarrow> Db \<Rightarrow> SigRow option" where
  "select_signature i db = find (\<lambda>r. row_id r = i) (signature_records db)"

subsection \<open>Row integrity\<close>

definition be32 :: "u32 \<Rightarrow> bytes" where
  "be32 v = [ucast (drop_bit 24 v AND 0xFF), ucast (drop_bit 16 v AND 0xFF), ucast (drop_bit 8 v AND 0xFF), ucast (v AND 0xFF)]"

definition hmac_field :: "string option \<Rightarrow> bytes" where
  "hmac_field opt = (case opt of
     None \<Rightarrow> be32 0
   | Some s \<Rightarrow> be32 (of_nat (length s)) @ bytes_of_string s)"

record HmacEnv =
  he_hmac :: "bytes \<Rightarrow> bytes \<Rightarrow> bytes"
  he_derive_db_hmac_key :: "bytes \<Rightarrow> bytes"
  he_kek :: bytes

definition get_key :: "HmacEnv \<Rightarrow> bytes" where
  "get_key he = (if he_kek he = [] then [] else he_derive_db_hmac_key he (he_kek he))"

definition compute_hmac :: "HmacEnv \<Rightarrow> string option list \<Rightarrow> cpp_exn + string" where
  "compute_hmac he column_values =
     (let key = get_key he in
      if key = [] then Inl runtime_error
      else Inr (hex_encode (he_hmac he key (concat (map hmac_field column_values)))))"

definition verify_hmac :: "HmacEnv \<Rightarrow> string option list \<Rightarrow> string option \<Rightarrow> bool" where
  "verify_hmac he column_values stored_hmac = (case stored_hmac of
     None \<Rightarrow> False
   | Some stored \<Rightarrow>
       if stored = [] then False
       else (case compute_hmac he column_values of
           Inl _ \<Rightarrow> False
         | Inr computed \<Rightarrow>
             if computed = [] then False
             else if length computed \<noteq> length stored then False
             else computed = stored))"

subsection \<open>Dispatcher\<close>

record SignResult =
  res_signature :: bytes
  res_mechanism_str :: string
  res_digest_alg :: string
  res_payload_digest :: string
  res_payload_size :: nat

record DispatchInput =
  di_sign_result :: SignResult
  di_created_at :: int
  di_slot_id :: int
  di_token_label :: string
  di_key_id :: string
  di_key_fingerprint :: string
  di_mechanism :: string
  di_digest_algorithm :: string
  di_session_handle :: string
  di_user_label :: "string option"
  di_app_context :: "string option"

record SignatureRecord =
  rec_record_id :: string
  rec_created_at :: int
  rec_slot_id :: int
  rec_token_label :: string
  rec_key_id :: string
  rec_key_fingerprint :: string
  rec_mechanism :: string
  rec_digest_algorithm :: string
  rec_payload_digest :: string
  rec_signature_b64 :: string
  rec_payload_size :: nat
  rec_session_handle :: string
  rec_user_label :: "string option"
  rec_app_context :: "string option"
  rec_ledger_tx_id :: "string option"
  rec_ledger_block_num :: "int option"
  rec_ledger_status :: string
  rec_pqc_algo :: string
  rec_signature_pqc_b64 :: "string option"
  rec_key_fingerprint_pqc :: "string option"

record DispatchEnv =
  de_hmac :: HmacEnv
  de_signature_id :: string
  de_outbox_id :: string
  de_now :: int
  de_instance :: string
  de_pqc :: "string list"
  de_db_ok :: bool

text \<open>\<open>std::to_string\<close> of a signed integer.\<close>

definition int_text :: "int \<Rightarrow> string" where
  "int_text i = (if i < 0 then ''-'' @ to_string (nat (- i)) else to_string (nat i))"

definition opt_text :: "string option \<Rightarrow> string" where
  "opt_text o' = (case o' of None \<Rightarrow> [] | Some s \<Rightarrow> s)"

definition opt_nonempty :: "string \<Rightarrow> string option" where
  "opt_nonempty s = (if s = [] then None else Some s)"

text \<open>\<open>std::strtoll\<close> on the text of an integer column.\<close>

definition strtoll :: "string \<Rightarrow> int" where
  "strtoll s = (if s \<noteq> [] \<and> hd s = CHR ''-'' then - int (string_value (takeWhile is_digit_char (tl s)))
     else int (string_value (takeWhile is_digit_char s)))"

definition dispatch_opt_cols :: "string \<Rightarrow> DispatchInput \<Rightarrow> string \<Rightarrow> string option list" where
  "dispatch_opt_cols signature_id input signature_b64 =
     map Some [signature_id, int_text (di_created_at input), int_text (di_slot_id input), di_token_label input,
       di_key_id input, di_key_fingerprint input, di_mechanism input, res_payload_digest (di_sign_result input),
       signature_b64, di_session_handle input] @
     [di_user_label input, di_app_context input] @
     map Some [[], ''0'', [], [], [], ''PENDING'']"

text \<open>The two inserts of one transaction: the signature row and its outbox event.\<close>

definition dispatch_transaction :: "DispatchEnv \<Rightarrow> DispatchInput \<Rightarrow> string \<Rightarrow> Db \<Rightarrow> Db option" where
  "dispatch_transaction de input signature_b64 db =
     (let opt_cols = dispatch_opt_cols (de_signature_id de) input signature_b64;
          integrity_hmac = (case compute_hmac (de_hmac de) opt_cols of Inl _ \<Rightarrow> [] | Inr h \<Rightarrow> h);
          row = \<lparr>sr_cols = map opt_text opt_cols, sr_hmac = integrity_hmac, sr_pqc = de_pqc de\<rparr>;
          payload = ''{\"signature_id\":\"'' @ de_signature_id de @ ''\",\"key_id\":\"'' @ di_key_id input @ ''\"}'';
          event = \<lparr>ob_id = de_outbox_id de, ob_created_at = de_now de, ob_event_type = ''SIGN_CREATED'',
            ob_aggregate_id = de_signature_id de, ob_payload = payload, ob_status = ''PENDING''\<rparr> in
      if \<not> de_db_ok de then None
      else case insert_signature row db of
        None \<Rightarrow> None
      | Some db1 \<Rightarrow>
          if de_outbox_id de \<in> ob_id ` set (event_outbox db1) then None
          else Some (db1\<lparr>event_outbox := event_outbox db1 @ [event]\<rparr>))"

definition dispatch_record :: "DispatchEnv \<Rightarrow> DispatchInput \<Rightarrow> string \<Rightarrow> SignatureRecord" where
  "dispatch_record de input signature_b64 =
     \<lparr>rec_record_id = de_signature_id de, rec_created_at = di_created_at input, rec_slot_id = di_slot_id input,
      rec_token_label = di_token_label input, rec_key_id = di_key_id input,
      rec_key_fingerprint = di_key_fingerprint input, rec_mechanism = di_mechanism input,
      rec_digest_algorithm = di_digest_algorithm input,
      rec_payload_digest = res_payload_digest (di_sign_result input), rec_signature_b64 = signature_b64,
      rec_payload_size = length (res_signature (di_sign_result input)),
      rec_session_handle = di_session_handle input, rec_user_label = di_user_label input,
      rec_app_context = di_app_context input, rec_ledger_tx_id = None, rec_ledger_block_num = None,
      rec_ledger_status = ''PENDING'', rec_pqc_algo = de_pqc de ! 0,
      rec_signature_pqc_b64 = opt_nonempty (de_pqc de ! 1),
      rec_key_fingerprint_pqc = opt_nonempty (de_pqc de ! 2)\<rparr>"

text \<open>The result, the database, the bus, and the record handed to the ledger worker when there is one.\<close>

definition v_dispatch ::
  "DispatchEnv \<Rightarrow> bool \<Rightarrow> DispatchInput \<Rightarrow> Db \<Rightarrow> BoundedNotificationBus \<Rightarrow>
   bool \<times> Db \<times> BoundedNotificationBus \<times> SignatureRecord option" where
  "v_dispatch de has_ledger_worker input db bus =
     (let signature_b64 = base64_encode (res_signature (di_sign_result input)) in
      case dispatch_transaction de input signature_b64 db of
        None \<Rightarrow>
          (False, db, publish bus \<lparr>ev_type = DB_WRITE_FAILED, ev_severity = CRITICAL, ev_timestamp = de_now de,
             ev_source = ''slot:'' @ int_text (di_slot_id input) @ ''/token:'' @ di_token_label input,
             ev_actor = (case di_user_label input of None \<Rightarrow> ''UNKNOWN'' | Some u \<Rightarrow> u),
             ev_summary = ''Failed to write signature record to DB'', ev_detail_json = ''{}'',
             ev_hsm_instance = de_instance de\<rparr>, None)
      | Some db' \<Rightarrow>
          (True, db', bus, if has_ledger_worker then Some (dispatch_record de input signature_b64) else None))"

definition dispatch ::
  "DispatchEnv \<Rightarrow> bool \<Rightarrow> DispatchInput \<Rightarrow> Db \<Rightarrow> BoundedNotificationBus \<Rightarrow>
   bool \<times> Db \<times> BoundedNotificationBus \<times> SignatureRecord option" where
  "dispatch de has_ledger_worker input db bus =
     (if res_signature (di_sign_result input) = [] \<or> di_key_fingerprint input = [] \<or> di_mechanism input = []
      then (False, db, bus, None)
      else v_dispatch de has_ledger_worker input db bus)"

subsection \<open>Repository\<close>

record LedgerEntry =
  le_record_id :: string
  le_key_fingerprint :: string
  le_payload_digest :: string
  le_signature_b64 :: string
  le_created_at :: int
  le_tx_id :: string
  le_block_number :: int

text \<open>The row inserted outside a dispatch: no integrity code and no companion signature.\<close>

definition insert_record :: "bool \<Rightarrow> string \<Rightarrow> SignatureRecord \<Rightarrow> Db \<Rightarrow> string option \<times> Db" where
  "insert_record db_ok id' r db =
     (let column_values = [id', int_text (rec_created_at r), int_text (rec_slot_id r), rec_token_label r, rec_key_id r,
            rec_key_fingerprint r, rec_mechanism r, rec_payload_digest r, rec_signature_b64 r, rec_session_handle r,
            opt_text (rec_user_label r), opt_text (rec_app_context r), [], ''0'', [], [], [], ''PENDING''] in
      if \<not> db_ok then (None, db)
      else case insert_signature \<lparr>sr_cols = column_values, sr_hmac = [], sr_pqc = [[], [], []]\<rparr> db of
        None \<Rightarrow> (None, db)
      | Some db' \<Rightarrow> (Some id', db'))"

text \<open>\<open>q_ok\<close> and \<open>x_ok\<close> tell whether the database accepts the SELECT and the UPDATE.\<close>

definition recompute_integrity_hmac :: "HmacEnv \<Rightarrow> bool \<Rightarrow> bool \<Rightarrow> string \<Rightarrow> Db \<Rightarrow> bool \<times> Db" where
  "recompute_integrity_hmac he q_ok x_ok signature_id db =
     (if \<not> q_ok then (False, db)
      else case select_signature signature_id db of
        None \<Rightarrow> (False, db)
      | Some row \<Rightarrow> (case compute_hmac he (map Some (sr_cols row)) of
          Inl _ \<Rightarrow> (False, db)
        | Inr hmac \<Rightarrow>
            if \<not> x_ok then (False, db)
            else case update_signatures (\<lambda>r. row_id r = signature_id) (\<lambda>r. r\<lparr>sr_hmac := hmac\<rparr>) db of
              None \<Rightarrow> (False, db)
            | Some (_, db') \<Rightarrow> (True, db')))"

definition update_ledger_fields :: "HmacEnv \<Rightarrow> bool \<Rightarrow> bool \<Rightarrow> bool \<Rightarrow> string \<Rightarrow> LedgerEntry \<Rightarrow> Db \<Rightarrow> bool \<times> Db" where
  "update_ledger_fields he u_ok q_ok x_ok signature_id entry db =
     (if \<not> u_ok then (False, db)
      else case update_signatures (\<lambda>r. row_id r = signature_id)
          (\<lambda>r. r\<lparr>sr_cols := (sr_cols r)[12 := le_tx_id entry, 13 := int_text (le_block_number entry), 17 := ''COMMITTED'']\<rparr>) db of
        None \<Rightarrow> (False, db)
      | Some (n, db') \<Rightarrow>
          if n = 0 then (False, db')
          else (True, snd (recompute_integrity_hmac he q_ok x_ok signature_id db')))"

definition mark_processing :: "bool \<Rightarrow> string \<Rightarrow> Db \<Rightarrow> bool \<times> Db" where
  "mark_processing db_ok signature_id db =
     (if \<not> db_ok then (False, db)
      else case update_signatures (\<lambda>r. row_id r = signature_id \<and> row_status r = ''PENDING'')
          (\<lambda>r. r\<lparr>sr_cols := (sr_cols r)[17 := ''PROCESSING'']\<rparr>) db of
        None \<Rightarrow> (False, db)
      | Some (_, db') \<Rightarrow> (True, db'))"

definition verify_integrity :: "HmacEnv \<Rightarrow> bool \<Rightarrow> string \<Rightarrow> Db \<Rightarrow> bool" where
  "verify_integrity he db_ok signature_id db =
     (if \<not> db_ok then False
      else case select_signature signature_id db of
        None \<Rightarrow> False
      | Some row \<Rightarrow> verify_hmac he (map Some (take 18 (sr_cols row))) (Some (sr_hmac row)))"

text \<open>The columns read back: an empty text and a zero block number count as NULL.\<close>

definition get_by_id :: "bool \<Rightarrow> string \<Rightarrow> Db \<Rightarrow> string option list option" where
  "get_by_id db_ok signature_id db =
     (if \<not> db_ok then None
      else case select_signature signature_id db of
        None \<Rightarrow> None
      | Some row \<Rightarrow> Some (map (\<lambda>(i, v). if i = 13 \<and> v = ''0'' then None else if v = [] then None else Some v)
          (enumerate 0 (sr_cols row @ sr_pqc row))))"

definition get_all_ids :: "bool \<Rightarrow> Db \<Rightarrow> string list" where
  "get_all_ids db_ok db =
     (if \<not> db_ok then []
      else map row_id (sort_key (\<lambda>r. strtoll (sr_cols r ! 1)) (signature_records db)))"

subsection \<open>Retry queue\<close>

definition scan_pending_ids :: "bool \<Rightarrow> Db \<Rightarrow> string list" where
  "scan_pending_ids db_ok db =
     (if \<not> db_ok then [] else map row_id (filter (\<lambda>r. row_status r = ''PENDING'') (signature_records db)))"

definition record_of_row :: "SigRow \<Rightarrow> SignatureRecord" where
  "record_of_row row =
     \<lparr>rec_record_id = sr_cols row ! 0, rec_created_at = strtoll (sr_cols row ! 1), rec_slot_id = sint (word_of_int (strtoll (sr_cols row ! 2)) :: 32 word),
      rec_token_label = sr_cols row ! 3, rec_key_id = sr_cols row ! 4, rec_key_fingerprint = sr_cols row ! 5,
      rec_mechanism = sr_cols row ! 6, rec_digest_algorithm = [], rec_payload_digest = sr_cols row ! 7,
      rec_signature_b64 = sr_cols row ! 8, rec_payload_size = length (sr_cols row ! 8),
      rec_session_handle = sr_cols row ! 9, rec_user_label = opt_nonempty (sr_cols row ! 10),
      rec_app_context = opt_nonempty (sr_cols row ! 11),
      rec_ledger_tx_id = None, rec_ledger_block_num = None,
      rec_ledger_status = (if sr_cols row ! 17 = [] then ''PENDING'' else sr_cols row ! 17),
      rec_pqc_algo = [], rec_signature_pqc_b64 = None, rec_key_fingerprint_pqc = None\<rparr>"

definition load_pending_record :: "bool \<Rightarrow> string \<Rightarrow> Db \<Rightarrow> SignatureRecord option" where
  "load_pending_record db_ok signature_id db =
     (if \<not> db_ok then None else map_option record_of_row (select_signature signature_id db))"

definition load_pending_records :: "bool \<Rightarrow> Db \<Rightarrow> SignatureRecord list" where
  "load_pending_records db_ok db =
     (if \<not> db_ok then [] else map record_of_row (filter (\<lambda>r. row_status r = ''PENDING'') (signature_records db)))"

subsection \<open>Outbox poller\<close>

definition replay_event :: "int \<Rightarrow> string \<Rightarrow> OutboxRow \<Rightarrow> NotificationEvent" where
  "replay_event now instance row =
     \<lparr>ev_type = (if ob_event_type row = ''DB_WRITE_FAILED'' then DB_WRITE_FAILED else SIGN_CREATED),
      ev_severity = INFO, ev_timestamp = now, ev_source = ''outbox:'' @ ob_id row, ev_actor = ''system'',
      ev_summary = ''Outbox replay: '' @ ob_event_type row @ '' '' @ ob_id row, ev_detail_json = ob_payload row,
      ev_hsm_instance = instance\<rparr>"

text \<open>The rows selected by one poll: pending, oldest first, at most thirty-two.\<close>

definition select_pending :: "Db \<Rightarrow> OutboxRow list" where
  "select_pending db =
     take 32 (sort_key ob_created_at (filter (\<lambda>r. ob_status r = ''PENDING'') (event_outbox db)))"

text \<open>\<open>query_ok\<close> and \<open>mark_ok\<close> tell whether the database accepts the SELECT and the UPDATE.\<close>

definition poll_once ::
  "int \<Rightarrow> string \<Rightarrow> bool \<Rightarrow> bool \<Rightarrow> Db \<times> BoundedNotificationBus \<Rightarrow> Db \<times> BoundedNotificationBus" where
  "poll_once now instance query_ok mark_ok = (\<lambda>(db, bus).
     if \<not> query_ok then (db, bus)
     else let rows = select_pending db in
       if rows = [] then (db, bus)
       else if \<not> mark_ok then (db, bus)
       else let ids = map ob_id rows;
                db' = db\<lparr>event_outbox := map (\<lambda>r. if ob_id r \<in> set ids then r\<lparr>ob_status := ''DISPATCHED''\<rparr> else r)
                  (event_outbox db)\<rparr> in
         (db', fold (\<lambda>r b. publish b (replay_event now instance r)) rows bus))"

subsection \<open>Verification service\<close>

record VerificationResult =
  vr_local_record_exists :: bool
  vr_ledger_record_exists :: bool
  vr_payload_digest_match :: bool
  vr_signature_b64_match :: bool
  vr_key_fingerprint_match :: bool
  vr_integrity_hmac_ok :: bool
  vr_error_detail :: "string option"
  vr_ledger_tx_id :: "string option"
  vr_ledger_block_num :: "int option"

definition empty_result :: VerificationResult where
  "empty_result = \<lparr>vr_local_record_exists = False, vr_ledger_record_exists = False, vr_payload_digest_match = False,
     vr_signature_b64_match = False, vr_key_fingerprint_match = False, vr_integrity_hmac_ok = False,
     vr_error_detail = None, vr_ledger_tx_id = None, vr_ledger_block_num = None\<rparr>"

definition get_int_safe :: "string option \<Rightarrow> int option" where
  "get_int_safe opt = (case opt of
     None \<Rightarrow> None
   | Some s \<Rightarrow>
       if s = [] then None
       else let digits = (if hd s = CHR ''-'' then tl s else s);
                v = strtoll s in
         if takeWhile is_digit_char digits = [] \<or> v < - (2 ^ 63) \<or> 2 ^ 63 \<le> v then None else Some v)"

text \<open>\<open>get_ok\<close> and \<open>hmac_read_ok\<close> tell whether the database answers the two reads.\<close>

text \<open>\<open>ledger\<close> is the record lookup of the ledger client, absent when none is configured.\<close>

definition v_verify ::
  "HmacEnv \<Rightarrow> bool \<Rightarrow> bool \<Rightarrow> (string \<Rightarrow> LedgerEntry option) option \<Rightarrow> Db \<Rightarrow> string \<Rightarrow> bool \<Rightarrow> VerificationResult" where
  "v_verify he get_ok hmac_read_ok ledger db signature_id check_ledger =
     (case get_by_id get_ok signature_id db of
        None \<Rightarrow> empty_result\<lparr>vr_error_detail := Some ''Signature record not found in local DB''\<rparr>
      | Some local_row \<Rightarrow>
          let hmac_ok = verify_integrity he hmac_read_ok signature_id db;
              result = empty_result\<lparr>vr_local_record_exists := True, vr_integrity_hmac_ok := hmac_ok,
                vr_error_detail := (if hmac_ok then None
                  else Some ''Local record integrity HMAC verification failed'')\<rparr> in
          if \<not> check_ledger then result
          else case ledger of
            None \<Rightarrow> result\<lparr>vr_error_detail := Some (''ledger client not configured '' @ [CHR 0xE2, CHR 0x80, CHR 0x94] @ '' ledger cross-check skipped'')\<rparr>
          | Some get_record \<Rightarrow> (case local_row ! 12 of
              None \<Rightarrow> result\<lparr>vr_error_detail := Some ''No ledger transaction ID in local record''\<rparr>
            | Some tx \<Rightarrow> (case get_record tx of
                None \<Rightarrow> result\<lparr>vr_error_detail := Some ''Ledger record not found for transaction ID''\<rparr>
              | Some entry \<Rightarrow> result\<lparr>vr_ledger_record_exists := True, vr_ledger_tx_id := Some tx,
                  vr_ledger_block_num := get_int_safe (local_row ! 13),
                  vr_payload_digest_match := (le_payload_digest entry = opt_text (local_row ! 7)),
                  vr_signature_b64_match := (le_signature_b64 entry = opt_text (local_row ! 8)),
                  vr_key_fingerprint_match := (le_key_fingerprint entry = opt_text (local_row ! 5))\<rparr>)))"

definition verify_signature ::
  "HmacEnv \<Rightarrow> bool \<Rightarrow> bool \<Rightarrow> (string \<Rightarrow> LedgerEntry option) option \<Rightarrow> Db \<Rightarrow> string \<Rightarrow> bool \<Rightarrow> VerificationResult" where
  "verify_signature he get_ok hmac_read_ok ledger db signature_id check_ledger =
     (if signature_id = [] then empty_result\<lparr>vr_error_detail := Some ''signature_id must not be empty''\<rparr>
      else v_verify he get_ok hmac_read_ok ledger db signature_id check_ledger)"

subsection \<open>Specification notions\<close>

text \<open>Well-formed tables: identifiers unique, eighteen columns, an allowed status in every row.\<close>

definition db_inv :: "Db \<Rightarrow> bool" where
  "db_inv db =
     (distinct (map row_id (signature_records db)) \<and> distinct (map ob_id (event_outbox db)) \<and>
      (\<forall>r\<in>set (signature_records db). length (sr_cols r) = 18 \<and> status_allowed (row_status r)))"

definition dispatched_row :: "DispatchEnv \<Rightarrow> DispatchInput \<Rightarrow> SigRow" where
  "dispatched_row de input =
     (let cols = dispatch_opt_cols (de_signature_id de) input (base64_encode (res_signature (di_sign_result input))) in
      \<lparr>sr_cols = map opt_text cols,
       sr_hmac = (case compute_hmac (de_hmac de) cols of Inl _ \<Rightarrow> [] | Inr h \<Rightarrow> h),
       sr_pqc = de_pqc de\<rparr>)"

definition dispatched_event :: "DispatchEnv \<Rightarrow> DispatchInput \<Rightarrow> OutboxRow" where
  "dispatched_event de input =
     \<lparr>ob_id = de_outbox_id de, ob_created_at = de_now de, ob_event_type = ''SIGN_CREATED'',
      ob_aggregate_id = de_signature_id de,
      ob_payload = ''{\"signature_id\":\"'' @ de_signature_id de @ ''\",\"key_id\":\"'' @ di_key_id input @ ''\"}'',
      ob_status = ''PENDING''\<rparr>"

text \<open>A run of the store; \<open>sent\<close> collects the outbox identifiers handed to the bus.\<close>

datatype store_op =
    Dispatch DispatchEnv bool DispatchInput
  | UpdateLedger HmacEnv bool bool bool string LedgerEntry
  | MarkProcessing bool string
  | Poll int string bool bool

definition poll_batch :: "bool \<Rightarrow> bool \<Rightarrow> Db \<Rightarrow> string list" where
  "poll_batch query_ok mark_ok db = (if query_ok \<and> mark_ok then map ob_id (select_pending db) else [])"

fun store_step :: "store_op \<Rightarrow> (Db \<times> BoundedNotificationBus) \<times> string list \<Rightarrow> (Db \<times> BoundedNotificationBus) \<times> string list" where
  "store_step (Dispatch de w input) ((db, bus), sent) =
     (case dispatch de w input db bus of (_, db', bus', _) \<Rightarrow> ((db', bus'), sent))"
| "store_step (UpdateLedger he u q x i entry) ((db, bus), sent) = ((snd (update_ledger_fields he u q x i entry db), bus), sent)"
| "store_step (MarkProcessing ok i) ((db, bus), sent) = ((snd (mark_processing ok i db), bus), sent)"
| "store_step (Poll now inst query_ok mark_ok) ((db, bus), sent) =
     (poll_once now inst query_ok mark_ok (db, bus), sent @ poll_batch query_ok mark_ok db)"

definition store_run :: "store_op list \<Rightarrow> (Db \<times> BoundedNotificationBus) \<times> string list \<Rightarrow> (Db \<times> BoundedNotificationBus) \<times> string list" where
  "store_run ops s = fold store_step ops s"

definition empty_db :: Db where
  "empty_db = \<lparr>signature_records = [], event_outbox = []\<rparr>"

definition dispatched_ids :: "Db \<Rightarrow> string set" where
  "dispatched_ids db = ob_id ` {r \<in> set (event_outbox db). ob_status r = ''DISPATCHED''}"

definition store_inv :: "(Db \<times> BoundedNotificationBus) \<times> string list \<Rightarrow> bool" where
  "store_inv s = (case s of ((db, bus), sent) \<Rightarrow>
     db_inv db \<and> map ob_aggregate_id (event_outbox db) = map row_id (signature_records db) \<and>
     distinct sent \<and> set sent = dispatched_ids db)"

definition pending_rows :: "Db \<Rightarrow> OutboxRow list" where
  "pending_rows db = filter (\<lambda>r. ob_status r = ''PENDING'') (event_outbox db)"

definition mark_rows :: "string list \<Rightarrow> Db \<Rightarrow> Db" where
  "mark_rows ids db = db\<lparr>event_outbox := map (\<lambda>r. if ob_id r \<in> set ids then r\<lparr>ob_status := ''DISPATCHED''\<rparr> else r) (event_outbox db)\<rparr>"

definition sample_outbox :: "nat \<Rightarrow> OutboxRow" where
  "sample_outbox n = \<lparr>ob_id = to_string n, ob_created_at = - int n, ob_event_type = ''SIGN_CREATED'', ob_aggregate_id = to_string n,
     ob_payload = ''{}'', ob_status = ''PENDING''\<rparr>"

definition sample_outbox_db :: Db where
  "sample_outbox_db = \<lparr>signature_records = [], event_outbox = map sample_outbox [0..<3]\<rparr>"

text \<open>The message under the integrity code of a row, and rows whose columns fit the 32-bit length prefix.\<close>

definition row_message :: "SigRow \<Rightarrow> bytes" where
  "row_message r = concat (map hmac_field (map Some (take 18 (sr_cols r))))"

definition row_encodable :: "SigRow \<Rightarrow> bool" where
  "row_encodable r = (length (sr_cols r) = 18 \<and> (\<forall>c\<in>set (sr_cols r). length c < 2 ^ 32))"

text \<open>
  An input, an environment whose HMAC is the message itself, and the row they give; the post-quantum
  columns of the row are not under the code.
\<close>

definition sample_hmac_env :: "bytes \<Rightarrow> HmacEnv" where
  "sample_hmac_env kek = \<lparr>he_hmac = (\<lambda>k d. k @ d), he_derive_db_hmac_key = (\<lambda>k. k), he_kek = kek\<rparr>"

definition sample_input :: DispatchInput where
  "sample_input = \<lparr>di_sign_result = \<lparr>res_signature = [1, 2, 3], res_mechanism_str = ''ECDSA'', res_digest_alg = ''SHA256'',
       res_payload_digest = ''ab'', res_payload_size = 4\<rparr>,
     di_created_at = 5, di_slot_id = 0, di_token_label = ''t'', di_key_id = ''k'', di_key_fingerprint = ''f'',
     di_mechanism = ''ECDSA'', di_digest_algorithm = ''SHA256'', di_session_handle = ''1'', di_user_label = None,
     di_app_context = None\<rparr>"

definition sample_env :: "bytes \<Rightarrow> DispatchEnv" where
  "sample_env kek = \<lparr>de_hmac = sample_hmac_env kek, de_signature_id = ''s'', de_outbox_id = ''o'', de_now = 6,
     de_instance = ''hsm'', de_pqc = [[], [], []], de_db_ok = True\<rparr>"

definition sample_row :: "string \<Rightarrow> SigRow" where
  "sample_row pqc = (dispatched_row (sample_env [9]) sample_input)\<lparr>sr_pqc := [pqc, [], []]\<rparr>"

definition anchored_cols :: "LedgerEntry \<Rightarrow> string list \<Rightarrow> string list" where
  "anchored_cols entry cols = cols[12 := le_tx_id entry, 13 := int_text (le_block_number entry), 17 := ''COMMITTED'']"

lemma status_allowed_values [simp]:
  "status_allowed ''PENDING''" "status_allowed ''COMMITTED''" "\<not> status_allowed ''PROCESSING''"
  by (simp_all add: status_allowed_def)

lemma length_dispatch_opt_cols [simp]: "length (dispatch_opt_cols i input b64) = 18"
  by (simp add: dispatch_opt_cols_def)

lemma dispatch_opt_cols_nth:
  "opt_text (dispatch_opt_cols i input b64 ! 0) = i" "opt_text (dispatch_opt_cols i input b64 ! 17) = ''PENDING''"
  by (simp_all add: dispatch_opt_cols_def opt_text_def nth_append)

lemma hmac_field_opt_text: "hmac_field (Some (opt_text c)) = hmac_field c"
  by (simp add: hmac_field_def opt_text_def bytes_of_string_def split: option.splits)

lemma compute_hmac_opt_text: "compute_hmac he (map Some (map opt_text cols)) = compute_hmac he cols"
proof -
  have "map hmac_field (map Some (map opt_text cols)) = map hmac_field cols"
    by (simp add: hmac_field_opt_text)
  then show ?thesis by (simp only: compute_hmac_def)
qed

lemma select_signature_append:
  "row_id r \<notin> row_id ` set (signature_records db) \<Longrightarrow>
   select_signature (row_id r) (db\<lparr>signature_records := signature_records db @ [r], event_outbox := e\<rparr>) = Some r"
proof -
  assume "row_id r \<notin> row_id ` set (signature_records db)"
  then have "find (\<lambda>r'. row_id r' = row_id r) (signature_records db) = None"
    unfolding find_None_iff by (metis image_eqI)
  moreover have "find P (xs @ ys) = (case find P xs of None \<Rightarrow> find P ys | Some x \<Rightarrow> Some x)" for P and xs ys :: "SigRow list"
    by (induction xs) auto
  ultimately show ?thesis by (simp add: select_signature_def)
qed

lemma dispatched_row_simps [simp]:
  "row_id (dispatched_row de input) = de_signature_id de" "row_status (dispatched_row de input) = ''PENDING''"
  "length (sr_cols (dispatched_row de input)) = 18"
  by (simp_all add: row_id_def row_status_def dispatched_row_def Let_def dispatch_opt_cols_nth)

lemma dispatch_transaction_eq:
  "dispatch_transaction de input (base64_encode (res_signature (di_sign_result input))) db =
     (if de_db_ok de \<and> de_signature_id de \<notin> row_id ` set (signature_records db) \<and>
         de_outbox_id de \<notin> ob_id ` set (event_outbox db)
      then Some (db\<lparr>signature_records := signature_records db @ [dispatched_row de input],
                    event_outbox := event_outbox db @ [dispatched_event de input]\<rparr>)
      else None)"
proof -
  have "\<lparr>sr_cols = map opt_text (dispatch_opt_cols (de_signature_id de) input (base64_encode (res_signature (di_sign_result input)))),
     sr_hmac = case compute_hmac (de_hmac de) (dispatch_opt_cols (de_signature_id de) input (base64_encode (res_signature (di_sign_result input)))) of Inl _ \<Rightarrow> [] | Inr h \<Rightarrow> h,
     sr_pqc = de_pqc de\<rparr> = dispatched_row de input"
    by (simp add: dispatched_row_def Let_def)
  then show ?thesis
    by (simp add: dispatch_transaction_def insert_signature_def dispatched_event_def Let_def)
qed


lemma dispatch_cases:
  assumes "dispatch de w input db bus = (ok, db', bus', rec')"
  shows "if ok then db' = db\<lparr>signature_records := signature_records db @ [dispatched_row de input],
             event_outbox := event_outbox db @ [dispatched_event de input]\<rparr> \<and> bus' = bus \<and>
             de_signature_id de \<notin> row_id ` set (signature_records db) \<and> de_outbox_id de \<notin> ob_id ` set (event_outbox db)
           else db' = db"
  using assms
  by (auto simp: dispatch_def v_dispatch_def dispatch_transaction_eq split: if_splits)

subsection \<open>Runs of the store\<close>

lemma update_signatures_keeps:
  assumes "update_signatures c f db = Some (n, db')" "db_inv db"
    and "\<And>r. length (sr_cols r) = 18 \<Longrightarrow> length (sr_cols (f r)) = 18 \<and> row_id (f r) = row_id r"
  shows "db_inv db' \<and> event_outbox db' = event_outbox db \<and> map row_id (signature_records db') = map row_id (signature_records db)"
proof -
  have db': "db' = db\<lparr>signature_records := map (\<lambda>r. if c r then f r else r) (signature_records db)\<rparr>"
    and st: "\<forall>r\<in>set (signature_records db). c r \<longrightarrow> status_allowed (row_status (f r))"
    using assms(1) by (auto simp: update_signatures_def Let_def split: if_splits)
  have ids: "map row_id (signature_records db') = map row_id (signature_records db)"
    using assms(2,3) by (auto simp: db' db_inv_def)
  moreover have "length (sr_cols r) = 18 \<and> status_allowed (row_status r)" if "r \<in> set (signature_records db')" for r
    using that assms(2,3) st by (fastforce simp: db' db_inv_def)
  moreover have "event_outbox db' = event_outbox db" by (simp add: db')
  ultimately show ?thesis using assms(2) by (metis db_inv_def)
qed

lemma recompute_keeps:
  assumes "db_inv db"
  shows "db_inv (snd (recompute_integrity_hmac he q x i db)) \<and>
    event_outbox (snd (recompute_integrity_hmac he q x i db)) = event_outbox db \<and>
    map row_id (signature_records (snd (recompute_integrity_hmac he q x i db))) = map row_id (signature_records db)"
  using assms
  by (auto simp: recompute_integrity_hmac_def row_id_def split: option.splits sum.splits prod.splits
      dest!: update_signatures_keeps)

lemma update_ledger_keeps:
  assumes "db_inv db"
  shows "db_inv (snd (update_ledger_fields he u q x i entry db)) \<and>
    event_outbox (snd (update_ledger_fields he u q x i entry db)) = event_outbox db \<and>
    map row_id (signature_records (snd (update_ledger_fields he u q x i entry db))) = map row_id (signature_records db)"
proof (cases "update_signatures (\<lambda>r. row_id r = i)
    (\<lambda>r. r\<lparr>sr_cols := (sr_cols r)[12 := le_tx_id entry, 13 := int_text (le_block_number entry), 17 := ''COMMITTED'']\<rparr>) db")
  case None
  then show ?thesis using assms by (simp add: update_ledger_fields_def)
next
  case (Some p)
  obtain n db' where p: "p = (n, db')" by force
  have "db_inv db' \<and> event_outbox db' = event_outbox db \<and> map row_id (signature_records db') = map row_id (signature_records db)"
    by (rule update_signatures_keeps [OF Some [unfolded p] assms]) (simp add: row_id_def)
  then show ?thesis
    using assms Some p recompute_keeps [of db' he q x i] by (simp add: update_ledger_fields_def)
qed

lemma mark_processing_eq:
  assumes "db_inv db"
  shows "mark_processing ok i db =
    (ok \<and> \<not> (\<exists>r\<in>set (signature_records db). row_id r = i \<and> row_status r = ''PENDING''), db)"
proof (cases "\<exists>r\<in>set (signature_records db). row_id r = i \<and> row_status r = ''PENDING''")
  case True
  then have "update_signatures (\<lambda>r. row_id r = i \<and> row_status r = ''PENDING'')
      (\<lambda>r. r\<lparr>sr_cols := (sr_cols r)[17 := ''PROCESSING'']\<rparr>) db = None"
    using assms by (auto simp: update_signatures_def Let_def row_status_def db_inv_def)
  then show ?thesis using True by (simp add: mark_processing_def)
next
  case False
  then have "map (\<lambda>r. if row_id r = i \<and> row_status r = ''PENDING''
      then r\<lparr>sr_cols := (sr_cols r)[17 := ''PROCESSING'']\<rparr> else r) (signature_records db) = signature_records db"
    by (intro map_idI) auto
  then show ?thesis using False by (auto simp: mark_processing_def update_signatures_def Let_def)
qed


lemma store_step_other_inv:
  assumes "store_inv s" "\<not> (\<exists>now inst q m. op = Poll now inst q m)"
  shows "store_inv (store_step op s)"
proof -
  obtain db bus sent where s: "s = ((db, bus), sent)" by (metis prod.collapse)
  show ?thesis
  proof (cases op)
    case (Dispatch de w input)
    obtain ok db' bus' r where d: "dispatch de w input db bus = (ok, db', bus', r)" by (metis prod.collapse)
    have "if ok then db' = db\<lparr>signature_records := signature_records db @ [dispatched_row de input],
        event_outbox := event_outbox db @ [dispatched_event de input]\<rparr> \<and> bus' = bus \<and>
        de_signature_id de \<notin> row_id ` set (signature_records db) \<and> de_outbox_id de \<notin> ob_id ` set (event_outbox db)
      else db' = db" by (rule dispatch_cases [OF d])
    then show ?thesis using assms(1) d
      by (auto simp: s Dispatch store_inv_def db_inv_def dispatched_event_def dispatched_ids_def split: if_splits)
  next
    case (UpdateLedger he u q x i entry)
    then show ?thesis using assms(1) update_ledger_keeps [of db he u q x i entry]
      by (simp add: s store_inv_def dispatched_ids_def)
  next
    case (MarkProcessing ok i)
    then show ?thesis using assms(1) by (simp add: s store_inv_def mark_processing_eq)
  qed (use assms(2) in blast)
qed

lemma select_pending_subset: "set (select_pending db) \<subseteq> set (pending_rows db)"
proof
  fix r assume "r \<in> set (select_pending db)"
  then have "r \<in> set (sort_key ob_created_at (filter (\<lambda>r. ob_status r = ''PENDING'') (event_outbox db)))"
    unfolding select_pending_def by (rule in_set_takeD)
  then show "r \<in> set (pending_rows db)" by (simp add: pending_rows_def)
qed

lemma length_select_pending: "length (select_pending db) = min 32 (length (pending_rows db))"
  by (simp add: select_pending_def pending_rows_def)

lemma distinct_select_pending:
  assumes "distinct (map ob_id (event_outbox db))"
  shows "distinct (map ob_id (select_pending db))"
proof -
  have d: "distinct (event_outbox db)" and i: "inj_on ob_id (set (event_outbox db))"
    using assms by (simp_all add: distinct_map)
  have "distinct (select_pending db)" using d by (simp add: select_pending_def)
  moreover have "inj_on ob_id (set (select_pending db))"
    using i select_pending_subset [of db] by (auto simp: pending_rows_def intro: inj_on_subset)
  ultimately show ?thesis by (simp add: distinct_map)
qed

lemma poll_once_eq:
  "poll_once now inst q m (db, bus) =
     (mark_rows (poll_batch q m db) db,
      if q \<and> m then fold (\<lambda>r b. publish b (replay_event now inst r)) (select_pending db) bus else bus)"
proof -
  have "mark_rows [] db = db" by (simp add: mark_rows_def)
  then show ?thesis by (auto simp: poll_once_def poll_batch_def mark_rows_def Let_def)
qed

lemma mark_rows_simps [simp]:
  "signature_records (mark_rows ids db) = signature_records db"
  "map ob_id (event_outbox (mark_rows ids db)) = map ob_id (event_outbox db)"
  "map ob_aggregate_id (event_outbox (mark_rows ids db)) = map ob_aggregate_id (event_outbox db)"
  by (simp_all add: mark_rows_def)

lemma dispatched_ids_mark_rows:
  assumes "set ids \<subseteq> ob_id ` set (event_outbox db)"
  shows "dispatched_ids (mark_rows ids db) = dispatched_ids db \<union> set ids"
proof (rule set_eqI)
  fix i
  let ?f = "\<lambda>r. if ob_id r \<in> set ids then r\<lparr>ob_status := ''DISPATCHED''\<rparr> else r"
  have e: "event_outbox (mark_rows ids db) = map ?f (event_outbox db)" by (simp add: mark_rows_def)
  have "i \<in> dispatched_ids (mark_rows ids db) \<longleftrightarrow>
      (\<exists>r\<in>set (event_outbox db). ob_id (?f r) = i \<and> ob_status (?f r) = ''DISPATCHED'')"
    unfolding dispatched_ids_def e set_map by blast
  also have "\<dots> \<longleftrightarrow> (\<exists>r\<in>set (event_outbox db). ob_id r = i \<and> (i \<in> set ids \<or> ob_status r = ''DISPATCHED''))"
    by (rule bex_cong) auto
  also have "\<dots> \<longleftrightarrow> i \<in> dispatched_ids db \<union> set ids"
    using assms by (auto simp: dispatched_ids_def)
  finally show "i \<in> dispatched_ids (mark_rows ids db) \<longleftrightarrow> i \<in> dispatched_ids db \<union> set ids" .
qed

lemma poll_batch_props:
  assumes "db_inv db"
  shows "distinct (poll_batch q m db)" "set (poll_batch q m db) \<subseteq> ob_id ` set (event_outbox db)"
    "set (poll_batch q m db) \<inter> dispatched_ids db = {}"
proof -
  have d: "distinct (map ob_id (event_outbox db))" using assms by (simp add: db_inv_def)
  then have i: "inj_on ob_id (set (event_outbox db))" by (simp add: distinct_map)
  show "distinct (poll_batch q m db)" using distinct_select_pending [OF d] by (simp add: poll_batch_def)
  show "set (poll_batch q m db) \<subseteq> ob_id ` set (event_outbox db)"
    using select_pending_subset [of db] by (auto simp: poll_batch_def pending_rows_def)
  show "set (poll_batch q m db) \<inter> dispatched_ids db = {}"
  proof (rule ccontr)
    assume "set (poll_batch q m db) \<inter> dispatched_ids db \<noteq> {}"
    then obtain r r' where "r \<in> set (select_pending db)" "r' \<in> set (event_outbox db)" "ob_id r = ob_id r'"
      and d: "ob_status r' = ''DISPATCHED''"
      unfolding poll_batch_def dispatched_ids_def by (fastforce split: if_splits)
    moreover from this have "r \<in> set (event_outbox db)" and p: "ob_status r = ''PENDING''"
      using select_pending_subset [of db] by (auto simp: pending_rows_def)
    ultimately have "r = r'" using i by (metis inj_onD)
    with d p show False by simp
  qed
qed

lemma store_step_poll_inv:
  assumes "store_inv s"
  shows "store_inv (store_step (Poll now inst q m) s)"
proof -
  obtain db bus sent where s: "s = ((db, bus), sent)" by (metis prod.collapse)
  have db: "db_inv db" using assms by (simp add: s store_inv_def)
  then have "db_inv (mark_rows (poll_batch q m db) db)"
    by (simp add: db_inv_def)
  then show ?thesis
    using assms poll_batch_props [OF db, of q m] dispatched_ids_mark_rows [of "poll_batch q m db" db]
    by (auto simp: s store_inv_def poll_once_eq)
qed

lemma store_run_inv: "store_inv s \<Longrightarrow> store_inv (store_run ops s)"
  unfolding store_run_def
proof (induction ops arbitrary: s)
  case (Cons op ops)
  have "store_inv (store_step op s)"
  proof (cases "\<exists>now inst q m. op = Poll now inst q m")
    case True
    then show ?thesis using store_step_poll_inv [OF Cons.prems] by auto
  qed (rule store_step_other_inv [OF Cons.prems])
  then show ?case using Cons.IH by simp
qed simp


lemma fold_publish:
  assumes "length (queue_m bus) \<le> capacity_m bus"
  shows "queue_m (fold (\<lambda>r b. publish b (f r)) rows bus) = take (capacity_m bus) (queue_m bus @ map f rows) \<and>
    dropped_m (fold (\<lambda>r b. publish b (f r)) rows bus) =
      dropped_m bus + (length (queue_m bus) + length rows - capacity_m bus) \<and>
    capacity_m (fold (\<lambda>r b. publish b (f r)) rows bus) = capacity_m bus"
  using assms
proof (induction rows arbitrary: bus)
  case (Cons r rows)
  have "length (queue_m (publish bus (f r))) \<le> capacity_m (publish bus (f r))"
    by (rule bounded_bus.bounded_put) (rule Cons.prems)
  from Cons.IH [OF this] Cons.prems show ?case
    by (auto simp: bounded_bus.put_pending bounded_bus.put_lost bounded_bus.put_limit take_Cons')
qed simp

lemma pending_ids_mark_rows:
  "map ob_id (pending_rows (mark_rows ids db)) = filter (\<lambda>i. i \<notin> set ids) (map ob_id (pending_rows db))"
proof -
  have "map ob_id (filter (\<lambda>r. ob_status r = ''PENDING'')
      (map (\<lambda>r. if ob_id r \<in> set ids then r\<lparr>ob_status := ''DISPATCHED''\<rparr> else r) rows)) =
    filter (\<lambda>i. i \<notin> set ids) (map ob_id (filter (\<lambda>r. ob_status r = ''PENDING'') rows))" for rows
    by (induction rows) auto
  then show ?thesis by (simp add: pending_rows_def mark_rows_def)
qed

lemma length_filter_notin:
  assumes "distinct xs" "distinct ys" "set ys \<subseteq> set xs"
  shows "length (filter (\<lambda>x. x \<notin> set ys) xs) = length xs - length ys"
proof -
  have "length (filter (\<lambda>x. x \<notin> set ys) xs) = card (set (filter (\<lambda>x. x \<notin> set ys) xs))"
    using assms(1) by (metis distinct_card distinct_filter)
  also have "set (filter (\<lambda>x. x \<notin> set ys) xs) = set xs - set ys" by auto
  also have "card (set xs - set ys) = length xs - length ys"
    using assms by (simp add: card_Diff_subset distinct_card)
  finally show ?thesis .
qed

lemma pending_after_mark:
  assumes "db_inv db"
  shows "length (pending_rows (mark_rows (map ob_id (select_pending db)) db)) = length (pending_rows db) - 32"
proof -
  let ?ids = "map ob_id (select_pending db)"
  have o: "distinct (map ob_id (event_outbox db))" using assms by (simp add: db_inv_def)
  then have d: "distinct (map ob_id (pending_rows db))"
    by (simp add: pending_rows_def distinct_map_filter)
  have "length (filter (\<lambda>i. i \<notin> set ?ids) (map ob_id (pending_rows db))) =
      length (map ob_id (pending_rows db)) - length ?ids"
    by (rule length_filter_notin [OF d distinct_select_pending [OF o]]) (use select_pending_subset [of db] in auto)
  then show ?thesis
    using arg_cong [OF pending_ids_mark_rows [of ?ids db], of length] by (simp add: length_select_pending)
qed

text \<open>
  One poll with no failing statement takes the (up to) thirty-two oldest pending events out of the pending
  ones and offers them to the bus in that order; the bus keeps those that fit its capacity and the rest are
  counted as dropped although their rows are already marked DISPATCHED.  So after \<open>n\<close> polls at most
  \<open>k - 32 n\<close> of \<open>k\<close> pending events are left.
\<close>

lemma outbox_poll_progress:
  assumes "db_inv db" "bus_inv bus" "poll_once now inst True True (db, bus) = (db', bus')"
  shows "length (pending_rows db') = length (pending_rows db) - 32 \<and>
    sorted (map ob_created_at (select_pending db)) \<and>
    queue_m bus' = take (capacity_m bus) (queue_m bus @ map (replay_event now inst) (select_pending db)) \<and>
    dropped_m bus' = dropped_m bus + (length (queue_m bus) + min 32 (length (pending_rows db)) - capacity_m bus) \<and>
    db_inv db' \<and> bus_inv bus'"
proof -
  have l: "length (queue_m bus) \<le> capacity_m bus" using assms(2) by (simp add: bus_inv_def)
  have db': "db' = mark_rows (map ob_id (select_pending db)) db"
    and bus': "bus' = fold (\<lambda>r b. publish b (replay_event now inst r)) (select_pending db) bus"
    using assms(3) by (simp_all add: poll_once_eq poll_batch_def)
  note fp = fold_publish [OF l, of "replay_event now inst" "select_pending db"]
  have "length (pending_rows db') = length (pending_rows db) - 32"
    using pending_after_mark [OF assms(1)] by (simp add: db')
  moreover have "sorted (map ob_created_at (select_pending db))"
    by (simp add: select_pending_def take_map [symmetric] sorted_wrt_take)
  moreover have "db_inv db'" using assms(1) by (simp add: db' db_inv_def)
  moreover have "bus_inv bus'" using assms(2) fp by (auto simp: bus' bus_inv_def)
  ultimately show ?thesis using fp by (simp add: bus' length_select_pending)
qed

subsection \<open>Row integrity\<close>

lemma be32_inj: "be32 v = be32 w \<longleftrightarrow> v = w"
proof
  assume "be32 v = be32 w"
  then have "rev (be32 v) = rev (be32 w)" by simp
  then have "put_le32 v @ [] = put_le32 w @ []" by (simp add: be32_def put_le32_def)
  then show "v = w" using get_le32_append [of v "[]"] get_le32_append [of w "[]"] by simp
qed simp

lemma bytes_of_string_inj: "bytes_of_string s = bytes_of_string t \<longleftrightarrow> s = t"
  using string_bytes_inverse by metis

lemma hmac_field_append_inj:
  assumes "hmac_field (Some s) @ a = hmac_field (Some t) @ b" "length s < 2 ^ 32" "length t < 2 ^ 32"
  shows "s = t \<and> a = b"
proof -
  have "be32 (of_nat (length s)) = be32 (of_nat (length t))"
    and rest: "bytes_of_string s @ a = bytes_of_string t @ b"
    using assms(1) by (simp_all add: hmac_field_def be32_def)
  then have "unat (of_nat (length s) :: u32) = unat (of_nat (length t) :: u32)" by (simp add: be32_inj)
  then have "length s = length t" using assms(2,3) by (simp add: unat_of_nat take_bit_nat_eq_self)
  then show ?thesis using rest by (simp add: bytes_of_string_inj)
qed

lemma length_prefix_inj:
  assumes "length xs = length ys" "concat (map hmac_field (map Some xs)) = concat (map hmac_field (map Some ys))"
    "\<forall>c\<in>set xs. length c < 2 ^ 32" "\<forall>c\<in>set ys. length c < 2 ^ 32"
  shows "xs = ys"
  using assms
proof (induction rule: list_induct2)
  case (Cons x xs y ys)
  have "x = y \<and> concat (map hmac_field (map Some xs)) = concat (map hmac_field (map Some ys))"
    by (rule hmac_field_append_inj) (use Cons.prems in simp_all)
  then show ?case using Cons by simp
qed simp

lemma verify_integrity_iff:
  assumes "select_signature i db = Some r"
  shows "verify_integrity he True i db \<longleftrightarrow>
    sr_hmac r \<noteq> [] \<and> get_key he \<noteq> [] \<and> sr_hmac r = hex_encode (he_hmac he (get_key he) (row_message r))"
  using assms
  by (auto simp: verify_integrity_def verify_hmac_def compute_hmac_def row_message_def Let_def)


lemma hex_encode_inj: "hex_encode a = hex_encode b \<longleftrightarrow> a = b"
  by (metis append_Nil hex_decode_loop_encode option.inject)

text \<open>
  C26. The integrity code is tamper-evident.  When a row verifies before and after a change of the database
  under the same key and its stored code is the same, then none of its eighteen protected columns changed,
  provided that HMAC has no collision on the two messages and every column fits the 32-bit length prefix.
\<close>

theorem row_tamper_evident:
  assumes "select_signature i db = Some r" "select_signature i db' = Some r'" "sr_hmac r' = sr_hmac r"
    and "verify_integrity he True i db" "verify_integrity he True i db'"
    and "row_encodable r" "row_encodable r'"
    and no_collision: "he_hmac he (get_key he) (row_message r) = he_hmac he (get_key he) (row_message r') \<Longrightarrow>
      row_message r = row_message r'"
  shows "sr_cols r' = sr_cols r"
proof -
  have "row_message r = row_message r'"
    using assms by (intro no_collision) (simp add: verify_integrity_iff [OF assms(1)] verify_integrity_iff [OF assms(2)] hex_encode_inj)
  then show ?thesis
    using assms(6,7) by (intro length_prefix_inj) (simp_all add: row_encodable_def row_message_def)
qed

lemma dispatched_row_hmac:
  "sr_hmac (dispatched_row de input) =
     (if get_key (de_hmac de) = [] then []
      else hex_encode (he_hmac (de_hmac de) (get_key (de_hmac de)) (row_message (dispatched_row de input))))"
proof -
  let ?c = "dispatch_opt_cols (de_signature_id de) input (base64_encode (res_signature (di_sign_result input)))"
  have "row_message (dispatched_row de input) = concat (map hmac_field (map Some (map opt_text ?c)))"
    by (simp add: row_message_def dispatched_row_def Let_def)
  also have "\<dots> = concat (map hmac_field ?c)" by (simp add: o_def hmac_field_opt_text)
  finally have "row_message (dispatched_row de input) = concat (map hmac_field ?c)" .
  moreover have "sr_hmac (dispatched_row de input) = (if get_key (de_hmac de) = [] then []
      else hex_encode (he_hmac (de_hmac de) (get_key (de_hmac de)) (concat (map hmac_field ?c))))"
    by (simp add: dispatched_row_def Let_def compute_hmac_def)
  ultimately show ?thesis by (simp only:)
qed

theorem row_tamper_evident_witness:
  "sr_cols (sample_row ''X'') = sr_cols (sample_row [])"
proof -
  let ?he = "sample_hmac_env [9]"
  let ?db = "\<lambda>r. \<lparr>signature_records = [r], event_outbox = []\<rparr>"
  have i: "row_id (sample_row p) = ''s''" for p
    using dispatched_row_simps(1) [of "sample_env [9]"] by (simp add: sample_row_def row_id_def sample_env_def)
  have sel: "select_signature ''s'' (?db (sample_row p)) = Some (sample_row p)" for p
    by (simp add: select_signature_def i)
  have key: "get_key ?he = [9]" by (simp add: get_key_def sample_hmac_env_def)
  have h: "sr_hmac (sample_row p) = hex_encode (he_hmac ?he [9] (row_message (sample_row p)))" for p
    using dispatched_row_hmac [of "sample_env [9]" sample_input] key
    by (simp add: sample_row_def row_message_def sample_env_def)
  have "length (hex_encode (he_hmac ?he [9] m)) \<noteq> 0" for m by (simp add: sample_hmac_env_def)
  then have ver: "verify_integrity ?he True ''s'' (?db (sample_row p))" for p
    unfolding verify_integrity_iff [OF sel] h key by (metis list.size(3) not_Cons_self2)
  have "length (sr_cols (sample_row [])) = 18" "\<forall>c\<in>set (sr_cols (sample_row [])). length c < 10" by code_simp+
  then have enc: "row_encodable (sample_row p)" for p by (force simp: row_encodable_def sample_row_def)
  show ?thesis
    by (rule row_tamper_evident [OF sel sel _ ver ver enc enc])
      (simp_all add: h row_message_def sample_row_def sample_hmac_env_def)
qed

text \<open>An update keeps the other rows and rewrites the selected one.\<close>

lemma select_update:
  assumes "update_signatures (\<lambda>r. row_id r = i) f db = Some (n, db')" "select_signature i db = Some r" "row_id (f r) = i"
  shows "select_signature i db' = Some (f r)"
proof -
  have db': "signature_records db' = map (\<lambda>r. if row_id r = i then f r else r) (signature_records db)"
    using assms(1) by (auto simp: update_signatures_def Let_def split: if_splits)
  have "find (\<lambda>r. row_id r = i) rows = Some r \<Longrightarrow>
      find (\<lambda>r. row_id r = i) (map (\<lambda>r. if row_id r = i then f r else r) rows) = Some (f r)" for rows
    using assms(3) by (induction rows) (auto split: if_splits)
  then show ?thesis using assms(2) by (simp add: select_signature_def db')
qed

lemma select_signature_id: "select_signature i db = Some r \<Longrightarrow> row_id r = i \<and> r \<in> set (signature_records db)"
  by (auto simp: select_signature_def find_Some_iff)

lemma update_signatures_ok:
  assumes "\<And>r. r \<in> set (signature_records db) \<Longrightarrow> c r \<Longrightarrow> status_allowed (row_status (f r))"
  shows "\<exists>db'. update_signatures c f db = Some (length (filter c (signature_records db)), db')"
  using assms by (auto simp: update_signatures_def Let_def)

lemma recompute_verifies:
  assumes "db_inv db" "select_signature i db = Some r" "get_key he \<noteq> []" "\<forall>m. he_hmac he (get_key he) m \<noteq> []"
  shows "\<exists>db'. recompute_integrity_hmac he True True i db = (True, db') \<and> verify_integrity he True i db' \<and>
    select_signature i db' = Some (r\<lparr>sr_hmac := hex_encode (he_hmac he (get_key he) (row_message r))\<rparr>)"
proof -
  let ?h = "hex_encode (he_hmac he (get_key he) (row_message r))"
  have r: "row_id r = i" "length (sr_cols r) = 18" using assms(1,2) select_signature_id by (auto simp: db_inv_def)
  have h: "compute_hmac he (map Some (sr_cols r)) = Inr ?h"
    using assms(3) r(2) by (simp add: compute_hmac_def Let_def row_message_def)
  have "\<exists>db'. update_signatures (\<lambda>r. row_id r = i) (\<lambda>r. r\<lparr>sr_hmac := ?h\<rparr>) db =
      Some (length (filter (\<lambda>r. row_id r = i) (signature_records db)), db')"
    using assms(1) by (intro update_signatures_ok) (auto simp: db_inv_def row_status_def)
  then obtain db' n where u: "update_signatures (\<lambda>r. row_id r = i) (\<lambda>r. r\<lparr>sr_hmac := ?h\<rparr>) db = Some (n, db')"
    by blast
  have sel: "select_signature i db' = Some (r\<lparr>sr_hmac := ?h\<rparr>)"
    by (rule select_update [OF u assms(2)]) (use r in \<open>simp add: row_id_def\<close>)
  have "length ?h \<noteq> 0" using assms(4) by simp
  then have "?h \<noteq> []" by fastforce
  then have "verify_integrity he True i db'"
    using assms(3) by (simp add: verify_integrity_iff [OF sel] row_message_def)
  then show ?thesis using assms(2) h u sel by (simp add: recompute_integrity_hmac_def)
qed


lemma dispatch_db_inv:
  assumes "db_inv db" "dispatch de w input db bus = (True, db', bus', rec')"
  shows "db_inv db' \<and> select_signature (de_signature_id de) db' = Some (dispatched_row de input)"
proof -
  have db': "db' = db\<lparr>signature_records := signature_records db @ [dispatched_row de input],
      event_outbox := event_outbox db @ [dispatched_event de input]\<rparr>"
    and new: "de_signature_id de \<notin> row_id ` set (signature_records db)" "de_outbox_id de \<notin> ob_id ` set (event_outbox db)"
    using dispatch_cases [OF assms(2)] by simp_all
  have "db_inv db'" using assms(1) new by (auto simp: db' db_inv_def dispatched_event_def)
  then show ?thesis
    using select_signature_append [of "dispatched_row de input" db] new by (simp add: db')
qed

lemma update_ledger_verifies:
  assumes "db_inv db" "select_signature i db = Some r" "get_key he \<noteq> []" "\<forall>m. he_hmac he (get_key he) m \<noteq> []"
  shows "\<exists>db' r'. update_ledger_fields he True True True i entry db = (True, db') \<and> verify_integrity he True i db' \<and>
    select_signature i db' = Some r' \<and> sr_cols r' = anchored_cols entry (sr_cols r)"
proof -
  let ?f = "\<lambda>r. r\<lparr>sr_cols := (sr_cols r)[12 := le_tx_id entry, 13 := int_text (le_block_number entry), 17 := ''COMMITTED'']\<rparr>"
  have r: "row_id r = i" "r \<in> set (signature_records db)" using assms(2) select_signature_id by auto
  have "\<exists>db'. update_signatures (\<lambda>r. row_id r = i) ?f db =
      Some (length (filter (\<lambda>r. row_id r = i) (signature_records db)), db')"
    using assms(1) by (intro update_signatures_ok) (auto simp: db_inv_def row_status_def)
  then obtain db1 where u: "update_signatures (\<lambda>r. row_id r = i) ?f db =
      Some (length (filter (\<lambda>r. row_id r = i) (signature_records db)), db1)" by blast
  have sel: "select_signature i db1 = Some (?f r)"
    by (rule select_update [OF u assms(2)]) (use r in \<open>simp add: row_id_def\<close>)
  have "db_inv db1" using update_signatures_keeps [OF u assms(1)] by (simp add: row_id_def)
  from recompute_verifies [OF this sel assms(3,4)] obtain db2 where
    "recompute_integrity_hmac he True True i db1 = (True, db2)" "verify_integrity he True i db2"
    "select_signature i db2 = Some ((?f r)\<lparr>sr_hmac := hex_encode (he_hmac he (get_key he) (row_message (?f r)))\<rparr>)" by blast
  moreover have "filter (\<lambda>r. row_id r = i) (signature_records db) \<noteq> []" using r by (auto simp: filter_empty_conv)
  ultimately show ?thesis using u by (simp add: update_ledger_fields_def anchored_cols_def)
qed

lemma pending_id_iff:
  assumes "db_inv db" "select_signature i db = Some r"
  shows "i \<in> set (scan_pending_ids True db) \<longleftrightarrow> row_status r = ''PENDING''"
proof -
  have "r' = r" if "r' \<in> set (signature_records db)" "row_id r' = i" for r'
    using assms that select_signature_id [OF assms(2)] by (auto simp: db_inv_def distinct_map inj_on_def)
  then show ?thesis using select_signature_id [OF assms(2)] by (auto simp: scan_pending_ids_def)
qed

text \<open>
  C27. A dispatched signature is pending for the ledger, and its row verifies exactly when the integrity key is
  available: without a key encryption key the row is still written, with an empty code that never verifies.
  With the key, recording the ledger entry succeeds, stores transaction and block, takes the row off the
  pending ones and leaves it verifying.
\<close>

theorem dispatch_then_anchor_verifies:
  assumes "db_inv db" "dispatch de w input db bus = (True, db', bus', rec')"
    and hmac_nonempty: "\<forall>m. he_hmac (de_hmac de) (get_key (de_hmac de)) m \<noteq> []"
  shows "de_signature_id de \<in> set (scan_pending_ids True db') \<and>
    verify_integrity (de_hmac de) True (de_signature_id de) db' = (get_key (de_hmac de) \<noteq> []) \<and>
    (get_key (de_hmac de) \<noteq> [] \<longrightarrow>
      (\<exists>db'' r. update_ledger_fields (de_hmac de) True True True (de_signature_id de) entry db' = (True, db'') \<and>
        verify_integrity (de_hmac de) True (de_signature_id de) db'' \<and>
        de_signature_id de \<notin> set (scan_pending_ids True db'') \<and>
        select_signature (de_signature_id de) db'' = Some r \<and> sr_cols r ! 12 = le_tx_id entry))"
proof -
  let ?he = "de_hmac de" and ?i = "de_signature_id de"
  have inv: "db_inv db'" and sel: "select_signature ?i db' = Some (dispatched_row de input)"
    using dispatch_db_inv [OF assms(1,2)] by simp_all
  have "length (hex_encode (he_hmac ?he (get_key ?he) m)) \<noteq> 0" for m using hmac_nonempty by simp
  then have ne: "hex_encode (he_hmac ?he (get_key ?he) m) \<noteq> []" for m by fastforce
  have v: "verify_integrity ?he True ?i db' = (get_key ?he \<noteq> [])"
    using ne by (simp add: verify_integrity_iff [OF sel] dispatched_row_hmac)
  have "\<exists>db'' r. update_ledger_fields ?he True True True ?i entry db' = (True, db'') \<and> verify_integrity ?he True ?i db'' \<and>
      ?i \<notin> set (scan_pending_ids True db'') \<and> select_signature ?i db'' = Some r \<and> sr_cols r ! 12 = le_tx_id entry"
    if k: "get_key ?he \<noteq> []"
  proof -
    obtain db'' r where u: "update_ledger_fields ?he True True True ?i entry db' = (True, db'')"
      "verify_integrity ?he True ?i db''" and s: "select_signature ?i db'' = Some r"
      and c: "sr_cols r = anchored_cols entry (sr_cols (dispatched_row de input))"
      using update_ledger_verifies [OF inv sel k hmac_nonempty] by blast
    have "db_inv db''" using update_ledger_keeps [OF inv, of ?he True True True ?i entry] u(1) by simp
    then have "?i \<notin> set (scan_pending_ids True db'')"
      using pending_id_iff [OF _ s] c by (simp add: row_status_def anchored_cols_def)
    then show ?thesis using u s c by (simp add: anchored_cols_def)
  qed
  then show ?thesis using v pending_id_iff [OF inv sel] by simp
qed

lemma sample_dispatch:
  "\<exists>db. dispatch (sample_env [9]) False sample_input empty_db bus = (True, db, bus, None)"
proof -
  have "de_db_ok (sample_env [9])" "res_signature (di_sign_result sample_input) \<noteq> []"
    "di_key_fingerprint sample_input \<noteq> []" "di_mechanism sample_input \<noteq> []"
    by (simp_all add: sample_env_def sample_input_def)
  then show ?thesis
    by (auto simp: dispatch_def v_dispatch_def dispatch_transaction_eq Let_def empty_db_def)
qed

theorem dispatch_then_anchor_verifies_witness:
  "\<exists>db'. dispatch (sample_env [9]) False sample_input empty_db (new_BoundedNotificationBus 2) =
     (True, db', new_BoundedNotificationBus 2, None) \<and>
     verify_integrity (sample_hmac_env [9]) True ''s'' db' \<and> scan_pending_ids True db' = [''s'']"
proof -
  obtain db' where d: "dispatch (sample_env [9]) False sample_input empty_db (new_BoundedNotificationBus 2) =
      (True, db', new_BoundedNotificationBus 2, None)"
    using sample_dispatch by blast
  have e: "db_inv empty_db" by code_simp
  have h: "\<forall>m. he_hmac (de_hmac (sample_env [9])) (get_key (de_hmac (sample_env [9]))) m \<noteq> []"
    by (simp add: sample_env_def sample_hmac_env_def get_key_def)
  from dispatch_then_anchor_verifies [OF e d h] dispatch_cases [OF d] d show ?thesis
    by (auto simp: sample_env_def sample_hmac_env_def get_key_def scan_pending_ids_def empty_db_def)
qed

text \<open>
  The database guard against anchoring a record twice is inoperative.  The update to PROCESSING violates
  the status check of the schema, so \<open>mark_processing\<close> never changes the database, reports failure
  exactly when there is a pending row to mark, and the retry queue returns the same records as before.
\<close>

lemma mark_processing_never_marks:
  assumes "db_inv db" "mark_processing True i db = (ok, db')"
  shows "db' = db \<and> (ok \<longleftrightarrow> i \<notin> set (scan_pending_ids True db)) \<and> load_pending_records True db' = load_pending_records True db"
  using assms by (auto simp: mark_processing_eq scan_pending_ids_def)

end
