(* ===== verification/P11State.thy ===== *)
theory P11State
  imports Session Persistence SignatureStore
begin

text \<open>
  The process state behind the C interface and the entry points that create, inspect and tear it down:
  pkcs11/composition\_root.cpp, the lookups and the event publication of pkcs11/p11\_internal.cpp,
  pkcs11/p11\_init.cpp, pkcs11/p11\_slot.cpp, pkcs11/p11\_session.cpp and pkcs11/p11\_random.cpp.

  The globals of the module are the fields of one record.  The slot manager belongs to the application
  container and is reached through a raw pointer; when the container dies while the pointer stays set,
  the pointer is \<open>Freed\<close> and a use of it has no defined behaviour (the lookup functions return nothing
  there; no positive statement is made about that case).  The audit log is the list of the
  \<open>append\<close> calls made on it together with the chain key when it is the hash-chained one.  The signature
  database is the content of its file, which outlives the module's connection to it.  Clock, HSM
  instance id, environment variables, the outcome of opening the database and the wiring of the ledger
  backend are arguments.
\<close>

datatype slot_ptr = Null | Live SlotManager | Freed

record AuditSink =
  sink_key :: "bytes option"
  sink_calls :: "(string \<times> string) list"

record P11 =
  g_initialized :: bool
  g_sessionManager :: SessionManager
  g_slot_manager :: slot_ptr
  slot_fallback :: SlotManager
  login_throttle :: "LoginThrottle option"
  g_notificationBus :: "BoundedNotificationBus option"
  g_auditLog :: "AuditSink option"
  g_vault :: "Vault option"
  p11_files :: file_system
  g_signatureDispatcher :: bool
  p11_db :: Db

definition initial_P11 :: "file_system \<Rightarrow> Db \<Rightarrow> P11" where
  "initial_P11 fs db = \<lparr>g_initialized = False, g_sessionManager = new_SessionManager, g_slot_manager = Null,
     slot_fallback = [], login_throttle = None, g_notificationBus = None, g_auditLog = None, g_vault = None,
     p11_files = fs, g_signatureDispatcher = False, p11_db = db\<rparr>"

record P11Env =
  env_now_ms :: int
  env_instance :: string

subsection \<open>Lookups\<close>

definition global_slot_manager :: "P11 \<Rightarrow> SlotManager" where
  "global_slot_manager st = (case g_slot_manager st of Live m \<Rightarrow> m | Null \<Rightarrow> slot_fallback st | Freed \<Rightarrow> [])"

text \<open>A change of the manager that \<open>global_slot_manager\<close> returns a reference to.\<close>

definition put_slot_manager :: "P11 \<Rightarrow> SlotManager \<Rightarrow> P11" where
  "put_slot_manager st m = (case g_slot_manager st of
     Live _ \<Rightarrow> st\<lparr>g_slot_manager := Live m\<rparr>
   | Null \<Rightarrow> st\<lparr>slot_fallback := m\<rparr>
   | Freed \<Rightarrow> st)"

definition p11_is_initialized :: "P11 \<Rightarrow> bool" where
  "p11_is_initialized st = g_initialized st"

definition p11_get_slot :: "P11 \<Rightarrow> CK_SLOT_ID \<Rightarrow> Slot option" where
  "p11_get_slot st i = v_get_slot (global_slot_manager st) i"

definition p11_get_token :: "P11 \<Rightarrow> CK_SLOT_ID \<Rightarrow> TokenCore option" where
  "p11_get_token st i = (case v_get_slot (global_slot_manager st) i of
     None \<Rightarrow> None
   | Some sl \<Rightarrow> token_slot_m sl)"

definition p11_get_session :: "P11 \<Rightarrow> CK_SESSION_HANDLE \<Rightarrow> Session option" where
  "p11_get_session st h = v_get_session (g_sessionManager st) h"

definition p11_get_token_for_session :: "P11 \<Rightarrow> CK_SESSION_HANDLE \<Rightarrow> TokenCore option" where
  "p11_get_token_for_session st hSession = (case p11_get_session st hSession of
     None \<Rightarrow> None
   | Some s \<Rightarrow> p11_get_token st (slotID_m s))"

definition p11_get_object :: "P11 \<Rightarrow> CK_SESSION_HANDLE \<Rightarrow> CK_OBJECT_HANDLE \<Rightarrow> HsmObject option" where
  "p11_get_object st hSession hObject = (case p11_get_session st hSession of
     None \<Rightarrow> None
   | Some s \<Rightarrow> v_get_object (objectStore_m s) hObject)"

text \<open>Writes through the pointers the lookups return.\<close>

definition p11_put_token :: "P11 \<Rightarrow> CK_SLOT_ID \<Rightarrow> TokenCore \<Rightarrow> P11" where
  "p11_put_token st i t = (case p11_get_slot st i of
     None \<Rightarrow> st
   | Some sl \<Rightarrow> put_slot_manager st (v_put_slot (global_slot_manager st) i (insert_token sl t)))"

definition p11_put_session :: "P11 \<Rightarrow> CK_SESSION_HANDLE \<Rightarrow> Session \<Rightarrow> P11" where
  "p11_put_session st h s = st\<lparr>g_sessionManager := v_put_session (g_sessionManager st) h s\<rparr>"

definition p11_reset_op :: "P11 \<Rightarrow> CK_SESSION_HANDLE \<Rightarrow> P11" where
  "p11_reset_op st h = (case p11_get_session st h of
     None \<Rightarrow> st
   | Some s \<Rightarrow> p11_put_session st h (clearFindResults (opEnd s)))"

subsection \<open>Events\<close>

text \<open>The conversion of a slot identifier to \<open>int\<close>.\<close>

definition int_of_slot :: "CK_SLOT_ID \<Rightarrow> int" where
  "int_of_slot i = sint (ucast i :: 32 word)"

definition p11_publish_event ::
  "P11Env \<Rightarrow> P11 \<Rightarrow> EventType \<Rightarrow> Severity \<Rightarrow> int \<Rightarrow> string \<Rightarrow> string \<Rightarrow> string \<Rightarrow> string \<Rightarrow> string option \<Rightarrow> string \<Rightarrow> P11" where
  "p11_publish_event env st type severity slot_id token_label key_id summary detail_json user_label audit_event_type =
     (case (g_notificationBus st, g_auditLog st) of
        (Some bus, Some log) \<Rightarrow>
          let created_at = env_now_ms env;
              event = \<lparr>ev_type = type, ev_severity = severity, ev_timestamp = created_at,
                ev_source = ''slot:'' @ int_text slot_id @ ''/token:'' @ token_label @ ''/key:'' @ key_id,
                ev_actor = (case user_label of None \<Rightarrow> ''UNKNOWN'' | Some u \<Rightarrow> u),
                ev_summary = summary, ev_detail_json = detail_json, ev_hsm_instance = env_instance env\<rparr> in
          st\<lparr>g_notificationBus := Some (publish bus event),
             g_auditLog := Some (log\<lparr>sink_calls := sink_calls log @
               [(audit_event_type @ ''-'' @ int_text created_at, audit_event_type)]\<rparr>)\<rparr>
      | _ \<Rightarrow> st)"

subsection \<open>Composition root\<close>

datatype StoreBackend = Db | Ledger

record Config =
  cfg_default_backend :: StoreBackend
  cfg_store_backend :: "string option"
  cfg_ledger_endpoint :: "string option"
  cfg_ledger_cert :: "string option"
  cfg_ledger_key :: "string option"
  cfg_vault_path :: "string option"
  cfg_vault_password :: "string option"
  cfg_db_opens :: bool
  cfg_bootstrap :: "string option"

text \<open>The random bytes, temporary name and system call results of one vault save.\<close>

record SaveIo =
  io_salt :: bytes
  io_rnd :: bytes
  io_tmp :: string
  io_script :: "int list"

record AppContainer =
  c_slot_manager :: SlotManager
  c_backend :: StoreBackend
  c_bounded_bus :: BoundedNotificationBus
  c_login_throttle :: LoginThrottle
  c_audit_log :: AuditSink
  c_vault :: "Vault option"
  c_dispatcher :: bool

definition resolve_backend :: "Config \<Rightarrow> StoreBackend" where
  "resolve_backend cfg = (case cfg_store_backend cfg of
     Some v \<Rightarrow> if v = ''ledger'' then Ledger else if v = ''db'' then Db else cfg_default_backend cfg
   | None \<Rightarrow> cfg_default_backend cfg)"

definition nonempty_env :: "string option \<Rightarrow> bool" where
  "nonempty_env e = (case e of None \<Rightarrow> False | Some v \<Rightarrow> v \<noteq> [])"

definition check_backend_exclusivity :: "Config \<Rightarrow> StoreBackend \<Rightarrow> cpp_exn + unit" where
  "check_backend_exclusivity cfg backend =
     (if backend = Db \<and> nonempty_env (cfg_ledger_endpoint cfg) \<and> nonempty_env (cfg_ledger_cert cfg) \<and>
         nonempty_env (cfg_ledger_key cfg)
      then Inl runtime_error else Inr ())"

definition ensure_default_token_for_container :: "SlotManager \<Rightarrow> SlotManager" where
  "ensure_default_token_for_container sm =
     (let sm1 = (if v_get_slot sm 0 = None then snd (v_register_slot sm 0) else sm) in
      case v_get_slot sm1 0 of
        None \<Rightarrow> sm1
      | Some slot \<Rightarrow>
          if \<not> is_token_present slot
          then v_put_slot sm1 0 (insert_token slot (new_TokenCore ''vHSM Software Token'' ''vhsm-token-0'' 0))
          else sm1)"

definition slot_token :: "SlotManager \<Rightarrow> u64 \<Rightarrow> TokenCore option" where
  "slot_token sm i = (case v_get_slot sm i of None \<Rightarrow> None | Some sl \<Rightarrow> token_slot_m sl)"

definition open_or_create_vault ::
  "Scrypto \<Rightarrow> Config \<Rightarrow> SaveIo \<Rightarrow> file_system \<Rightarrow> SlotManager \<Rightarrow> Vault option \<times> SlotManager \<times> file_system" where
  "open_or_create_vault sc cfg io fs sm =
     (case (cfg_vault_path cfg, cfg_vault_password cfg, slot_token sm 0) of
        (Some path, Some password, Some token) \<Rightarrow>
          if path = [] then (None, sm, fs)
          else if fs path \<noteq> None then
            (case vault_open sc fs path password of
               Inl _ \<Rightarrow> (None, sm, fs)
             | Inr v \<Rightarrow>
                 if valid_m v then
                   (case restore_token_from_vault sc fs token v of
                      Inl _ \<Rightarrow> (None, sm, fs)
                    | Inr token' \<Rightarrow>
                        (case v_get_slot sm 0 of
                           Some slot \<Rightarrow> (Some v, v_put_slot sm 0 (insert_token slot token'), fs)
                         | None \<Rightarrow> (Some v, sm, fs)))
                 else (Some v, sm, fs))
          else
            (case serialize_token_snapshot (snapshot_from_token token) of
               Inl _ \<Rightarrow> (None, sm, fs)
             | Inr snap \<Rightarrow>
                 (case vault_create sc fs path password (io_salt io) (io_rnd io) (io_tmp io) (io_script io) snap of
                    (_, v, fs') \<Rightarrow> (v, sm, fs')))
      | _ \<Rightarrow> (None, sm, fs))"

text \<open>
  The audit log the container is wired with: hash-chained when the token has a key encryption key,
  the file-backed fallback otherwise.
\<close>

definition wire_audit_log :: "(bytes \<Rightarrow> bytes) \<Rightarrow> SlotManager \<Rightarrow> AuditSink" where
  "wire_audit_log derive_audit_chain_key sm =
     (let kek = (case slot_token sm 0 of None \<Rightarrow> [] | Some t \<Rightarrow> v_get_kek t) in
      \<lparr>sink_key = (if kek \<noteq> [] then Some (derive_audit_chain_key kek) else None), sink_calls = []\<rparr>)"

definition create_app_container ::
  "(SlotManager \<Rightarrow> cpp_exn + AppContainer \<times> file_system) \<Rightarrow> Scrypto \<Rightarrow> (bytes \<Rightarrow> bytes) \<Rightarrow> Config \<Rightarrow> SaveIo \<Rightarrow> file_system \<Rightarrow>
   cpp_exn + AppContainer \<times> file_system" where
  "create_app_container wire_ledger sc derive_audit_chain_key cfg io fs =
     (let sm = ensure_default_token_for_container []; backend = resolve_backend cfg in
      case check_backend_exclusivity cfg backend of
        Inl e \<Rightarrow> Inl e
      | Inr _ \<Rightarrow>
          (case backend of
             Ledger \<Rightarrow> wire_ledger sm
           | Db \<Rightarrow>
               if \<not> cfg_db_opens cfg then Inl runtime_error
               else (case cfg_bootstrap cfg of
                   None \<Rightarrow> Inl runtime_error
                 | Some _ \<Rightarrow>
                     let audit_log = wire_audit_log derive_audit_chain_key sm;
                         (vault, sm', fs') = open_or_create_vault sc cfg io fs sm in
                     Inr (\<lparr>c_slot_manager = sm', c_backend = backend,
                           c_bounded_bus = new_BoundedNotificationBus 1024,
                           c_login_throttle = new_LoginThrottle, c_audit_log = audit_log,
                           c_vault = vault, c_dispatcher = True\<rparr>, fs'))))"

subsection \<open>Library life cycle\<close>

text \<open>
  \<open>container\<close> is the result of \<open>create_app_container\<close>.  The container registers its slot manager before
  anything of it can throw, and an exception destroys the container without clearing that pointer.
\<close>

definition C_Initialize :: "P11 \<Rightarrow> cpp_exn + AppContainer \<times> file_system \<Rightarrow> bool \<Rightarrow> bool \<Rightarrow> CK_RV \<times> P11" where
  "C_Initialize st container fips_mode fips_self_test =
     (if g_initialized st then (CKR_CRYPTOKI_ALREADY_INITIALIZED, st)
      else case container of
        Inl _ \<Rightarrow> (CKR_GENERAL_ERROR, st\<lparr>g_slot_manager := Freed, login_throttle := None,
           g_notificationBus := None, g_auditLog := None, g_vault := None,
           g_signatureDispatcher := False\<rparr>)
      | Inr (c, fs) \<Rightarrow>
          let st1 = st\<lparr>g_slot_manager := Live (c_slot_manager c), login_throttle := Some (c_login_throttle c),
                g_notificationBus := Some (c_bounded_bus c), g_auditLog := Some (c_audit_log c),
                g_vault := c_vault c, p11_files := fs, g_signatureDispatcher := c_dispatcher c,
                g_initialized := True\<rparr> in
          if fips_mode \<and> \<not> fips_self_test then (CKR_GENERAL_ERROR, st1) else (CKR_OK, st1))"

definition C_Finalize :: "Scrypto \<Rightarrow> SaveIo \<Rightarrow> P11 \<Rightarrow> bool \<Rightarrow> CK_RV \<times> P11" where
  "C_Finalize sc io st reserved_null =
     (if \<not> g_initialized st then (CKR_CRYPTOKI_NOT_INITIALIZED, st)
      else if \<not> reserved_null then (CKR_ARGUMENTS_BAD, st)
      else let st1 = st\<lparr>g_initialized := False\<rparr>;
               fs' = (case (g_vault st1, p11_get_token st1 0) of
                   (Some v, Some token) \<Rightarrow>
                     snd (snd (persist_token_to_vault sc (p11_files st1) token v (io_salt io) (io_rnd io)
                       (io_tmp io) (io_script io)))
                 | _ \<Rightarrow> p11_files st1);
               st2 = st1\<lparr>g_vault := None, p11_files := fs', g_signatureDispatcher := False,
                 g_notificationBus := None\<rparr>;
               st3 = put_slot_manager st2 (v_reset (global_slot_manager st2)) in
           (CKR_OK, st3\<lparr>g_slot_manager := Null, login_throttle := None\<rparr>))"

record CK_INFO =
  cryptokiVersion :: "u8 \<times> u8"
  manufacturerID_i :: bytes
  libraryDescription :: bytes
  libraryVersion :: "u8 \<times> u8"

text \<open>\<open>memcpy\<close> of a string into a zeroed field of the given size.\<close>

definition zero_padded :: "nat \<Rightarrow> string \<Rightarrow> bytes" where
  "zero_padded n s = take n (bytes_of_string s) @ replicate (n - length s) 0"

definition C_GetInfo :: "u8 \<times> u8 \<Rightarrow> bool \<Rightarrow> CK_RV \<times> CK_INFO option" where
  "C_GetInfo vhsm_version has_pInfo =
     (if \<not> has_pInfo then (CKR_ARGUMENTS_BAD, None)
      else (CKR_OK, Some \<lparr>cryptokiVersion = (2, 40), manufacturerID_i = zero_padded 32 ''vHSM'',
        libraryDescription = zero_padded 32 ''vHSM PKCS#11 Module'', libraryVersion = vhsm_version\<rparr>))"

subsection \<open>Slots and tokens\<close>

definition copy_fixed :: "nat \<Rightarrow> string \<Rightarrow> bytes" where
  "copy_fixed dstLen src =
     (let s = takeWhile (\<lambda>c. c \<noteq> CHR 0x00) src; n = (if dstLen < length s then dstLen else length s) in
      take n (bytes_of_string s) @ replicate (dstLen - n) 0x20)"

definition supported_mechanisms :: "CK_MECHANISM_TYPE list" where
  "supported_mechanisms = [CKM_RSA_PKCS, CKM_RSA_X_509, CKM_RSA_PKCS_OAEP, CKM_RSA_PKCS_PSS,
     CKM_SHA256_RSA_PKCS, CKM_SHA384_RSA_PKCS, CKM_SHA512_RSA_PKCS, CKM_SHA256_RSA_PKCS_PSS,
     CKM_SHA384_RSA_PKCS_PSS, CKM_SHA512_RSA_PKCS_PSS, CKM_EC_KEY_PAIR_GEN, CKM_ECDSA, CKM_ECDSA_SHA256,
     CKM_ECDSA_SHA384, CKM_ECDSA_SHA512, CKM_SHA256, CKM_SHA384, CKM_SHA512, CKM_AES_ECB, CKM_AES_CBC,
     CKM_AES_GCM, CKM_AES_KEY_GEN, CKM_AES_KEY_WRAP, CKM_ECDH1_DERIVE]"

record CK_MECHANISM_INFO =
  ulMinKeySize :: CK_ULONG
  ulMaxKeySize :: CK_ULONG
  mech_flags :: CK_FLAGS

definition fill_mech_info :: "CK_MECHANISM_TYPE \<Rightarrow> CK_MECHANISM_INFO" where
  "fill_mech_info t =
     (let flags = (if t = CKM_SHA256 \<or> t = CKM_SHA384 \<or> t = CKM_SHA512 \<or> t = CKM_AES_KEY_GEN
            then CKF_HW OR CKF_DIGEST OR CKF_GENERATE
            else CKF_HW OR CKF_ENCRYPT OR CKF_DECRYPT OR CKF_SIGN OR CKF_VERIFY OR CKF_WRAP OR CKF_UNWRAP OR CKF_DERIVE);
          (mn, mx) =
            (if t = CKM_RSA_PKCS \<or> t = CKM_RSA_X_509 \<or> t = CKM_RSA_PKCS_OAEP \<or> t = CKM_RSA_PKCS_PSS \<or>
                t = CKM_SHA256_RSA_PKCS \<or> t = CKM_SHA384_RSA_PKCS \<or> t = CKM_SHA512_RSA_PKCS \<or>
                t = CKM_SHA256_RSA_PKCS_PSS \<or> t = CKM_SHA384_RSA_PKCS_PSS \<or> t = CKM_SHA512_RSA_PKCS_PSS
             then (2048, 4096)
             else if t = CKM_EC_KEY_PAIR_GEN \<or> t = CKM_ECDSA \<or> t = CKM_ECDSA_SHA256 \<or> t = CKM_ECDSA_SHA384 \<or>
                t = CKM_ECDSA_SHA512 \<or> t = CKM_ECDH1_DERIVE
             then (256, 521)
             else if t = CKM_AES_ECB \<or> t = CKM_AES_CBC \<or> t = CKM_AES_GCM \<or> t = CKM_AES_KEY_GEN \<or> t = CKM_AES_KEY_WRAP
             then (128, 256)
             else (0, 0)) in
      \<lparr>ulMinKeySize = mn, ulMaxKeySize = mx, mech_flags = flags\<rparr>)"

text \<open>
  The two-call convention of list results: without a buffer only the count is written; a buffer that
  is too short leaves the count needed; otherwise the items and their count are written.
\<close>

definition list_result :: "'a list \<Rightarrow> bool \<Rightarrow> CK_ULONG \<Rightarrow> CK_RV \<times> 'a list option \<times> CK_ULONG option" where
  "list_result items has_buffer count =
     (if \<not> has_buffer then (CKR_OK, None, Some (of_nat (length items)))
      else if unat count < length items then (CKR_BUFFER_TOO_SMALL, None, Some (of_nat (length items)))
      else (CKR_OK, Some items, Some (of_nat (length items))))"

definition C_GetSlotList :: "P11 \<Rightarrow> CK_BBOOL \<Rightarrow> bool \<Rightarrow> CK_ULONG option \<Rightarrow> CK_RV \<times> CK_SLOT_ID list option \<times> CK_ULONG option" where
  "C_GetSlotList st tokenPresent has_pSlotList pulCount = (case pulCount of
     None \<Rightarrow> (CKR_ARGUMENTS_BAD, None, None)
   | Some count \<Rightarrow>
       let ids = v_get_slot_id_list (global_slot_manager st);
           ids = (if tokenPresent \<noteq> 0
                  then filter (\<lambda>i. case v_get_slot (global_slot_manager st) i of
                    None \<Rightarrow> False | Some sp \<Rightarrow> is_token_present sp) ids
                  else ids) in
       list_result ids has_pSlotList count)"

record CK_SLOT_INFO =
  slotDescription :: bytes
  manufacturerID_s :: bytes
  slot_flags :: CK_FLAGS
  hardwareVersion_s :: "u8 \<times> u8"
  firmwareVersion_s :: "u8 \<times> u8"

definition C_GetSlotInfo :: "P11 \<Rightarrow> CK_SLOT_ID \<Rightarrow> bool \<Rightarrow> CK_RV \<times> CK_SLOT_INFO option" where
  "C_GetSlotInfo st slotID has_pInfo =
     (if \<not> has_pInfo then (CKR_ARGUMENTS_BAD, None)
      else case p11_get_slot st slotID of
        None \<Rightarrow> (CKR_SLOT_ID_INVALID, None)
      | Some slot \<Rightarrow> (CKR_OK, Some \<lparr>slotDescription = copy_fixed 64 (description_m slot),
          manufacturerID_s = copy_fixed 32 (manufacturer_id_m slot), slot_flags = slot_get_flags slot,
          hardwareVersion_s = (1, 0), firmwareVersion_s = (1, 0)\<rparr>))"

record CK_TOKEN_INFO =
  label_ti :: bytes
  manufacturerID_ti :: bytes
  model_ti :: bytes
  serialNumber_ti :: bytes
  flags_ti :: CK_FLAGS
  ulMaxSessionCount :: CK_ULONG
  ulSessionCount :: CK_ULONG
  ulMaxRwSessionCount :: CK_ULONG
  ulRwSessionCount :: CK_ULONG
  ulMaxPinLen :: CK_ULONG
  ulMinPinLen :: CK_ULONG
  ulTotalPublicMemory :: CK_ULONG
  ulFreePublicMemory :: CK_ULONG
  ulTotalPrivateMemory :: CK_ULONG
  ulFreePrivateMemory :: CK_ULONG
  hardwareVersion_ti :: "u8 \<times> u8"
  firmwareVersion_ti :: "u8 \<times> u8"

definition C_GetTokenInfo :: "P11 \<Rightarrow> CK_SLOT_ID \<Rightarrow> bool \<Rightarrow> CK_RV \<times> CK_TOKEN_INFO option" where
  "C_GetTokenInfo st slotID has_pInfo =
     (if \<not> has_pInfo then (CKR_ARGUMENTS_BAD, None)
      else case p11_get_token st slotID of
        None \<Rightarrow> (CKR_SLOT_ID_INVALID, None)
      | Some tok \<Rightarrow>
          let flags = CKF_RNG OR
                (if v_token_initialized tok \<noteq> 0 then CKF_TOKEN_INITIALIZED else 0) OR
                (if v_user_login_required tok \<noteq> 0 then CKF_LOGIN_REQUIRED else 0) OR
                (if v_user_pin_set tok \<noteq> 0 then CKF_USER_PIN_INITIALIZED else 0) OR
                (if v_so_pin_set tok \<noteq> 0 then CKF_SO_PIN_INITIALIZED else 0) in
          (CKR_OK, Some \<lparr>label_ti = copy_fixed 32 (v_label tok), manufacturerID_ti = copy_fixed 32 ''vHSM'',
            model_ti = copy_fixed 16 ''vHSM-SW'', serialNumber_ti = copy_fixed 16 (v_id tok), flags_ti = flags,
            ulMaxSessionCount = 1024, ulSessionCount = v_session_count tok,
            ulMaxRwSessionCount = 1024, ulRwSessionCount = v_rw_session_count tok,
            ulMaxPinLen = 256, ulMinPinLen = 4,
            ulTotalPublicMemory = CK_UNAVAILABLE_INFORMATION, ulFreePublicMemory = CK_UNAVAILABLE_INFORMATION,
            ulTotalPrivateMemory = CK_UNAVAILABLE_INFORMATION, ulFreePrivateMemory = CK_UNAVAILABLE_INFORMATION,
            hardwareVersion_ti = (1, 0), firmwareVersion_ti = (1, 0)\<rparr>))"

definition C_GetMechanismList :: "bool \<Rightarrow> CK_ULONG option \<Rightarrow> CK_RV \<times> CK_MECHANISM_TYPE list option \<times> CK_ULONG option" where
  "C_GetMechanismList has_pMechanismList pulCount = (case pulCount of
     None \<Rightarrow> (CKR_ARGUMENTS_BAD, None, None)
   | Some count \<Rightarrow> list_result supported_mechanisms has_pMechanismList count)"

definition C_GetMechanismInfo :: "CK_MECHANISM_TYPE \<Rightarrow> bool \<Rightarrow> CK_RV \<times> CK_MECHANISM_INFO option" where
  "C_GetMechanismInfo type has_pInfo =
     (if \<not> has_pInfo then (CKR_ARGUMENTS_BAD, None)
      else if type \<notin> set supported_mechanisms then (CKR_MECHANISM_INVALID, None)
      else (CKR_OK, Some (fill_mech_info type)))"

definition C_InitToken :: "P11 \<Rightarrow> CK_SLOT_ID \<Rightarrow> bytes option \<Rightarrow> CK_ULONG \<Rightarrow> CK_RV \<times> P11" where
  "C_InitToken st slotID pPin ulPinLen = (case p11_get_token st slotID of
     None \<Rightarrow> (CKR_SLOT_ID_INVALID, st)
   | Some tok \<Rightarrow>
       if pPin \<noteq> None \<and> 0 < ulPinLen
       then let (rv, tok') = initialize_so_pin tok pPin ulPinLen in (rv, p11_put_token st slotID tok')
       else (CKR_OK, st))"

definition put_session_token :: "P11 \<Rightarrow> CK_SESSION_HANDLE \<Rightarrow> TokenCore \<Rightarrow> P11" where
  "put_session_token st hSession tok = (case p11_get_session st hSession of
     None \<Rightarrow> st
   | Some s \<Rightarrow> p11_put_token st (slotID_m s) tok)"

definition C_InitPIN :: "P11 \<Rightarrow> CK_SESSION_HANDLE \<Rightarrow> bytes option \<Rightarrow> CK_ULONG \<Rightarrow> CK_RV \<times> P11" where
  "C_InitPIN st hSession pPin ulPinLen = (case p11_get_token_for_session st hSession of
     None \<Rightarrow> (CKR_SESSION_HANDLE_INVALID, st)
   | Some tok \<Rightarrow>
       if pPin = None then (CKR_ARGUMENTS_BAD, st)
       else let (rv, tok') = initialize_user_pin tok pPin ulPinLen in (rv, put_session_token st hSession tok'))"

definition C_SetPIN ::
  "P11 \<Rightarrow> CK_SESSION_HANDLE \<Rightarrow> bytes option \<Rightarrow> CK_ULONG \<Rightarrow> bytes option \<Rightarrow> CK_ULONG \<Rightarrow> CK_RV \<times> P11" where
  "C_SetPIN st hSession pOldPin ulOldLen pNewPin ulNewLen = (case p11_get_token_for_session st hSession of
     None \<Rightarrow> (CKR_SESSION_HANDLE_INVALID, st)
   | Some tok \<Rightarrow>
       if pNewPin = None then (CKR_ARGUMENTS_BAD, st)
       else let (rv, tok') =
              (if pOldPin \<noteq> None \<and> 0 < ulOldLen then change_user_pin tok pOldPin ulOldLen pNewPin ulNewLen
               else set_user_pin tok None 0 pNewPin ulNewLen) in
         (rv, put_session_token st hSession tok'))"

subsection \<open>Sessions\<close>

definition C_OpenSession ::
  "P11 \<Rightarrow> CK_SLOT_ID \<Rightarrow> CK_FLAGS \<Rightarrow> u64 \<Rightarrow> u64 \<Rightarrow> bool \<Rightarrow> CK_RV \<times> CK_SESSION_HANDLE option \<times> P11" where
  "C_OpenSession st slotID flags pApplication notify has_phSession =
     (if \<not> p11_is_initialized st then (CKR_CRYPTOKI_NOT_INITIALIZED, None, st)
      else if \<not> has_phSession then (CKR_ARGUMENTS_BAD, None, st)
      else if p11_get_slot st slotID = None then (CKR_SLOT_ID_INVALID, None, st)
      else let (rv, h, m) = openSession (g_sessionManager st) slotID flags pApplication notify has_phSession in
        (rv, h, st\<lparr>g_sessionManager := m\<rparr>))"

definition C_CloseSession :: "P11 \<Rightarrow> CK_SESSION_HANDLE \<Rightarrow> CK_RV \<times> P11" where
  "C_CloseSession st hSession =
     (if \<not> p11_is_initialized st then (CKR_CRYPTOKI_NOT_INITIALIZED, st)
      else let (rv, m) = v_close_session (g_sessionManager st) hSession in (rv, st\<lparr>g_sessionManager := m\<rparr>))"

definition C_CloseAllSessions :: "P11 \<Rightarrow> CK_SLOT_ID \<Rightarrow> CK_RV \<times> P11" where
  "C_CloseAllSessions st slotID =
     (if \<not> p11_is_initialized st then (CKR_CRYPTOKI_NOT_INITIALIZED, st)
      else let (rv, m) = v_close_all_sessions (g_sessionManager st) slotID in (rv, st\<lparr>g_sessionManager := m\<rparr>))"

record CK_SESSION_INFO =
  si_slotID :: CK_SLOT_ID
  si_state :: CK_STATE
  si_flags :: CK_FLAGS
  si_ulDeviceError :: CK_ULONG

definition C_GetSessionInfo :: "P11 \<Rightarrow> CK_SESSION_HANDLE \<Rightarrow> bool \<Rightarrow> CK_RV \<times> CK_SESSION_INFO option" where
  "C_GetSessionInfo st hSession has_pInfo =
     (if \<not> has_pInfo then (CKR_ARGUMENTS_BAD, None)
      else case p11_get_session st hSession of
        None \<Rightarrow> (CKR_SESSION_HANDLE_INVALID, None)
      | Some s \<Rightarrow>
          let ut = userType_m s; rw = (flags_m s AND CKF_RW_SESSION \<noteq> 0);
              state = (if ut = CKU_USER then (if rw then CKS_RW_USER_FUNCTIONS else CKS_RO_USER_FUNCTIONS)
                else if ut = CKU_SO then (if rw then CKS_RW_SO_FUNCTIONS else CKS_RO_SO_FUNCTIONS)
                else (if rw then CKS_RW_PUBLIC_SESSION else CKS_RO_PUBLIC_SESSION)) in
          (CKR_OK, Some \<lparr>si_slotID = slotID_m s, si_state = state, si_flags = flags_m s, si_ulDeviceError = 0\<rparr>))"

definition throttle_key :: "CK_SLOT_ID \<Rightarrow> CK_USER_TYPE \<Rightarrow> string" where
  "throttle_key slotID userType = to_string (unat slotID) @ '':'' @ to_string (unat userType)"

definition pin_locked :: "TokenCore \<Rightarrow> CK_USER_TYPE \<Rightarrow> bool" where
  "pin_locked tok userType =
     (if userType = CKU_USER then v_user_pin_locked tok = CK_TRUE else v_so_pin_locked tok = CK_TRUE)"

definition record_attempt :: "LoginThrottle option \<Rightarrow> string \<Rightarrow> CK_RV \<Rightarrow> LoginThrottle option" where
  "record_attempt throttle key rv = (case throttle of
     None \<Rightarrow> None
   | Some th \<Rightarrow> Some
       (if rv = CKR_OK \<or> rv = CKR_PIN_LOCKED then record_success th key
        else if rv \<noteq> CKR_PIN_INCORRECT \<and> rv \<noteq> CKR_PIN_INVALID then th
        else record_failure th key))"

text \<open>The lockout event of \<open>C_Login\<close>.\<close>

definition publish_lockout :: "P11Env \<Rightarrow> P11 \<Rightarrow> Session \<Rightarrow> TokenCore \<Rightarrow> CK_USER_TYPE \<Rightarrow> P11" where
  "publish_lockout env st s tok userType =
     p11_publish_event env st PIN_LOCKOUT WARNING (int_of_slot (slotID_m s)) (v_label tok) (''token:'' @ v_id tok)
       (''PIN lockout: '' @ (if userType = CKU_USER then ''user'' else ''SO'') @ '' PIN locked after '' @
        to_string (unat (v_max_failed_attempts tok)) @ '' failed attempts'')
       (''{\"user_type\":\"'' @ (if userType = CKU_USER then ''CKU_USER'' else ''CKU_SO'') @
        ''\",\"max_attempts\":'' @ to_string (unat (v_max_failed_attempts tok)) @ ''}'')
       None ''C_Login''"

text \<open>The second component is the time in milliseconds the call sleeps before the verification.\<close>

definition C_Login ::
  "P11Env \<Rightarrow> P11 \<Rightarrow> CK_SESSION_HANDLE \<Rightarrow> CK_USER_TYPE \<Rightarrow> bytes option \<Rightarrow> CK_ULONG \<Rightarrow> CK_RV \<times> u32 \<times> P11" where
  "C_Login env st hSession userType pPin ulPinLen =
     (if \<not> p11_is_initialized st then (CKR_CRYPTOKI_NOT_INITIALIZED, 0, st)
      else if userType \<noteq> CKU_USER \<and> userType \<noteq> CKU_SO then (CKR_USER_TYPE_INVALID, 0, st)
      else case (p11_get_token_for_session st hSession, p11_get_session st hSession) of
        (Some tok, Some s) \<Rightarrow>
          let was_locked = pin_locked tok userType;
              key = throttle_key (slotID_m s) userType;
              delay_ms = (case login_throttle st of None \<Rightarrow> 0 | Some th \<Rightarrow> delay_before_attempt th key);
              (rv, tok') = login tok userType pPin ulPinLen;
              st1 = p11_put_token st (slotID_m s) tok';
              st2 = st1\<lparr>login_throttle := record_attempt (login_throttle st1) key rv\<rparr> in
          if rv = CKR_OK then
            let (rv2, s') = session_login s userType in (rv2, delay_ms, p11_put_session st2 hSession s')
          else
            let now_locked = pin_locked tok' userType in
            (rv, delay_ms, if \<not> was_locked \<and> now_locked then publish_lockout env st2 s tok' userType else st2)
      | _ \<Rightarrow> (CKR_SESSION_HANDLE_INVALID, 0, st))"

definition C_Logout :: "P11 \<Rightarrow> CK_SESSION_HANDLE \<Rightarrow> CK_RV \<times> P11" where
  "C_Logout st hSession =
     (if \<not> p11_is_initialized st then (CKR_CRYPTOKI_NOT_INITIALIZED, st)
      else case (p11_get_token_for_session st hSession, p11_get_session st hSession) of
        (Some tok, Some s) \<Rightarrow>
          let rv = logout tok (userType_m s) in
          if rv = CKR_OK \<or> rv = CKR_USER_NOT_LOGGED_IN
          then (CKR_OK, p11_put_session st hSession (clearFindResults (opEnd (snd (session_logout s)))))
          else (rv, st)
      | _ \<Rightarrow> (CKR_SESSION_HANDLE_INVALID, st))"

subsection \<open>Random numbers\<close>

definition C_SeedRandom :: "bytes option \<Rightarrow> CK_ULONG \<Rightarrow> CK_RV" where
  "C_SeedRandom pSeed ulSeedLen = (if pSeed = None \<and> 0 < ulSeedLen then CKR_ARGUMENTS_BAD else CKR_OK)"

text \<open>\<open>rng_bytes n\<close> is what the random generator delivers, an exception included.\<close>

definition C_GenerateRandom :: "(nat \<Rightarrow> cpp_exn + bytes) \<Rightarrow> bool \<Rightarrow> CK_ULONG \<Rightarrow> CK_RV \<times> bytes option" where
  "C_GenerateRandom rng_bytes has_RandomData ulRandomLen =
     (if \<not> has_RandomData then (CKR_ARGUMENTS_BAD, None)
      else if ulRandomLen = 0 then (CKR_OK, None)
      else case rng_bytes (unat ulRandomLen) of
        Inl _ \<Rightarrow> (CKR_GENERAL_ERROR, None)
      | Inr bs \<Rightarrow> (CKR_OK, Some bs))"

subsection \<open>Session access\<close>

lemma p11_session_handle: "p11_get_session st h = Some s \<Longrightarrow> handle_m s = h"
  using get_session_Some by (auto simp: p11_get_session_def)

lemma p11_get_put_session:
  assumes "p11_get_session st h = Some s0" "handle_m s = h"
  shows "p11_get_session (p11_put_session st h s) g = (if g = h then Some s else p11_get_session st g)"
proof -
  have "find (\<lambda>x. handle_m x = g) (map (\<lambda>x. if handle_m x = h then s else x) xs) =
     (if g = h then (if h \<in> handle_m ` set xs then Some s else None) else find (\<lambda>x. handle_m x = g) xs)" for xs
    using assms(2) by (induction xs) auto
  moreover have "h \<in> handle_m ` set (v_sessions (g_sessionManager st))"
    using get_session_None [of "g_sessionManager st" h] assms(1) by (simp add: p11_get_session_def)
  ultimately show ?thesis by (simp add: p11_get_session_def p11_put_session_def v_get_session_def v_put_session_def)
qed

lemma p11_put_put: "handle_m s = h \<Longrightarrow> p11_put_session (p11_put_session st h s) h s' = p11_put_session st h s'"
  by (auto simp: p11_put_session_def v_put_session_def)

lemma p11_put_session_fields [simp]:
  "g_initialized (p11_put_session st h s) = g_initialized st"
  "g_slot_manager (p11_put_session st h s) = g_slot_manager st"
  "slot_fallback (p11_put_session st h s) = slot_fallback st"
  "g_notificationBus (p11_put_session st h s) = g_notificationBus st"
  "g_auditLog (p11_put_session st h s) = g_auditLog st"
  "g_signatureDispatcher (p11_put_session st h s) = g_signatureDispatcher st"
  "p11_db (p11_put_session st h s) = p11_db st"
  "p11_get_token (p11_put_session st h s) i = p11_get_token st i"
  by (simp_all add: p11_put_session_def p11_get_token_def global_slot_manager_def cong: slot_ptr.case_cong)

lemma p11_get_session_fields [simp]:
  "p11_get_session (st\<lparr>p11_db := d, g_notificationBus := b\<rparr>) h = p11_get_session st h"
  "p11_get_session (st\<lparr>g_notificationBus := b, g_auditLog := l\<rparr>) h = p11_get_session st h"
  "p11_put_session (st\<lparr>p11_db := d, g_notificationBus := b\<rparr>) h s = (p11_put_session st h s)\<lparr>p11_db := d, g_notificationBus := b\<rparr>"
  "p11_put_session (st\<lparr>g_notificationBus := b, g_auditLog := l\<rparr>) h s = (p11_put_session st h s)\<lparr>g_notificationBus := b, g_auditLog := l\<rparr>"
  by (simp_all add: p11_get_session_def p11_put_session_def)

end
