(* ===== verification/P11Object.thy ===== *)
theory P11Object
  imports P11State "HOL-Library.AList"
begin

text \<open>
  The object entry points of pkcs11/p11\_object.cpp with the attribute helpers of
  pkcs11/p11\_internal.cpp.  Objects live in the store of the session.  A template is the list of its
  attributes (an empty template is the null pointer with count zero); \<open>std::unordered_map\<close>
  assignment is an update of an association list.
\<close>

subsection \<open>Attribute helpers\<close>

fun p11_apply_template :: "HsmObject \<Rightarrow> CK_ATTRIBUTE list \<Rightarrow> CK_RV \<times> HsmObject" where
  "p11_apply_template obj [] = (CKR_OK, obj)"
| "p11_apply_template obj (a # as) =
     (if atype a AND CKF_ARRAY_ATTRIBUTE \<noteq> 0 then p11_apply_template obj as
      else if pValue a = None \<and> ulValueLen a \<noteq> 0 then (CKR_ARGUMENTS_BAD, obj)
      else if pValue a = None then p11_apply_template obj as
      else case setAttribute obj (atype a) (pValue a) (ulValueLen a) of
          Inl e \<Rightarrow> (VHSM_C_CATCH e, obj)
        | Inr obj' \<Rightarrow> p11_apply_template obj' as)"

text \<open>The return code, what is written to the value buffer, and the length written back.\<close>

definition p11_get_attr :: "HsmObject \<Rightarrow> CK_ATTRIBUTE \<Rightarrow> CK_RV \<times> bytes option \<times> CK_ULONG" where
  "p11_get_attr obj a =
     (case v_get_attribute obj (atype a) (pValue a \<noteq> None) (Some (ulValueLen a)) of
        (rv, v, len) \<Rightarrow> (rv, v, case len of None \<Rightarrow> ulValueLen a | Some l \<Rightarrow> l))"

definition p11_get_attr_bytes :: "HsmObject \<Rightarrow> CK_ATTRIBUTE_TYPE \<Rightarrow> bytes" where
  "p11_get_attr_bytes obj t = (case findAttribute obj t of None \<Rightarrow> [] | Some v \<Rightarrow> v)"

definition p11_store_secret :: "HsmObject \<Rightarrow> bytes \<Rightarrow> HsmObject" where
  "p11_store_secret obj raw = set_attr_vec obj CKA_VALUE raw"

subsection \<open>Templates\<close>

definition class_from_attr :: "CK_ULONG \<Rightarrow> ObjectType" where
  "class_from_attr c =
     (if c = CKO_DATA then DATA
      else if c = CKO_CERTIFICATE then CERTIFICATE
      else if c = CKO_PUBLIC_KEY then PUBLIC_KEY
      else if c = CKO_PRIVATE_KEY then PRIVATE_KEY
      else if c = CKO_SECRET_KEY then SECRET_KEY
      else OTHER)"

record template_flags =
  tf_cls :: "CK_ULONG option"
  tf_sensitive :: bool
  tf_extractable :: bool
  tf_token :: bool
  tf_priv :: bool

definition parse_attr :: "CK_ATTRIBUTE \<Rightarrow> template_flags \<Rightarrow> template_flags" where
  "parse_attr a f = (case pValue a of
     None \<Rightarrow> f
   | Some v \<Rightarrow>
       if atype a = CKA_CLASS \<and> ulValueLen a = 8 then f\<lparr>tf_cls := Some (get_le64 v)\<rparr>
       else if atype a = CKA_TOKEN \<and> ulValueLen a = 1 then f\<lparr>tf_token := (v ! 0 = CK_TRUE)\<rparr>
       else if atype a = CKA_PRIVATE \<and> ulValueLen a = 1 then f\<lparr>tf_priv := (v ! 0 = CK_TRUE)\<rparr>
       else if atype a = CKA_SENSITIVE \<and> ulValueLen a = 1 then f\<lparr>tf_sensitive := (v ! 0 = CK_TRUE)\<rparr>
       else if atype a = CKA_EXTRACTABLE \<and> ulValueLen a = 1 then f\<lparr>tf_extractable := (v ! 0 = CK_TRUE)\<rparr>
       else f)"

text \<open>\<open>None\<close> is the result false; otherwise type, sensitive, extractable, token and private.\<close>

definition parse_class_and_flags :: "CK_ATTRIBUTE list \<Rightarrow> (ObjectType \<times> bool \<times> bool \<times> bool \<times> bool) option" where
  "parse_class_and_flags t =
     (let f = fold parse_attr t \<lparr>tf_cls = None, tf_sensitive = False, tf_extractable = True,
                tf_token = False, tf_priv = False\<rparr> in
      case tf_cls f of
        None \<Rightarrow> None
      | Some cls \<Rightarrow> Some (class_from_attr cls, tf_sensitive f, tf_extractable f, tf_token f, tf_priv f))"

definition material_attributes :: "CK_ATTRIBUTE_TYPE list" where
  "material_attributes = [CKA_VALUE, CKA_KEY_TYPE, CKA_EC_PARAMS, CKA_EC_POINT, CKA_VHSM_RSA_PUB,
     CKA_VHSM_RSA_PRIV, CKA_VHSM_EC_PUB, CKA_VHSM_EC_PRIV, CKA_LABEL, CKA_ID, CKA_MODULUS_BITS, CKA_CLASS]"

definition copy_material :: "HsmObject \<Rightarrow> HsmObject \<Rightarrow> HsmObject" where
  "copy_material dst src =
     fold (\<lambda>t d. case findAttribute src t of
         None \<Rightarrow> d
       | Some v \<Rightarrow> if v \<noteq> [] then set_attr_vec d t v else d)
       material_attributes dst"

definition match_attr :: "HsmObject \<Rightarrow> CK_ATTRIBUTE \<Rightarrow> bool" where
  "match_attr obj a =
     (if atype a AND CKF_ARRAY_ATTRIBUTE \<noteq> 0 then True
      else case pValue a of
        None \<Rightarrow>
          let rv = fst (v_get_attribute obj (atype a) False (Some 0)) in
          rv = CKR_BUFFER_TOO_SMALL \<or> rv = CKR_OK
      | Some v \<Rightarrow>
          (case v_get_attribute obj (atype a) True (Some (ulValueLen a)) of
             (rv, buf, len) \<Rightarrow>
               rv = CKR_OK \<and> len = Some (ulValueLen a) \<and>
               (case buf of None \<Rightarrow> True | Some b \<Rightarrow> b = take (unat (ulValueLen a)) v)))"

definition match_object :: "HsmObject \<Rightarrow> CK_ATTRIBUTE list \<Rightarrow> bool" where
  "match_object obj t = list_all (match_attr obj) t"

subsection \<open>Entry points\<close>

text \<open>A change of a session's object store.\<close>

definition put_store :: "P11 \<Rightarrow> CK_SESSION_HANDLE \<Rightarrow> Session \<Rightarrow> ObjectStore \<Rightarrow> P11" where
  "put_store st hSession s os = p11_put_session st hSession (s\<lparr>objectStore_m := os\<rparr>)"

definition C_CreateObject ::
  "P11 \<Rightarrow> CK_SESSION_HANDLE \<Rightarrow> CK_ATTRIBUTE list \<Rightarrow> bool \<Rightarrow> CK_RV \<times> CK_OBJECT_HANDLE option \<times> P11" where
  "C_CreateObject st hSession pTemplate has_phObject =
     (if \<not> p11_is_initialized st then (CKR_CRYPTOKI_NOT_INITIALIZED, None, st)
      else if \<not> has_phObject then (CKR_ARGUMENTS_BAD, None, st)
      else case p11_get_session st hSession of
        None \<Rightarrow> (CKR_SESSION_HANDLE_INVALID, None, st)
      | Some s \<Rightarrow> (case parse_class_and_flags pTemplate of
          None \<Rightarrow> (CKR_TEMPLATE_INCOMPLETE, None, st)
        | Some (type, sensitive, extractable, token, priv) \<Rightarrow>
            let obj = new_HsmObject type sensitive extractable token priv;
                (handle, os) = v_create_object (objectStore_m s) obj;
                (rv, obj') = p11_apply_template obj pTemplate;
                os' = v_put_object os handle obj' in
            if rv \<noteq> CKR_OK then (rv, None, put_store st hSession s (snd (v_destroy_object os' handle)))
            else (CKR_OK, Some handle, put_store st hSession s os')))"

definition C_CopyObject ::
  "P11 \<Rightarrow> CK_SESSION_HANDLE \<Rightarrow> CK_OBJECT_HANDLE \<Rightarrow> CK_ATTRIBUTE list \<Rightarrow> bool \<Rightarrow> CK_RV \<times> CK_OBJECT_HANDLE option \<times> P11" where
  "C_CopyObject st hSession hObject pTemplate has_phNewObject =
     (if \<not> p11_is_initialized st then (CKR_CRYPTOKI_NOT_INITIALIZED, None, st)
      else if \<not> has_phNewObject then (CKR_ARGUMENTS_BAD, None, st)
      else case p11_get_session st hSession of
        None \<Rightarrow> (CKR_SESSION_HANDLE_INVALID, None, st)
      | Some s \<Rightarrow> (case p11_get_object st hSession hObject of
          None \<Rightarrow> (CKR_OBJECT_HANDLE_INVALID, None, st)
        | Some src \<Rightarrow>
            if sensitive_m src then (CKR_ACTION_PROHIBITED, None, st)
            else
              let obj = new_HsmObject (type_m src) (sensitive_m src) (extractable_m src) (token_m src) (private_m src);
                  (handle, os) = v_create_object (objectStore_m s) obj;
                  (rv, obj') = p11_apply_template (copy_material obj src) pTemplate;
                  os' = v_put_object os handle obj' in
              if rv \<noteq> CKR_OK then (rv, None, put_store st hSession s (snd (v_destroy_object os' handle)))
              else (CKR_OK, Some handle, put_store st hSession s os')))"

definition C_DestroyObject :: "P11Env \<Rightarrow> P11 \<Rightarrow> CK_SESSION_HANDLE \<Rightarrow> CK_OBJECT_HANDLE \<Rightarrow> CK_RV \<times> P11" where
  "C_DestroyObject env st hSession hObject =
     (if \<not> p11_is_initialized st then (CKR_CRYPTOKI_NOT_INITIALIZED, st)
      else case p11_get_session st hSession of
        None \<Rightarrow> (CKR_SESSION_HANDLE_INVALID, st)
      | Some s \<Rightarrow>
          if \<not> v_is_valid_handle (objectStore_m s) hObject then (CKR_OBJECT_HANDLE_INVALID, st)
          else let (ok, os) = v_destroy_object (objectStore_m s) hObject; st1 = put_store st hSession s os in
            if \<not> ok then (CKR_OBJECT_HANDLE_INVALID, st1)
            else let token_label = (case p11_get_token_for_session st1 hSession of
                         None \<Rightarrow> ''unknown'' | Some t \<Rightarrow> v_label t) in
              (CKR_OK, p11_publish_event env st1 KEY_DESTROYED WARNING (int_of_slot (slotID_m s)) token_label
                 (to_string (unat hObject))
                 (''C_DestroyObject completed for handle '' @ to_string (unat hObject))
                 (''{\"destroyed_object_handle\":'' @ to_string (unat hObject) @ ''}'') None ''C_DestroyObject''))"

definition C_GetObjectSize :: "P11 \<Rightarrow> CK_SESSION_HANDLE \<Rightarrow> CK_OBJECT_HANDLE \<Rightarrow> bool \<Rightarrow> CK_RV \<times> CK_ULONG option" where
  "C_GetObjectSize st hSession hObject has_pulSize =
     (if \<not> has_pulSize then (CKR_ARGUMENTS_BAD, None)
      else case p11_get_object st hSession hObject of
        None \<Rightarrow> (CKR_OBJECT_HANDLE_INVALID, None)
      | Some obj \<Rightarrow>
          (CKR_OK, Some (case findAttribute obj CKA_VALUE of
             Some v \<Rightarrow> of_nat (length v)
           | None \<Rightarrow> (case findAttribute obj CKA_VHSM_RSA_PRIV of
               Some v \<Rightarrow> of_nat (length v)
             | None \<Rightarrow> (case findAttribute obj CKA_VHSM_EC_PRIV of
                 Some v \<Rightarrow> of_nat (length v)
               | None \<Rightarrow> 0)))))"

text \<open>The overall code and, per attribute, the bytes copied and the length written back.\<close>

definition C_GetAttributeValue ::
  "P11 \<Rightarrow> CK_SESSION_HANDLE \<Rightarrow> CK_OBJECT_HANDLE \<Rightarrow> CK_ATTRIBUTE list \<Rightarrow> CK_RV \<times> (bytes option \<times> CK_ULONG) list" where
  "C_GetAttributeValue st hSession hObject pTemplate =
     (if \<not> p11_is_initialized st then (CKR_CRYPTOKI_NOT_INITIALIZED, [])
      else case p11_get_object st hSession hObject of
        None \<Rightarrow> (CKR_OBJECT_HANDLE_INVALID, [])
      | Some obj \<Rightarrow>
          (fold (\<lambda>a rv. let r = fst (p11_get_attr obj a) in
             if r \<noteq> CKR_OK \<and> r \<noteq> CKR_BUFFER_TOO_SMALL then r else rv) pTemplate CKR_OK,
           map (\<lambda>a. snd (p11_get_attr obj a)) pTemplate))"

definition C_SetAttributeValue ::
  "P11 \<Rightarrow> CK_SESSION_HANDLE \<Rightarrow> CK_OBJECT_HANDLE \<Rightarrow> CK_ATTRIBUTE list \<Rightarrow> CK_RV \<times> P11" where
  "C_SetAttributeValue st hSession hObject pTemplate =
     (if \<not> p11_is_initialized st then (CKR_CRYPTOKI_NOT_INITIALIZED, st)
      else case (p11_get_session st hSession, p11_get_object st hSession hObject) of
        (Some s, Some obj) \<Rightarrow>
          let (rv, obj') = fold (\<lambda>a (rv, ob). case v_set_attribute ob (Some a) of
                (r, ob') \<Rightarrow> (if r \<noteq> CKR_OK then r else rv, ob')) pTemplate (CKR_OK, obj);
              os = v_put_object (objectStore_m s) hObject obj' in
          (rv, put_store st hSession s (if rv = CKR_OK then v_reindex os hObject else os))
      | _ \<Rightarrow> (CKR_OBJECT_HANDLE_INVALID, st))"

definition use_index :: "CK_ATTRIBUTE list \<Rightarrow> bool" where
  "use_index t = (0 < length t \<and> length t \<le> 3 \<and>
     list_all (\<lambda>a. atype a = CKA_CLASS \<or> atype a = CKA_LABEL \<or> atype a = CKA_ID) t)"

definition index_template :: "CK_ATTRIBUTE list \<Rightarrow> attr_template" where
  "index_template t = fold (\<lambda>a m. AList.update (atype a) (read_mem (pValue a) (ulValueLen a)) m) t []"

definition C_FindObjectsInit :: "P11 \<Rightarrow> CK_SESSION_HANDLE \<Rightarrow> CK_ATTRIBUTE list \<Rightarrow> CK_RV \<times> P11" where
  "C_FindObjectsInit st hSession pTemplate =
     (if \<not> p11_is_initialized st then (CKR_CRYPTOKI_NOT_INITIALIZED, st)
      else case p11_get_session st hSession of
        None \<Rightarrow> (CKR_SESSION_HANDLE_INVALID, st)
      | Some s \<Rightarrow>
          if hasFindResults s \<or> findActive_m s then (CKR_OPERATION_ACTIVE, st)
          else let results =
                 (if use_index pTemplate
                  then v_find_all_by_attributes (objectStore_m s) (index_template pTemplate)
                  else filter (\<lambda>h. case v_get_object (objectStore_m s) h of
                      None \<Rightarrow> False | Some obj \<Rightarrow> match_object obj pTemplate)
                    (v_all_handles (objectStore_m s))) in
            (CKR_OK, p11_put_session st hSession (setFindResults s results)))"

definition C_FindObjects ::
  "P11 \<Rightarrow> CK_SESSION_HANDLE \<Rightarrow> CK_ULONG \<Rightarrow> bool \<Rightarrow> CK_RV \<times> CK_OBJECT_HANDLE list option \<times> P11" where
  "C_FindObjects st hSession ulMaxObjectCount has_pulObjectCount =
     (if \<not> has_pulObjectCount then (CKR_ARGUMENTS_BAD, None, st)
      else case p11_get_session st hSession of
        None \<Rightarrow> (CKR_SESSION_HANDLE_INVALID, None, st)
      | Some s \<Rightarrow>
          if \<not> findActive_m s then (CKR_OPERATION_NOT_INITIALIZED, None, st)
          else let (batch, s') = findNextBatch s ulMaxObjectCount in
            (CKR_OK, Some batch, p11_put_session st hSession s'))"

definition C_FindObjectsFinal :: "P11 \<Rightarrow> CK_SESSION_HANDLE \<Rightarrow> CK_RV \<times> P11" where
  "C_FindObjectsFinal st hSession = (case p11_get_session st hSession of
     None \<Rightarrow> (CKR_SESSION_HANDLE_INVALID, st)
   | Some s \<Rightarrow> (CKR_OK, p11_put_session st hSession (clearFindResults s)))"

end
