(* ===== verification/P11Evp.thy ===== *)
theory P11Evp
  imports P11Object
begin

text \<open>
  The key material and primitive layer of the C interface (pkcs11/p11\_internal.cpp): the mechanism tables,
  the conversion between object attributes and library keys, and the wrappers of the RSA, ECDSA, ECDH,
  AES-GCM and digest calls with their error codes.

  The cryptographic library is an argument, the record \<open>Evp\<close>: one field per library call the wrappers
  depend on, over a type \<open>'pk\<close> of key handles.  \<open>evp_shim\<close> tells which of the two builds is meant:
  with the shim the import functions are those of the in-house library, otherwise the d2i family of
  OpenSSL; they have the same role and share a field, failing by an exception or a null pointer.  The
  \<open>export_\<close> fields are the exports of the in-house library, the \<open>i2\<close> fields those of OpenSSL, \<open>None\<close>
  when the call fails.  The calls that take an output buffer get its size, \<open>None\<close> for a null buffer, and deliver
  the success, the length they report and what they write.
\<close>

subsection \<open>Library calls\<close>

datatype HashAlgorithm = SHA256 | SHA384 | SHA512

datatype pkey_op = EncryptOp | DecryptOp | SignOp | VerifyOp | DeriveOp

datatype evp_cipher = EVP_aes_128_gcm | EVP_aes_192_gcm | EVP_aes_256_gcm

text \<open>The settings of a key context; a setting that was never made is \<open>None\<close>.\<close>

record PkeyCtx =
  ctx_padding :: "int option"
  ctx_mgf1_md :: "string option"
  ctx_oaep_md :: "string option"
  ctx_oaep_label :: "bytes option"
  ctx_pss_saltlen :: "int option"
  ctx_signature_md :: "string option"

record 'pk Evp =
  evp_shim :: bool
  import_rsa_private :: "bytes \<Rightarrow> 'pk option"
  import_ec_private :: "bytes \<Rightarrow> 'pk option"
  import_rsa_public :: "bytes \<Rightarrow> 'pk option"
  import_ec_point :: "bytes \<Rightarrow> bytes \<Rightarrow> 'pk option"
  d2i_EC_PUBKEY :: "bytes \<Rightarrow> 'pk option"
  export_rsa_private :: "'pk \<Rightarrow> bytes option"
  export_rsa_public :: "'pk \<Rightarrow> bytes option"
  export_ec_private :: "'pk \<Rightarrow> bytes option"
  export_ec_params :: "'pk \<Rightarrow> bytes option"
  export_ec_point :: "'pk \<Rightarrow> bytes option"
  d2i_PUBKEY :: "bytes \<Rightarrow> 'pk option"
  i2d_RSAPrivateKey :: "'pk \<Rightarrow> bytes option"
  i2d_RSAPublicKey :: "'pk \<Rightarrow> bytes option"
  i2d_ECPrivateKey :: "'pk \<Rightarrow> bytes option"
  i2o_ECPublicKey :: "'pk \<Rightarrow> bytes option"
  i2d_ECPKParameters :: "'pk \<Rightarrow> bytes option"
  EC_POINT_point2oct :: "'pk \<Rightarrow> bytes option"
  EVP_PKEY_get_base_id :: "'pk \<Rightarrow> int"
  EVP_PKEY_CTX_new :: "'pk \<Rightarrow> bool"
  EVP_PKEY_op_init :: "pkey_op \<Rightarrow> 'pk \<Rightarrow> bool"
  EVP_PKEY_CTX_set_rsa_padding :: "pkey_op \<Rightarrow> 'pk \<Rightarrow> int \<Rightarrow> bool"
  EVP_get_digestbyname :: "string \<Rightarrow> bool"
  EVP_PKEY_encrypt :: "'pk \<Rightarrow> PkeyCtx \<Rightarrow> nat option \<Rightarrow> bytes \<Rightarrow> bool \<times> nat \<times> bytes"
  EVP_PKEY_decrypt :: "'pk \<Rightarrow> PkeyCtx \<Rightarrow> nat option \<Rightarrow> bytes \<Rightarrow> bool \<times> nat \<times> bytes"
  EVP_PKEY_sign :: "'pk \<Rightarrow> PkeyCtx \<Rightarrow> nat option \<Rightarrow> bytes \<Rightarrow> bool \<times> nat \<times> bytes"
  EVP_PKEY_verify :: "'pk \<Rightarrow> PkeyCtx \<Rightarrow> bytes \<Rightarrow> bytes \<Rightarrow> int"
  EVP_PKEY_derive_set_peer :: "'pk \<Rightarrow> 'pk \<Rightarrow> bool"
  EVP_PKEY_derive :: "'pk \<Rightarrow> 'pk \<Rightarrow> nat option \<Rightarrow> bool \<times> nat \<times> bytes"
  EVP_CIPHER_CTX_new :: bool
  EVP_gcm_encrypt :: "evp_cipher \<Rightarrow> bytes \<Rightarrow> bytes \<Rightarrow> bytes \<Rightarrow> bytes \<Rightarrow> (bytes \<times> bytes) option"
  EVP_gcm_decrypt :: "evp_cipher \<Rightarrow> bytes \<Rightarrow> bytes \<Rightarrow> bytes \<Rightarrow> bytes \<Rightarrow> bytes \<Rightarrow> bytes option"
  EVP_Digest :: "string \<Rightarrow> bytes \<Rightarrow> bytes"

abbreviation (input) EVP_PKEY_RSA :: int where "EVP_PKEY_RSA \<equiv> 6"
abbreviation (input) EVP_PKEY_EC :: int where "EVP_PKEY_EC \<equiv> 408"
abbreviation (input) RSA_PKCS1_PADDING :: int where "RSA_PKCS1_PADDING \<equiv> 1"
abbreviation (input) RSA_NO_PADDING :: int where "RSA_NO_PADDING \<equiv> 3"
abbreviation (input) RSA_PKCS1_OAEP_PADDING :: int where "RSA_PKCS1_OAEP_PADDING \<equiv> 4"
abbreviation (input) RSA_PKCS1_PSS_PADDING :: int where "RSA_PKCS1_PSS_PADDING \<equiv> 6"
abbreviation (input) RSA_PSS_SALTLEN_DIGEST :: int where "RSA_PSS_SALTLEN_DIGEST \<equiv> -1"

definition new_PkeyCtx :: PkeyCtx where
  "new_PkeyCtx = \<lparr>ctx_padding = None, ctx_mgf1_md = None, ctx_oaep_md = None, ctx_oaep_label = None,
     ctx_pss_saltlen = None, ctx_signature_md = None\<rparr>"

text \<open>\<open>std::vector::resize\<close>.\<close>

definition resize :: "nat \<Rightarrow> bytes \<Rightarrow> bytes" where
  "resize n v = take n v @ replicate (n - length v) 0"

subsection \<open>Mechanism tables\<close>

definition class_to_mech :: "ObjectType \<Rightarrow> CK_MECHANISM_TYPE" where
  "class_to_mech t = (case t of
     PUBLIC_KEY \<Rightarrow> CKM_RSA_PKCS
   | PRIVATE_KEY \<Rightarrow> CKM_RSA_PKCS
   | SECRET_KEY \<Rightarrow> CKM_AES_ECB
   | _ \<Rightarrow> CKM_VENDOR_DEFINED)"

definition mech_to_hash :: "CK_MECHANISM_TYPE \<Rightarrow> HashAlgorithm" where
  "mech_to_hash m =
     (if m \<in> {CKM_SHA256, CKM_SHA256_RSA_PKCS, CKM_ECDSA_SHA256, CKM_SHA256_HMAC} then SHA256
      else if m \<in> {CKM_SHA384, CKM_SHA384_RSA_PKCS, CKM_ECDSA_SHA384, CKM_SHA384_HMAC} then SHA384
      else if m \<in> {CKM_SHA512, CKM_SHA512_RSA_PKCS, CKM_ECDSA_SHA512, CKM_SHA512_HMAC} then SHA512
      else SHA256)"

definition is_rsa_mech :: "CK_MECHANISM_TYPE \<Rightarrow> bool" where
  "is_rsa_mech m = (m = CKM_RSA_PKCS \<or> m = CKM_RSA_X_509 \<or> m = CKM_SHA256_RSA_PKCS \<or>
     m = CKM_SHA384_RSA_PKCS \<or> m = CKM_SHA512_RSA_PKCS \<or> m = CKM_RSA_PKCS_OAEP \<or> m = CKM_RSA_PKCS_PSS \<or>
     m = CKM_SHA256_RSA_PKCS_PSS \<or> m = CKM_SHA384_RSA_PKCS_PSS \<or> m = CKM_SHA512_RSA_PKCS_PSS)"

definition is_ec_mech :: "CK_MECHANISM_TYPE \<Rightarrow> bool" where
  "is_ec_mech m = (m = CKM_ECDSA \<or> m = CKM_ECDSA_SHA256 \<or> m = CKM_ECDSA_SHA384 \<or> m = CKM_ECDSA_SHA512)"

definition digest_name :: "HashAlgorithm \<Rightarrow> string" where
  "digest_name h = (case h of SHA256 \<Rightarrow> ''SHA256'' | SHA384 \<Rightarrow> ''SHA384'' | SHA512 \<Rightarrow> ''SHA512'')"

definition p11_key_state_error :: "KeyState \<Rightarrow> bool \<Rightarrow> CK_RV" where
  "p11_key_state_error st forSigning =
     (if st = Revoked then CKR_KEY_FUNCTION_NOT_PERMITTED
      else if forSigning \<and> st \<noteq> Active then CKR_KEY_FUNCTION_NOT_PERMITTED
      else CKR_OK)"

subsection \<open>Keys and objects\<close>

definition nonempty_attr :: "HsmObject \<Rightarrow> CK_ATTRIBUTE_TYPE \<Rightarrow> bytes option" where
  "nonempty_attr obj t = (case findAttribute obj t of
     None \<Rightarrow> None
   | Some v \<Rightarrow> if v = [] then None else Some v)"

definition import_params_point :: "'pk Evp \<Rightarrow> HsmObject \<Rightarrow> 'pk option" where
  "import_params_point evp obj =
     (case (nonempty_attr obj CKA_EC_PARAMS, nonempty_attr obj CKA_EC_POINT) of
        (Some params, Some point) \<Rightarrow> import_ec_point evp params point
      | _ \<Rightarrow> None)"

definition p11_build_key_from_attrs :: "'pk Evp \<Rightarrow> HsmObject \<Rightarrow> 'pk option" where
  "p11_build_key_from_attrs evp obj =
     (case nonempty_attr obj CKA_VHSM_RSA_PRIV of
        Some rsaPriv \<Rightarrow> import_rsa_private evp rsaPriv
      | None \<Rightarrow> (case nonempty_attr obj CKA_VHSM_EC_PRIV of
          Some ecPriv \<Rightarrow> import_ec_private evp ecPriv
        | None \<Rightarrow> (case nonempty_attr obj CKA_VHSM_RSA_PUB of
            Some rsaPub \<Rightarrow> import_rsa_public evp rsaPub
          | None \<Rightarrow> (case nonempty_attr obj CKA_VHSM_EC_PUB of
              Some ecPub \<Rightarrow>
                (if evp_shim evp then import_params_point evp obj
                 else case import_params_point evp obj of
                   Some pk \<Rightarrow> Some pk
                 | None \<Rightarrow> d2i_EC_PUBKEY evp ecPub)
            | None \<Rightarrow> if evp_shim evp then import_params_point evp obj else None))))"

definition p11_evp_from_object :: "'pk Evp \<Rightarrow> HsmObject \<Rightarrow> 'pk option" where
  "p11_evp_from_object evp obj = p11_build_key_from_attrs evp obj"

text \<open>The two overloads that store a generated pair; \<open>None\<close> for the key is a null handle.\<close>

definition p11_store_key_ec :: "'pk Evp \<Rightarrow> HsmObject \<Rightarrow> 'pk option \<Rightarrow> bool \<Rightarrow> CK_RV \<times> HsmObject" where
  "p11_store_key_ec evp obj kp isPrivate = (case kp of
     None \<Rightarrow> (CKR_GENERAL_ERROR, obj)
   | Some key \<Rightarrow>
       (case (if isPrivate then map_option (set_attr_vec obj CKA_VHSM_EC_PRIV) (export_ec_private evp key) else Some obj) of
          None \<Rightarrow> (CKR_GENERAL_ERROR, obj)
        | Some obj1 \<Rightarrow> (case export_ec_params evp key of
            None \<Rightarrow> (CKR_GENERAL_ERROR, obj1)
          | Some params \<Rightarrow>
              let obj2 = set_attr_vec obj1 CKA_EC_PARAMS params in
              (case export_ec_point evp key of
                 None \<Rightarrow> (CKR_GENERAL_ERROR, obj2)
               | Some point \<Rightarrow>
                   (CKR_OK, set_attr_vec (set_attr_vec obj2 CKA_EC_POINT point) CKA_CLASS
                      (put_le64 (if isPrivate then CKO_PRIVATE_KEY else CKO_PUBLIC_KEY)))))))"

definition p11_store_key_rsa :: "'pk Evp \<Rightarrow> HsmObject \<Rightarrow> 'pk option \<Rightarrow> bool \<Rightarrow> CK_RV \<times> HsmObject" where
  "p11_store_key_rsa evp obj kp isPrivate = (case kp of
     None \<Rightarrow> (CKR_GENERAL_ERROR, obj)
   | Some key \<Rightarrow>
       (case (if isPrivate then map_option (set_attr_vec obj CKA_VHSM_RSA_PRIV) (export_rsa_private evp key)
              else map_option (set_attr_vec obj CKA_VHSM_RSA_PUB) (export_rsa_public evp key)) of
          None \<Rightarrow> (CKR_GENERAL_ERROR, obj)
        | Some obj1 \<Rightarrow>
            (CKR_OK, set_attr_vec obj1 CKA_CLASS (put_le64 (if isPrivate then CKO_PRIVATE_KEY else CKO_PUBLIC_KEY)))))"

definition p11_key_fingerprint :: "'pk Evp \<Rightarrow> 'pk \<Rightarrow> string" where
  "p11_key_fingerprint evp pkey =
     (let base = EVP_PKEY_get_base_id evp pkey;
          der = (if base = EVP_PKEY_RSA
                 then (if evp_shim evp then export_rsa_public evp pkey else i2d_RSAPublicKey evp pkey)
                 else if base = EVP_PKEY_EC
                 then (if evp_shim evp then export_ec_point evp pkey else i2o_ECPublicKey evp pkey)
                 else None) in
      case der of
        None \<Rightarrow> []
      | Some d \<Rightarrow> if d = [] then [] else hex_encode (EVP_Digest evp ''SHA256'' d))"

text \<open>\<open>addr\<close> is the address of the object.\<close>

definition p11_key_id :: "nat \<Rightarrow> HsmObject \<Rightarrow> string" where
  "p11_key_id addr obj = (case nonempty_attr obj CKA_ID of
     Some i \<Rightarrow> hex_encode i
   | None \<Rightarrow> ''key-'' @ to_string addr)"

text \<open>The overload for a library key.\<close>

definition p11_store_key :: "'pk Evp \<Rightarrow> HsmObject \<Rightarrow> 'pk \<Rightarrow> bool \<Rightarrow> CK_RV \<times> HsmObject" where
  "p11_store_key evp obj pkey isPrivate =
     (let base = EVP_PKEY_get_base_id evp pkey;
          finish = (\<lambda>ob kt. (CKR_OK, set_attr_vec
            (set_attr_vec ob CKA_CLASS (put_le64 (if isPrivate then CKO_PRIVATE_KEY else CKO_PUBLIC_KEY)))
            CKA_KEY_TYPE (put_le64 kt))) in
      if base = EVP_PKEY_RSA then
        (case (if isPrivate then map_option (set_attr_vec obj CKA_VHSM_RSA_PRIV) (i2d_RSAPrivateKey evp pkey)
               else map_option (set_attr_vec obj CKA_VHSM_RSA_PUB) (i2d_RSAPublicKey evp pkey)) of
           None \<Rightarrow> (CKR_GENERAL_ERROR, obj)
         | Some obj1 \<Rightarrow> finish obj1 CKK_RSA)
      else if base = EVP_PKEY_EC then
        (case (if isPrivate then map_option (set_attr_vec obj CKA_VHSM_EC_PRIV) (i2d_ECPrivateKey evp pkey)
               else map_option (set_attr_vec obj CKA_VHSM_EC_PUB) (i2o_ECPublicKey evp pkey)) of
           None \<Rightarrow> (CKR_GENERAL_ERROR, obj)
         | Some obj1 \<Rightarrow> (case i2d_ECPKParameters evp pkey of
             None \<Rightarrow> (CKR_GENERAL_ERROR, obj1)
           | Some params \<Rightarrow>
               let obj2 = set_attr_vec obj1 CKA_EC_PARAMS params in
               (case EC_POINT_point2oct evp pkey of
                  None \<Rightarrow> (CKR_GENERAL_ERROR, obj2)
                | Some point \<Rightarrow> finish (set_attr_vec obj2 CKA_EC_POINT point) CKK_EC)))
      else (CKR_GENERAL_ERROR, obj))"

subsection \<open>Primitives\<close>

definition p11_hash :: "'pk Evp \<Rightarrow> HashAlgorithm \<Rightarrow> bytes \<Rightarrow> bytes" where
  "p11_hash evp h data = EVP_Digest evp (digest_name h) data"

text \<open>The digest of the OAEP settings: SHA-256 when none is named or the name is unknown.\<close>

definition oaep_digest :: "'pk Evp \<Rightarrow> string \<Rightarrow> string" where
  "oaep_digest evp mgf1_md = (if mgf1_md = [] \<or> \<not> EVP_get_digestbyname evp mgf1_md then ''SHA256'' else mgf1_md)"

definition encdec_ctx :: "'pk Evp \<Rightarrow> int \<Rightarrow> bytes option \<Rightarrow> string \<Rightarrow> PkeyCtx" where
  "encdec_ctx evp padding label mgf1_md =
     (let c = new_PkeyCtx\<lparr>ctx_padding := Some padding\<rparr>;
          c = (if padding = RSA_PKCS1_OAEP_PADDING
               then c\<lparr>ctx_mgf1_md := Some (oaep_digest evp mgf1_md), ctx_oaep_md := Some (oaep_digest evp mgf1_md)\<rparr>
               else c) in
      case label of
        None \<Rightarrow> c
      | Some l \<Rightarrow> if l = [] then c else c\<lparr>ctx_oaep_label := Some l\<rparr>)"

text \<open>The size query followed by the call into a buffer of the reported size.\<close>

definition two_calls :: "(nat option \<Rightarrow> bool \<times> nat \<times> bytes) \<Rightarrow> CK_RV \<times> bytes" where
  "two_calls call = (case call None of
     (False, _, _) \<Rightarrow> (CKR_GENERAL_ERROR, [])
   | (True, outlen, _) \<Rightarrow> (case call (Some outlen) of
       (False, _, out) \<Rightarrow> (CKR_GENERAL_ERROR, resize outlen out)
     | (True, outlen', out) \<Rightarrow> (CKR_OK, resize outlen' out)))"

definition p11_rsa_encrypt :: "'pk Evp \<Rightarrow> 'pk \<Rightarrow> bytes \<Rightarrow> int \<Rightarrow> bytes option \<Rightarrow> string \<Rightarrow> CK_RV \<times> bytes" where
  "p11_rsa_encrypt evp key inp padding label mgf1_md =
     (if \<not> EVP_PKEY_CTX_new evp key then (CKR_HOST_MEMORY, [])
      else if \<not> EVP_PKEY_op_init evp EncryptOp key then (CKR_GENERAL_ERROR, [])
      else if \<not> EVP_PKEY_CTX_set_rsa_padding evp EncryptOp key padding then (CKR_GENERAL_ERROR, [])
      else two_calls (\<lambda>buf. EVP_PKEY_encrypt evp key (encdec_ctx evp padding label mgf1_md) buf inp))"

definition p11_rsa_decrypt :: "'pk Evp \<Rightarrow> 'pk \<Rightarrow> bytes \<Rightarrow> int \<Rightarrow> bytes option \<Rightarrow> string \<Rightarrow> CK_RV \<times> bytes" where
  "p11_rsa_decrypt evp key inp padding label mgf1_md =
     (if \<not> EVP_PKEY_CTX_new evp key then (CKR_HOST_MEMORY, [])
      else if \<not> EVP_PKEY_op_init evp DecryptOp key then (CKR_GENERAL_ERROR, [])
      else if \<not> EVP_PKEY_CTX_set_rsa_padding evp DecryptOp key padding then (CKR_GENERAL_ERROR, [])
      else two_calls (\<lambda>buf. EVP_PKEY_decrypt evp key (encdec_ctx evp padding label mgf1_md) buf inp))"

text \<open>The settings of an RSA signature context; the result of setting the padding is not looked at.\<close>

definition sign_ctx :: "'pk Evp \<Rightarrow> pkey_op \<Rightarrow> 'pk \<Rightarrow> int \<Rightarrow> string \<Rightarrow> string \<Rightarrow> PkeyCtx" where
  "sign_ctx evp oper key padding mdName mgf1_md =
     (let c = (if EVP_PKEY_CTX_set_rsa_padding evp oper key padding then new_PkeyCtx\<lparr>ctx_padding := Some padding\<rparr>
               else new_PkeyCtx);
          md = (if mdName = [] \<or> \<not> EVP_get_digestbyname evp mdName then None else Some mdName) in
      if padding = RSA_PKCS1_PSS_PADDING then
        let mgf = (if mgf1_md = [] then (case md of Some d \<Rightarrow> Some d | None \<Rightarrow> Some ''SHA256'')
                   else if EVP_get_digestbyname evp mgf1_md then Some mgf1_md else None) in
        c\<lparr>ctx_pss_saltlen := Some RSA_PSS_SALTLEN_DIGEST, ctx_mgf1_md := mgf,
          ctx_signature_md := (case md of Some d \<Rightarrow> Some d | None \<Rightarrow> mgf)\<rparr>
      else (case md of None \<Rightarrow> c | Some d \<Rightarrow> c\<lparr>ctx_signature_md := Some d\<rparr>))"

definition p11_rsa_sign :: "'pk Evp \<Rightarrow> 'pk \<Rightarrow> bytes \<Rightarrow> int \<Rightarrow> string \<Rightarrow> string \<Rightarrow> CK_RV \<times> bytes" where
  "p11_rsa_sign evp key digest padding mdName mgf1_md =
     (if \<not> EVP_PKEY_CTX_new evp key then (CKR_HOST_MEMORY, [])
      else if \<not> EVP_PKEY_op_init evp SignOp key then (CKR_GENERAL_ERROR, [])
      else two_calls (\<lambda>buf. EVP_PKEY_sign evp key (sign_ctx evp SignOp key padding mdName mgf1_md) buf digest))"

definition p11_rsa_verify :: "'pk Evp \<Rightarrow> 'pk \<Rightarrow> bytes \<Rightarrow> bytes \<Rightarrow> int \<Rightarrow> string \<Rightarrow> string \<Rightarrow> CK_RV" where
  "p11_rsa_verify evp key digest sig padding mdName mgf1_md =
     (if \<not> EVP_PKEY_CTX_new evp key then CKR_HOST_MEMORY
      else if \<not> EVP_PKEY_op_init evp VerifyOp key then CKR_GENERAL_ERROR
      else if EVP_PKEY_verify evp key (sign_ctx evp VerifyOp key padding mdName mgf1_md) sig digest = 1 then CKR_OK
      else CKR_SIGNATURE_INVALID)"

definition p11_ecdsa_sign :: "'pk Evp \<Rightarrow> 'pk \<Rightarrow> bytes \<Rightarrow> CK_RV \<times> bytes" where
  "p11_ecdsa_sign evp key digest =
     (if \<not> EVP_PKEY_CTX_new evp key then (CKR_HOST_MEMORY, [])
      else if \<not> EVP_PKEY_op_init evp SignOp key then (CKR_GENERAL_ERROR, [])
      else case EVP_PKEY_sign evp key new_PkeyCtx (Some 256) digest of
        (True, siglen, sig) \<Rightarrow> (CKR_OK, resize siglen sig)
      | (False, siglen, sig) \<Rightarrow>
          if siglen > 256 then
            (case EVP_PKEY_sign evp key new_PkeyCtx (Some siglen) digest of
               (True, siglen', sig') \<Rightarrow> (CKR_OK, resize siglen' sig')
             | (False, _, sig') \<Rightarrow> (CKR_GENERAL_ERROR, resize siglen sig'))
          else (CKR_GENERAL_ERROR, resize 256 sig))"

definition p11_ecdsa_verify :: "'pk Evp \<Rightarrow> 'pk \<Rightarrow> bytes \<Rightarrow> bytes \<Rightarrow> CK_RV" where
  "p11_ecdsa_verify evp key digest sig =
     (if \<not> EVP_PKEY_CTX_new evp key then CKR_HOST_MEMORY
      else if \<not> EVP_PKEY_op_init evp VerifyOp key then CKR_GENERAL_ERROR
      else if EVP_PKEY_verify evp key new_PkeyCtx sig digest = 1 then CKR_OK
      else CKR_SIGNATURE_INVALID)"

definition p11_ecdh_derive :: "'pk Evp \<Rightarrow> 'pk \<Rightarrow> 'pk \<Rightarrow> bytes" where
  "p11_ecdh_derive evp priv peer =
     (if \<not> EVP_PKEY_CTX_new evp priv then []
      else if \<not> EVP_PKEY_op_init evp DeriveOp priv then []
      else if \<not> EVP_PKEY_derive_set_peer evp priv peer then []
      else case two_calls (\<lambda>buf. EVP_PKEY_derive evp priv peer buf) of
        (rv, secret) \<Rightarrow> if rv = CKR_OK then secret else [])"

definition gcm_cipher :: "bytes \<Rightarrow> evp_cipher" where
  "gcm_cipher key = (if length key = 32 then EVP_aes_256_gcm else if length key = 24 then EVP_aes_192_gcm
     else EVP_aes_128_gcm)"

text \<open>
  \<open>EVP_gcm_encrypt\<close> and \<open>EVP_gcm_decrypt\<close> stand for the sequence of cipher calls of the wrapper, \<open>None\<close> when
  one of them fails; the tag read back has 16 bytes.
\<close>

definition p11_aes_gcm_encrypt :: "'pk Evp \<Rightarrow> bytes \<Rightarrow> bytes \<Rightarrow> bytes \<Rightarrow> bytes \<Rightarrow> CK_RV \<times> bytes \<times> bytes" where
  "p11_aes_gcm_encrypt evp key iv aad pt =
     (if \<not> EVP_CIPHER_CTX_new evp then (CKR_HOST_MEMORY, [], [])
      else case EVP_gcm_encrypt evp (gcm_cipher key) key iv aad pt of
        None \<Rightarrow> (CKR_GENERAL_ERROR, [], [])
      | Some (ct, tag) \<Rightarrow> (CKR_OK, ct, resize 16 tag))"

definition p11_aes_gcm_decrypt :: "'pk Evp \<Rightarrow> bytes \<Rightarrow> bytes \<Rightarrow> bytes \<Rightarrow> bytes \<Rightarrow> bytes \<Rightarrow> CK_RV \<times> bytes" where
  "p11_aes_gcm_decrypt evp key iv aad ct tag =
     (if length tag \<noteq> 16 then (CKR_ENCRYPTED_DATA_LEN_RANGE, [])
      else if \<not> EVP_CIPHER_CTX_new evp then (CKR_HOST_MEMORY, [])
      else case EVP_gcm_decrypt evp (gcm_cipher key) key iv aad ct tag of
        None \<Rightarrow> (CKR_GENERAL_ERROR, [])
      | Some pt \<Rightarrow> (CKR_OK, pt))"

end
