(* ===== verification/SigningPolicy.thy ===== *)
theory SigningPolicy
  imports SecureBuffer
begin

text \<open>
  The gates in front of a cryptographic operation: the per-key signing policy of
  domain/signing/key\_policy.cpp and the FIPS mechanism filter of crypto/fips.cpp.  The JSON text parser
  of nlohmann is the parameter \<open>parse\<close>; the document it yields is a value of the datatype \<open>json\<close>, on
  which the policy reader works.  Floating point numbers appear by their integral part, which is what
  a conversion to an integer keeps.  Exceptions of the library are \<open>runtime_error\<close>; the caller
  catches every \<open>std::exception\<close>.
\<close>

datatype json = JNull | JBool bool | JInt int | JFloat int | JString string | JArray "json list"
  | JObject "(string \<times> json) list"

record KeyPolicy =
  allowed_mechanisms :: "string list"
  not_before_ms :: int
  not_after_ms :: int
  allowed_signers :: "string list"
  min_attestations :: int

record PolicyEvaluation =
  pe_ok :: bool
  pe_reason :: string

definition new_KeyPolicy :: KeyPolicy where
  "new_KeyPolicy = \<lparr>allowed_mechanisms = [], not_before_ms = 0, not_after_ms = 0, allowed_signers = [],
     min_attestations = 0\<rparr>"

subsection \<open>Access to a JSON document\<close>

definition json_member :: "(string \<times> json) list \<Rightarrow> string \<Rightarrow> json option" where
  "json_member doc key = (case map_of doc key of
     None \<Rightarrow> None
   | Some JNull \<Rightarrow> None
   | Some v \<Rightarrow> Some v)"

text \<open>Iteration over a value: the elements of an array, the values of an object, a scalar once.\<close>

definition json_elements :: "json \<Rightarrow> json list" where
  "json_elements j = (case j of JArray xs \<Rightarrow> xs | JObject kvs \<Rightarrow> map snd kvs | JNull \<Rightarrow> [] | x \<Rightarrow> [x])"

definition json_strings :: "json \<Rightarrow> string list" where
  "json_strings j = [s. JString s \<leftarrow> json_elements j]"

definition json_number :: "json \<Rightarrow> cpp_exn + int" where
  "json_number j = (case j of JInt i \<Rightarrow> Inr i | JFloat i \<Rightarrow> Inr i | JBool b \<Rightarrow> Inr (if b then 1 else 0)
     | _ \<Rightarrow> Inl runtime_error)"

definition json_int64 :: "json \<Rightarrow> cpp_exn + int" where
  "json_int64 j = map_sum (\<lambda>e. e) (\<lambda>i. sint (word_of_int i :: 64 word)) (json_number j)"

definition json_int :: "json \<Rightarrow> cpp_exn + int" where
  "json_int j = map_sum (\<lambda>e. e) (\<lambda>i. sint (word_of_int i :: 32 word)) (json_number j)"

subsection \<open>Key policies\<close>

definition opt_field :: "json option \<Rightarrow> (json \<Rightarrow> cpp_exn + int) \<Rightarrow> cpp_exn + int" where
  "opt_field v conv = (case v of None \<Rightarrow> Inr 0 | Some j \<Rightarrow> conv j)"

definition policy_from_doc :: "json \<Rightarrow> cpp_exn + KeyPolicy" where
  "policy_from_doc doc = (case doc of
     JObject d \<Rightarrow>
       (case opt_field (json_member d ''not_before_ms'') json_int64 of
          Inl e \<Rightarrow> Inl e
        | Inr nb \<Rightarrow> (case opt_field (json_member d ''not_after_ms'') json_int64 of
            Inl e \<Rightarrow> Inl e
          | Inr na \<Rightarrow> (case opt_field (json_member d ''min_attestations'') json_int of
              Inl e \<Rightarrow> Inl e
            | Inr ma \<Rightarrow> Inr \<lparr>
                allowed_mechanisms = (case json_member d ''allowed_mechanisms'' of None \<Rightarrow> [] | Some j \<Rightarrow> json_strings j),
                not_before_ms = nb, not_after_ms = na,
                allowed_signers = (case json_member d ''allowed_signers'' of None \<Rightarrow> [] | Some j \<Rightarrow> json_strings j),
                min_attestations = ma\<rparr>)))
   | _ \<Rightarrow> Inl runtime_error)"

definition from_json :: "(string \<Rightarrow> json option) \<Rightarrow> string \<Rightarrow> cpp_exn + KeyPolicy" where
  "from_json parse text =
     (if text = [] then Inr new_KeyPolicy
      else case parse text of
        None \<Rightarrow> Inl runtime_error
      | Some doc \<Rightarrow> policy_from_doc doc)"

definition to_json_doc :: "KeyPolicy \<Rightarrow> json" where
  "to_json_doc p = JObject [(''allowed_mechanisms'', JArray (map JString (allowed_mechanisms p))),
     (''not_before_ms'', JInt (not_before_ms p)), (''not_after_ms'', JInt (not_after_ms p)),
     (''allowed_signers'', JArray (map JString (allowed_signers p))),
     (''min_attestations'', JInt (min_attestations p))]"

definition int_of_count :: "u64 \<Rightarrow> int" where
  "int_of_count n = sint (ucast n :: 32 word)"

definition policy_evaluate :: "KeyPolicy \<Rightarrow> string \<Rightarrow> string \<Rightarrow> int \<Rightarrow> u64 \<Rightarrow> PolicyEvaluation" where
  "policy_evaluate p actor mechanism now_ms attestation_count =
     (if not_before_ms p \<noteq> 0 \<and> now_ms < not_before_ms p then
        \<lparr>pe_ok = False, pe_reason = ''key policy: signing not yet active (not_before in the future)''\<rparr>
      else if not_after_ms p \<noteq> 0 \<and> not_after_ms p < now_ms then
        \<lparr>pe_ok = False, pe_reason = ''key policy: signing window has expired (not_after passed)''\<rparr>
      else if allowed_mechanisms p \<noteq> [] \<and> mechanism \<notin> set (allowed_mechanisms p) then
        \<lparr>pe_ok = False, pe_reason = ''key policy: mechanism '' @ mechanism @ '' not permitted''\<rparr>
      else if allowed_signers p \<noteq> [] \<and> actor \<notin> set (allowed_signers p) then
        \<lparr>pe_ok = False, pe_reason = ''key policy: actor '' @ actor @ '' not authorized to sign''\<rparr>
      else if int_of_count attestation_count < min_attestations p then
        \<lparr>pe_ok = False, pe_reason = ''key policy: insufficient attestations ('' @
           to_string (unat attestation_count) @ '' < '' @
           (if min_attestations p < 0 then ''-'' @ to_string (nat (- min_attestations p))
            else to_string (nat (min_attestations p))) @ '' required)''\<rparr>
      else \<lparr>pe_ok = True, pe_reason = ''ok''\<rparr>)"

subsection \<open>FIPS mode\<close>

definition tolower :: "char \<Rightarrow> char" where
  "tolower c = (let n = of_char c :: nat in if 65 \<le> n \<and> n \<le> 90 then char_of (n + 32) else c)"

definition fips_mode :: "string option \<Rightarrow> bool" where
  "fips_mode VHSM_FIPS = (case VHSM_FIPS of
     None \<Rightarrow> False
   | Some v \<Rightarrow> let s = map tolower v in s = ''1'' \<or> s = ''true'' \<or> s = ''yes'' \<or> s = ''on'')"

definition mechanism_approved :: "u64 \<Rightarrow> bool" where
  "mechanism_approved mech = (mech \<in> {0x1041, 0x1047, 0x1048, 0x1049, 0x250, 0x251, 0x252, 0xE, 0xF, 0x10,
     0x1087, 0x1085, 0x1086})"

text \<open>The self test is the conjunction of the three known-answer tests, which run the library.\<close>

definition fips_self_test :: "bool \<Rightarrow> bool \<Rightarrow> bool \<Rightarrow> bool" where
  "fips_self_test sha256_kat aes_gcm_kat ecdsa_kat = (sha256_kat \<and> aes_gcm_kat \<and> ecdsa_kat)"

end
