(* ===== verification/P11Crypto.thy ===== *)
theory P11Crypto
  imports P11Evp SigningPolicy
begin

text \<open>
  The cryptographic entry points of the C interface (pkcs11/p11\_crypto.cpp): initialisation, one-part and
  multi-part encryption, decryption, digest, signature and verification, with the FIPS filter, the key-state
  and policy gates, the output-length protocol, the audit and notification events and the dispatch of a
  signature to the signature store.

  Arguments besides the library: the FIPS flag, the JSON parser, the policy check of the ledger client when
  there is one, the addresses of objects (part of a fall-back key identifier), the clock, and what a dispatch
  draws from its environment.  The integrity key of the signature store is derived from the key encryption
  key of the token in slot 0.  A mechanism parameter is the memory block seen through the casts of the code.
  Output buffers are given by their presence and the length passed in; the results are the return code, the
  bytes written and the length written back.
\<close>

subsection \<open>Parameters\<close>

record CK_GCM_PARAMS =
  pIv :: "bytes option"
  ulIvLen :: CK_ULONG
  pAAD :: "bytes option"
  ulAADLen :: CK_ULONG

record CK_RSA_PKCS_OAEP_PARAMS =
  hashAlg :: CK_MECHANISM_TYPE
  oaep_source :: CK_MECHANISM_TYPE
  pSourceData :: "bytes option"
  ulSourceDataLen :: CK_ULONG

record CK_ECDH1_DERIVE_PARAMS =
  pPublicData :: "bytes option"
  ulPublicDataLen :: CK_ULONG

text \<open>The block behind \<open>pParameter\<close> in its structured readings.\<close>

record mech_param =
  as_gcm :: CK_GCM_PARAMS
  as_oaep :: CK_RSA_PKCS_OAEP_PARAMS
  as_ecdh :: CK_ECDH1_DERIVE_PARAMS

record CK_MECHANISM =
  mechanism :: CK_MECHANISM_TYPE
  pParameter :: "mech_param option"
  ulParameterLen :: CK_ULONG

abbreviation (input) CKZ_DATA_SPECIFIED :: u64 where "CKZ_DATA_SPECIFIED \<equiv> 1"
abbreviation (input) sizeof_CK_GCM_PARAMS :: u64 where "sizeof_CK_GCM_PARAMS \<equiv> 48"
abbreviation (input) sizeof_CK_ECDH1_DERIVE_PARAMS :: u64 where "sizeof_CK_ECDH1_DERIVE_PARAMS \<equiv> 40"
abbreviation (input) sizeof_CK_RSA_PKCS_OAEP_PARAMS :: u64 where "sizeof_CK_RSA_PKCS_OAEP_PARAMS \<equiv> 40"

record 'pk CryptoEnv =
  ce_p11 :: P11Env
  ce_evp :: "'pk Evp"
  ce_fips_mode :: bool
  ce_parse :: "string \<Rightarrow> json option"
  ce_verify_policy :: "(string \<Rightarrow> string \<Rightarrow> string \<Rightarrow> int \<Rightarrow> bool) option"
  ce_addr :: "CK_SESSION_HANDLE \<Rightarrow> CK_OBJECT_HANDLE \<Rightarrow> nat"
  ce_hmac :: "bytes \<Rightarrow> bytes \<Rightarrow> bytes"
  ce_derive_db_hmac_key :: "bytes \<Rightarrow> bytes"
  ce_signature_id :: string
  ce_outbox_id :: string
  ce_now_ns :: int
  ce_pqc :: "string list"
  ce_db_ok :: bool

subsection \<open>Helpers\<close>

definition parse_attr_count :: "bytes \<Rightarrow> u64" where
  "parse_attr_count v =
     (if v = [] then 0
      else if list_all (\<lambda>b. 0x30 \<le> b \<and> b \<le> 0x39) v then
        let n = string_value (string_of_bytes v) in if n < 2 ^ 64 then of_nat n else 0
      else fold (\<lambda>(i, b) val. val OR push_bit (8 * i) (ucast b)) (zip [0..<8] v) 0)"

definition oaep_md_name :: "CK_MECHANISM_TYPE \<Rightarrow> string" where
  "oaep_md_name m =
     (if m = CKM_SHA_1 then ''SHA-1''
      else if m = CKM_SHA_256 then ''SHA-256''
      else if m = CKM_SHA_384 then ''SHA-384''
      else if m = CKM_SHA_512 then ''SHA-512''
      else ''SHA-256'')"

definition is_digest_mech :: "CK_MECHANISM_TYPE \<Rightarrow> bool" where
  "is_digest_mech m = (m = CKM_SHA_256 \<or> m = CKM_SHA_384 \<or> m = CKM_SHA_512)"

definition load_secret_key :: "P11 \<Rightarrow> CK_SESSION_HANDLE \<Rightarrow> CK_OBJECT_HANDLE \<Rightarrow> bytes" where
  "load_secret_key st h k = (case p11_get_object st h k of
     None \<Rightarrow> []
   | Some ob \<Rightarrow> (case findAttribute ob CKA_VALUE of None \<Rightarrow> [] | Some v \<Rightarrow> v))"

definition load_asym_key :: "'pk Evp \<Rightarrow> P11 \<Rightarrow> CK_SESSION_HANDLE \<Rightarrow> CK_OBJECT_HANDLE \<Rightarrow> 'pk option" where
  "load_asym_key evp st h k = (case p11_get_object st h k of
     None \<Rightarrow> None
   | Some ob \<Rightarrow> p11_evp_from_object evp ob)"

text \<open>The bytes copied to \<open>pOut\<close>, if any, and the length written to \<open>pOutLen\<close>.\<close>

definition finish_output :: "bytes \<Rightarrow> bool \<Rightarrow> CK_ULONG option \<Rightarrow> CK_RV \<times> bytes option \<times> CK_ULONG option" where
  "finish_output out has_pOut pOutLen = (case pOutLen of
     None \<Rightarrow> (CKR_ARGUMENTS_BAD, None, None)
   | Some len \<Rightarrow>
       if \<not> has_pOut then (CKR_OK, None, Some (of_nat (length out)))
       else if unat len < length out then (CKR_BUFFER_TOO_SMALL, None, Some (of_nat (length out)))
       else (CKR_OK, Some out, Some (of_nat (length out))))"

definition op_begin ::
  "P11 \<Rightarrow> CK_SESSION_HANDLE \<Rightarrow> CK_MECHANISM option \<Rightarrow> CK_OBJECT_HANDLE \<Rightarrow> bool \<Rightarrow> CK_RV \<times> P11" where
  "op_begin st h m k needKey =
     (if \<not> p11_is_initialized st then (CKR_CRYPTOKI_NOT_INITIALIZED, st)
      else case m of
        None \<Rightarrow> (CKR_ARGUMENTS_BAD, st)
      | Some mech \<Rightarrow>
          if needKey \<and> k = CK_INVALID_HANDLE then (CKR_KEY_HANDLE_INVALID, st)
          else (case p11_get_session st h of
              None \<Rightarrow> (CKR_SESSION_HANDLE_INVALID, st)
            | Some s \<Rightarrow> (case opBegin s (mechanism mech) k of (rv, s') \<Rightarrow> (rv, p11_put_session st h s'))))"

definition op_check :: "P11 \<Rightarrow> CK_SESSION_HANDLE \<Rightarrow> CK_RV" where
  "op_check st h = (case p11_get_session st h of None \<Rightarrow> CKR_SESSION_HANDLE_INVALID | Some s \<Rightarrow> opCheck s)"

definition op_end :: "P11 \<Rightarrow> CK_SESSION_HANDLE \<Rightarrow> P11" where
  "op_end st h = (case p11_get_session st h of None \<Rightarrow> st | Some s \<Rightarrow> p11_put_session st h (opEnd s))"

text \<open>The update of the accumulated input, a no-op without a session.\<close>

definition op_update :: "P11 \<Rightarrow> CK_SESSION_HANDLE \<Rightarrow> bytes option \<Rightarrow> CK_ULONG \<Rightarrow> P11" where
  "op_update st h pPart ulPartLen = (case p11_get_session st h of
     None \<Rightarrow> st
   | Some s \<Rightarrow> p11_put_session st h (opUpdate s pPart ulPartLen))"

subsection \<open>Encryption and decryption\<close>

text \<open>Padding, digest name and label of an RSA encryption.\<close>

definition resolve_rsa_encdec :: "CK_MECHANISM_TYPE \<Rightarrow> string \<Rightarrow> bytes \<Rightarrow> int \<times> string \<times> bytes option" where
  "resolve_rsa_encdec mech oaep_mgf1 oaep_label =
     (if mech = CKM_RSA_X_509 then (RSA_NO_PADDING, [], None)
      else if mech = CKM_RSA_PKCS_OAEP
      then (RSA_PKCS1_OAEP_PADDING, oaep_mgf1, if oaep_label \<noteq> [] then Some oaep_label else None)
      else (RSA_PKCS1_PADDING, [], None))"

definition do_encrypt :: "'pk CryptoEnv \<Rightarrow> P11 \<Rightarrow> CK_SESSION_HANDLE \<Rightarrow> bytes \<Rightarrow> CK_RV \<times> bytes" where
  "do_encrypt ce st h inp = (case p11_get_session st h of
     None \<Rightarrow> (CKR_SESSION_HANDLE_INVALID, [])
   | Some sess \<Rightarrow>
       let mech = activeMech_m sess; k = signKey_m sess in
       if ce_fips_mode ce \<and> \<not> mechanism_approved mech then (CKR_MECHANISM_INVALID, [])
       else case p11_get_object st h k of
         None \<Rightarrow> (CKR_KEY_HANDLE_INVALID, [])
       | Some ob \<Rightarrow>
           let st_rv = p11_key_state_error (getKeyState ob) False in
           if st_rv \<noteq> CKR_OK then (st_rv, [])
           else if mech = CKM_AES_GCM then
             let key = load_secret_key st h k in
             if key = [] then (CKR_KEY_HANDLE_INVALID, [])
             else (case p11_aes_gcm_encrypt (ce_evp ce) key (gcmIv_m sess) (gcmAad_m sess) inp of
                 (rv, ct, tag) \<Rightarrow> if rv = CKR_OK then (CKR_OK, ct @ tag) else (rv, []))
           else (case load_asym_key (ce_evp ce) st h k of
               None \<Rightarrow> (CKR_KEY_HANDLE_INVALID, [])
             | Some pk \<Rightarrow>
                 (case resolve_rsa_encdec mech (oaepMgf1_m sess) (oaepLabel_m sess) of
                    (padding, md, label) \<Rightarrow> p11_rsa_encrypt (ce_evp ce) pk inp padding label md)))"

definition do_decrypt :: "'pk CryptoEnv \<Rightarrow> P11 \<Rightarrow> CK_SESSION_HANDLE \<Rightarrow> bytes \<Rightarrow> CK_RV \<times> bytes" where
  "do_decrypt ce st h inp = (case p11_get_session st h of
     None \<Rightarrow> (CKR_SESSION_HANDLE_INVALID, [])
   | Some sess \<Rightarrow>
       let mech = activeMech_m sess; k = signKey_m sess in
       if mech = CKM_AES_GCM then
         let key = load_secret_key st h k in
         if key = [] then (CKR_KEY_HANDLE_INVALID, [])
         else if length inp < 16 then (CKR_ENCRYPTED_DATA_LEN_RANGE, [])
         else p11_aes_gcm_decrypt (ce_evp ce) key (gcmIv_m sess) (gcmAad_m sess)
                (take (length inp - 16) inp) (drop (length inp - 16) inp)
       else (case load_asym_key (ce_evp ce) st h k of
           None \<Rightarrow> (CKR_KEY_HANDLE_INVALID, [])
         | Some pk \<Rightarrow>
             (case p11_get_object st h k of
                None \<Rightarrow> (CKR_KEY_HANDLE_INVALID, [])
              | Some ob \<Rightarrow>
                  let st_rv = p11_key_state_error (getKeyState ob) False in
                  if st_rv \<noteq> CKR_OK then (st_rv, [])
                  else (case resolve_rsa_encdec mech (oaepMgf1_m sess) (oaepLabel_m sess) of
                      (padding, md, label) \<Rightarrow> p11_rsa_decrypt (ce_evp ce) pk inp padding label md))))"

subsection \<open>Signature and verification\<close>

text \<open>Padding, digest name, mask digest name and the bytes to sign; \<open>None\<close> is the result false.\<close>

definition resolve_rsa_mech ::
  "'pk Evp \<Rightarrow> CK_MECHANISM_TYPE \<Rightarrow> bytes \<Rightarrow> (int \<times> string \<times> string \<times> bytes) option" where
  "resolve_rsa_mech evp mech data =
     (if mech = CKM_RSA_PKCS then Some (RSA_PKCS1_PADDING, [], [], data)
      else if mech = CKM_RSA_X_509 then Some (RSA_NO_PADDING, [], [], data)
      else if mech = CKM_RSA_PKCS_PSS
      then Some (RSA_PKCS1_PSS_PADDING, ''SHA256'', ''SHA256'', p11_hash evp SHA256 data)
      else if mech = CKM_RSA_PKCS_OAEP then None
      else
        let ha = mech_to_hash mech;
            pss = (mech = CKM_SHA256_RSA_PKCS_PSS \<or> mech = CKM_SHA384_RSA_PKCS_PSS \<or> mech = CKM_SHA512_RSA_PKCS_PSS) in
        Some (if pss then RSA_PKCS1_PSS_PADDING else RSA_PKCS1_PADDING, digest_name ha,
          if pss then digest_name ha else [], p11_hash evp ha data))"

definition resolve_ec_mech :: "'pk Evp \<Rightarrow> CK_MECHANISM_TYPE \<Rightarrow> bytes \<Rightarrow> bytes" where
  "resolve_ec_mech evp mech data = (if mech = CKM_ECDSA then data else p11_hash evp (mech_to_hash mech) data)"

definition mech_to_str :: "CK_MECHANISM_TYPE \<Rightarrow> string" where
  "mech_to_str mech = (case map_of
     [(CKM_RSA_PKCS, ''CKM_RSA_PKCS''), (CKM_RSA_X_509, ''CKM_RSA_X_509''),
      (CKM_RSA_PKCS_PSS, ''CKM_RSA_PKCS_PSS''), (CKM_RSA_PKCS_OAEP, ''CKM_RSA_PKCS_OAEP''),
      (CKM_SHA256_RSA_PKCS, ''CKM_SHA256_RSA_PKCS''), (CKM_SHA384_RSA_PKCS, ''CKM_SHA384_RSA_PKCS''),
      (CKM_SHA512_RSA_PKCS, ''CKM_SHA512_RSA_PKCS''), (CKM_SHA256_RSA_PKCS_PSS, ''CKM_SHA256_RSA_PKCS_PSS''),
      (CKM_SHA384_RSA_PKCS_PSS, ''CKM_SHA384_RSA_PKCS_PSS''), (CKM_SHA512_RSA_PKCS_PSS, ''CKM_SHA512_RSA_PKCS_PSS''),
      (CKM_ECDSA, ''CKM_ECDSA''), (CKM_ECDSA_SHA256, ''CKM_ECDSA_SHA256''),
      (CKM_ECDSA_SHA384, ''CKM_ECDSA_SHA384''), (CKM_ECDSA_SHA512, ''CKM_ECDSA_SHA512''),
      (CKM_AES_GCM, ''CKM_AES_GCM''), (CKM_AES_ECB, ''CKM_AES_ECB'')] mech of
     None \<Rightarrow> ''CKM_VENDOR_DEFINED''
   | Some name \<Rightarrow> name)"

definition digest_to_str :: "CK_MECHANISM_TYPE \<Rightarrow> string" where
  "digest_to_str mech =
     (if mech \<in> {CKM_SHA384, CKM_SHA384_RSA_PKCS, CKM_ECDSA_SHA384, CKM_SHA384_HMAC, CKM_SHA384_RSA_PKCS_PSS} then ''SHA-384''
      else if mech \<in> {CKM_SHA512, CKM_SHA512_RSA_PKCS, CKM_ECDSA_SHA512, CKM_SHA512_HMAC, CKM_SHA512_RSA_PKCS_PSS} then ''SHA-512''
      else ''SHA-256'')"

definition session_user_label :: "Session \<Rightarrow> string option" where
  "session_user_label s =
     (if userType_m s \<noteq> CKU_INVALID then Some (''user-'' @ int_text (sint (ucast (userType_m s) :: 32 word))) else None)"

text \<open>The policy gate of \<open>do_sign\<close>.\<close>

definition policy_gate ::
  "'pk CryptoEnv \<Rightarrow> CK_SESSION_HANDLE \<Rightarrow> Session \<Rightarrow> CK_OBJECT_HANDLE \<Rightarrow> HsmObject \<Rightarrow> CK_RV" where
  "policy_gate ce h sess k ob = (case findAttribute ob CKA_VHSM_POLICY of
     None \<Rightarrow> CKR_OK
   | Some policy_attr \<Rightarrow>
       let policy_json = string_of_bytes policy_attr in
       if policy_json = [] then CKR_OK
       else case from_json (ce_parse ce) policy_json of
         Inl _ \<Rightarrow> CKR_ACTION_PROHIBITED
       | Inr policy \<Rightarrow>
           let actor = (case session_user_label sess of None \<Rightarrow> ''UNKNOWN'' | Some u \<Rightarrow> u);
               mech_str = mech_to_str (activeMech_m sess);
               now_ms = env_now_ms (ce_p11 ce);
               attestation_count = (case findAttribute ob CKA_VHSM_ATTESTATION_COUNT of
                   None \<Rightarrow> 0 | Some att \<Rightarrow> parse_attr_count att) in
           (case ce_verify_policy ce of
              Some verify_policy \<Rightarrow>
                if min_attestations policy > 0 then
                  (if verify_policy (p11_key_id (ce_addr ce h k) ob) actor mech_str now_ms then CKR_OK
                   else CKR_ACTION_PROHIBITED)
                else if pe_ok (policy_evaluate policy actor mech_str now_ms attestation_count) then CKR_OK
                else CKR_ACTION_PROHIBITED
            | None \<Rightarrow>
                if pe_ok (policy_evaluate policy actor mech_str now_ms attestation_count) then CKR_OK
                else CKR_ACTION_PROHIBITED))"

definition key_type_ok :: "'pk Evp \<Rightarrow> CK_MECHANISM_TYPE \<Rightarrow> 'pk \<Rightarrow> bool" where
  "key_type_ok evp mech pk =
     (let base = EVP_PKEY_get_base_id evp pk in
      \<not> (is_rsa_mech mech \<and> base \<noteq> EVP_PKEY_RSA \<or> is_ec_mech mech \<and> base \<noteq> EVP_PKEY_EC))"

definition do_sign :: "'pk CryptoEnv \<Rightarrow> P11 \<Rightarrow> CK_SESSION_HANDLE \<Rightarrow> bytes \<Rightarrow> CK_RV \<times> bytes" where
  "do_sign ce st h data = (case p11_get_session st h of
     None \<Rightarrow> (CKR_SESSION_HANDLE_INVALID, [])
   | Some sess \<Rightarrow>
       let mech = activeMech_m sess; k = signKey_m sess in
       if ce_fips_mode ce \<and> \<not> mechanism_approved mech then (CKR_MECHANISM_INVALID, [])
       else case p11_get_object st h k of
         None \<Rightarrow> (CKR_KEY_HANDLE_INVALID, [])
       | Some ob \<Rightarrow>
           let st_rv = p11_key_state_error (getKeyState ob) True in
           if st_rv \<noteq> CKR_OK then (st_rv, [])
           else
             let pol_rv = policy_gate ce h sess k ob in
             if pol_rv \<noteq> CKR_OK then (pol_rv, [])
             else (case load_asym_key (ce_evp ce) st h k of
                 None \<Rightarrow> (CKR_KEY_HANDLE_INVALID, [])
               | Some pk \<Rightarrow>
                   if \<not> key_type_ok (ce_evp ce) mech pk then (CKR_KEY_TYPE_INCONSISTENT, [])
                   else if is_rsa_mech mech then
                     (case resolve_rsa_mech (ce_evp ce) mech data of
                        None \<Rightarrow> (CKR_MECHANISM_INVALID, [])
                      | Some (padding, mdName, mgf1, tosign) \<Rightarrow>
                          p11_rsa_sign (ce_evp ce) pk tosign padding mdName mgf1)
                   else if is_ec_mech mech then p11_ecdsa_sign (ce_evp ce) pk (resolve_ec_mech (ce_evp ce) mech data)
                   else (CKR_MECHANISM_INVALID, [])))"

definition do_verify :: "'pk CryptoEnv \<Rightarrow> P11 \<Rightarrow> CK_SESSION_HANDLE \<Rightarrow> bytes \<Rightarrow> bytes \<Rightarrow> CK_RV" where
  "do_verify ce st h data sig = (case p11_get_session st h of
     None \<Rightarrow> CKR_SESSION_HANDLE_INVALID
   | Some sess \<Rightarrow>
       let mech = activeMech_m sess; k = signKey_m sess in
       case p11_get_object st h k of
         None \<Rightarrow> CKR_KEY_HANDLE_INVALID
       | Some ob \<Rightarrow>
           let st_rv = p11_key_state_error (getKeyState ob) False in
           if st_rv \<noteq> CKR_OK then st_rv
           else (case load_asym_key (ce_evp ce) st h k of
               None \<Rightarrow> CKR_KEY_HANDLE_INVALID
             | Some pk \<Rightarrow>
                 if \<not> key_type_ok (ce_evp ce) mech pk then CKR_KEY_TYPE_INCONSISTENT
                 else if is_rsa_mech mech then
                   (case resolve_rsa_mech (ce_evp ce) mech data of
                      None \<Rightarrow> CKR_MECHANISM_INVALID
                    | Some (padding, mdName, mgf1, tosign) \<Rightarrow>
                        p11_rsa_verify (ce_evp ce) pk tosign sig padding mdName mgf1)
                 else if is_ec_mech mech then p11_ecdsa_verify (ce_evp ce) pk (resolve_ec_mech (ce_evp ce) mech data) sig
                 else CKR_MECHANISM_INVALID))"

subsection \<open>Events\<close>

text \<open>What the events report of session and key.\<close>

record op_context =
  oc_slot_id :: int
  oc_token_label :: string
  oc_user_label :: "string option"
  oc_key_id :: string
  oc_key_fp :: string
  oc_mech :: CK_MECHANISM_TYPE

definition event_context :: "'pk CryptoEnv \<Rightarrow> P11 \<Rightarrow> CK_SESSION_HANDLE \<Rightarrow> op_context" where
  "event_context ce st h =
     (let sess = p11_get_session st h; k = (case sess of None \<Rightarrow> CK_INVALID_HANDLE | Some s \<Rightarrow> signKey_m s) in
      \<lparr>oc_slot_id = (case sess of None \<Rightarrow> 0 | Some s \<Rightarrow> int_of_slot (slotID_m s)),
       oc_token_label = (case p11_get_token_for_session st h of None \<Rightarrow> ''unknown'' | Some t \<Rightarrow> v_label t),
       oc_user_label = (case sess of None \<Rightarrow> None | Some s \<Rightarrow> session_user_label s),
       oc_key_id = (case p11_get_object st h k of None \<Rightarrow> ''unknown'' | Some ob \<Rightarrow> p11_key_id (ce_addr ce h k) ob),
       oc_key_fp = (case load_asym_key (ce_evp ce) st h k of None \<Rightarrow> ''unknown'' | Some pk \<Rightarrow> p11_key_fingerprint (ce_evp ce) pk),
       oc_mech = (case sess of None \<Rightarrow> 0 | Some s \<Rightarrow> activeMech_m s)\<rparr>)"

definition payload_digest :: "'pk CryptoEnv \<Rightarrow> bytes \<Rightarrow> string" where
  "payload_digest ce data = hex_encode (p11_hash (ce_evp ce) SHA256 data)"

definition emit_event :: "'pk CryptoEnv \<Rightarrow> P11 \<Rightarrow> op_context \<Rightarrow> EventType \<Rightarrow> Severity \<Rightarrow> string \<Rightarrow> string \<Rightarrow> string \<times> string \<Rightarrow> P11" where
  "emit_event ce st oc type severity summary detail_json audit = (case (g_notificationBus st, g_auditLog st) of
     (Some bus, Some log) \<Rightarrow>
       st\<lparr>g_notificationBus := Some (publish bus \<lparr>ev_type = type, ev_severity = severity,
            ev_timestamp = env_now_ms (ce_p11 ce),
            ev_source = ''slot:'' @ int_text (oc_slot_id oc) @ ''/token:'' @ oc_token_label oc,
            ev_actor = (case oc_user_label oc of None \<Rightarrow> ''UNKNOWN'' | Some u \<Rightarrow> u),
            ev_summary = summary, ev_detail_json = detail_json, ev_hsm_instance = env_instance (ce_p11 ce)\<rparr>),
          g_auditLog := Some (log\<lparr>sink_calls := sink_calls log @ [audit]\<rparr>)\<rparr>
   | _ \<Rightarrow> st)"

definition publish_verify_event :: "'pk CryptoEnv \<Rightarrow> P11 \<Rightarrow> CK_SESSION_HANDLE \<Rightarrow> CK_RV \<Rightarrow> bytes \<Rightarrow> P11" where
  "publish_verify_event ce st h rv data =
     (let oc = event_context ce st h; mechanism_str = mech_to_str (oc_mech oc) in
      emit_event ce st oc (if rv = CKR_OK then VERIFY_COMPLETED else VERIFY_FAILED) (if rv = CKR_OK then INFO else WARNING)
        (''Signature verification '' @ (if rv = CKR_OK then ''succeeded'' else ''failed'') @ '' for key '' @
         oc_key_id oc @ '' using '' @ mechanism_str)
        (''{\"mechanism\":\"'' @ mechanism_str @ ''\",\"digest_algorithm\":\"'' @ digest_to_str (oc_mech oc) @
         ''\",\"key_fingerprint\":\"'' @ oc_key_fp oc @ ''\",\"payload_digest\":\"'' @ payload_digest ce data @
         ''\",\"result\":\"'' @ (if rv = CKR_OK then ''valid'' else ''invalid'') @ ''\"}'')
        (''verify-'' @ int_text (env_now_ms (ce_p11 ce)), if rv = CKR_OK then ''C_VERIFY_OK'' else ''C_VERIFY_FAILED''))"

definition publish_crypto_op_event ::
  "'pk CryptoEnv \<Rightarrow> P11 \<Rightarrow> CK_SESSION_HANDLE \<Rightarrow> string \<Rightarrow> EventType \<Rightarrow> bytes \<Rightarrow> P11" where
  "publish_crypto_op_event ce st h op_name type data =
     (let oc = event_context ce st h; mechanism_str = mech_to_str (oc_mech oc) in
      emit_event ce st oc type INFO
        (op_name @ '' completed for key '' @ oc_key_id oc @ '' using '' @ mechanism_str)
        (''{\"operation\":\"'' @ op_name @ ''\",\"mechanism\":\"'' @ mechanism_str @ ''\",\"key_fingerprint\":\"'' @
         oc_key_fp oc @ ''\",\"payload_digest\":\"'' @ payload_digest ce data @ ''\"}'')
        (op_name @ ''-'' @ int_text (env_now_ms (ce_p11 ce)), op_name))"

text \<open>
  The dispatcher holds a reference to the notification bus; both are set by \<open>C_Initialize\<close> and cleared
  by \<open>C_Finalize\<close>.
\<close>

definition dispatch_env :: "'pk CryptoEnv \<Rightarrow> P11 \<Rightarrow> DispatchEnv" where
  "dispatch_env ce st = \<lparr>de_hmac = \<lparr>he_hmac = ce_hmac ce, he_derive_db_hmac_key = ce_derive_db_hmac_key ce,
       he_kek = (case p11_get_token st 0 of None \<Rightarrow> [] | Some t \<Rightarrow> v_get_kek t)\<rparr>,
     de_signature_id = ce_signature_id ce, de_outbox_id = ce_outbox_id ce, de_now = ce_now_ns ce,
     de_instance = env_instance (ce_p11 ce), de_pqc = ce_pqc ce, de_db_ok = ce_db_ok ce\<rparr>"

definition dispatch_input ::
  "'pk CryptoEnv \<Rightarrow> P11 \<Rightarrow> CK_SESSION_HANDLE \<Rightarrow> CK_MECHANISM_TYPE \<Rightarrow> bytes \<Rightarrow> bytes \<Rightarrow> 'pk \<Rightarrow> DispatchInput" where
  "dispatch_input ce st h mech data sig pk =
     (let oc = event_context ce st h in
      \<lparr>di_sign_result = \<lparr>res_signature = sig, res_mechanism_str = mech_to_str mech, res_digest_alg = digest_to_str mech,
         res_payload_digest = payload_digest ce data, res_payload_size = length data\<rparr>,
       di_created_at = env_now_ms (ce_p11 ce), di_slot_id = oc_slot_id oc, di_token_label = oc_token_label oc,
       di_key_id = oc_key_id oc, di_key_fingerprint = p11_key_fingerprint (ce_evp ce) pk,
       di_mechanism = mech_to_str mech, di_digest_algorithm = digest_to_str mech,
       di_session_handle = to_string (unat h), di_user_label = oc_user_label oc, di_app_context = None\<rparr>)"

definition dispatch_sign_result ::
  "'pk CryptoEnv \<Rightarrow> P11 \<Rightarrow> CK_SESSION_HANDLE \<Rightarrow> CK_MECHANISM_TYPE \<Rightarrow> bytes \<Rightarrow> bytes \<Rightarrow> CK_RV \<times> P11" where
  "dispatch_sign_result ce st h mech data sig = (case (g_signatureDispatcher st, g_notificationBus st) of
     (True, Some bus) \<Rightarrow>
       let k = (case p11_get_session st h of None \<Rightarrow> CK_INVALID_HANDLE | Some s \<Rightarrow> signKey_m s) in
       (case load_asym_key (ce_evp ce) st h k of
          None \<Rightarrow> (CKR_OK, st)
        | Some pk \<Rightarrow>
            (case dispatch (dispatch_env ce st) False (dispatch_input ce st h mech data sig pk) (p11_db st) bus of
               (dispatch_ok, db', bus', _) \<Rightarrow>
                 (if dispatch_ok then CKR_OK else CKR_DEVICE_ERROR, st\<lparr>p11_db := db', g_notificationBus := Some bus'\<rparr>)))
   | _ \<Rightarrow> (CKR_OK, st))"

subsection \<open>Encryption entry points\<close>

type_synonym out_result = "CK_RV \<times> bytes option \<times> CK_ULONG option \<times> P11"

definition encdec_mechs :: "CK_MECHANISM_TYPE set" where
  "encdec_mechs = {CKM_RSA_PKCS, CKM_RSA_X_509, CKM_RSA_PKCS_OAEP, CKM_AES_GCM}"

text \<open>The mechanism parameters of an encryption or a decryption, written to the session.\<close>

definition set_mech_params :: "P11 \<Rightarrow> CK_SESSION_HANDLE \<Rightarrow> CK_MECHANISM \<Rightarrow> CK_RV \<times> P11" where
  "set_mech_params st h m = (case p11_get_session st h of
     None \<Rightarrow> (CKR_OK, st)
   | Some s \<Rightarrow>
       if mechanism m = CKM_AES_GCM then
         (case pParameter m of
            None \<Rightarrow> (CKR_MECHANISM_PARAM_INVALID, st)
          | Some prm \<Rightarrow>
              if ulParameterLen m < sizeof_CK_GCM_PARAMS then (CKR_MECHANISM_PARAM_INVALID, st)
              else let g = as_gcm prm in
                if pIv g = None \<or> ulIvLen g = 0 then (CKR_MECHANISM_PARAM_INVALID, st)
                else (CKR_OK, p11_put_session st h
                  (setGcmParams s (read_mem (pIv g) (ulIvLen g)) (read_mem (pAAD g) (ulAADLen g)))))
       else if mechanism m = CKM_RSA_PKCS_OAEP then
         (case pParameter m of
            Some prm \<Rightarrow>
              if ulParameterLen m \<ge> sizeof_CK_RSA_PKCS_OAEP_PARAMS then
                let q = as_oaep prm;
                    lbl = (if oaep_source q = CKZ_DATA_SPECIFIED then read_mem (pSourceData q) (ulSourceDataLen q) else []) in
                (CKR_OK, p11_put_session st h (setOaepParams s (oaep_md_name (hashAlg q)) lbl))
              else (CKR_OK, p11_put_session st h (setOaepParams s ''SHA-256'' []))
          | None \<Rightarrow> (CKR_OK, p11_put_session st h (setOaepParams s ''SHA-256'' [])))
       else (CKR_OK, st))"

definition C_EncryptInit :: "P11 \<Rightarrow> CK_SESSION_HANDLE \<Rightarrow> CK_MECHANISM option \<Rightarrow> CK_OBJECT_HANDLE \<Rightarrow> CK_RV \<times> P11" where
  "C_EncryptInit st h m hKey = (case m of
     None \<Rightarrow> (CKR_ARGUMENTS_BAD, st)
   | Some mech \<Rightarrow>
       if mechanism mech \<notin> encdec_mechs then (CKR_MECHANISM_INVALID, st)
       else case op_begin st h m hKey True of
         (rv, st1) \<Rightarrow> if rv \<noteq> CKR_OK then (rv, st1) else set_mech_params st1 h mech)"

text \<open>Delivery of the output, the event on success, and the end of the operation.\<close>

definition finish_crypt ::
  "'pk CryptoEnv \<Rightarrow> P11 \<Rightarrow> CK_SESSION_HANDLE \<Rightarrow> string \<Rightarrow> EventType \<Rightarrow> bytes \<Rightarrow> CK_RV \<times> bytes \<Rightarrow> bool \<Rightarrow> CK_ULONG option \<Rightarrow> out_result" where
  "finish_crypt ce st h op_name type inp result has_pOut pOutLen = (case result of
     (rv, out) \<Rightarrow>
       if rv \<noteq> CKR_OK then (rv, None, None, op_end st h)
       else case finish_output out has_pOut pOutLen of
         (rv', written, len) \<Rightarrow>
           (rv', written, len, op_end (if rv' = CKR_OK then publish_crypto_op_event ce st h op_name type inp else st) h))"

definition C_Encrypt ::
  "'pk CryptoEnv \<Rightarrow> P11 \<Rightarrow> CK_SESSION_HANDLE \<Rightarrow> bytes option \<Rightarrow> CK_ULONG \<Rightarrow> bool \<Rightarrow> CK_ULONG option \<Rightarrow> out_result" where
  "C_Encrypt ce st h pData ulDataLen has_pEncryptedData pulEncryptedDataLen =
     (if op_check st h \<noteq> CKR_OK then (CKR_OPERATION_NOT_INITIALIZED, None, None, st)
      else if pData = None \<and> ulDataLen > 0 then (CKR_ARGUMENTS_BAD, None, None, st)
      else let inp = read_mem pData ulDataLen in
        finish_crypt ce st h ''C_Encrypt'' ENCRYPT_COMPLETED inp (do_encrypt ce st h inp)
          has_pEncryptedData pulEncryptedDataLen)"

text \<open>The length written back by the update functions is 0 whenever there is a place for it.\<close>

definition crypt_update ::
  "P11 \<Rightarrow> CK_SESSION_HANDLE \<Rightarrow> bytes option \<Rightarrow> CK_ULONG \<Rightarrow> CK_ULONG option \<Rightarrow> CK_RV \<times> CK_ULONG option \<times> P11" where
  "crypt_update st h pPart ulPartLen pulOutLen =
     (if op_check st h \<noteq> CKR_OK then (CKR_OPERATION_NOT_INITIALIZED, None, st)
      else if pPart = None \<and> ulPartLen > 0 then (CKR_ARGUMENTS_BAD, None, st)
      else (CKR_OK, map_option (\<lambda>_. 0) pulOutLen, op_update st h pPart ulPartLen))"

definition C_EncryptUpdate ::
  "P11 \<Rightarrow> CK_SESSION_HANDLE \<Rightarrow> bytes option \<Rightarrow> CK_ULONG \<Rightarrow> CK_ULONG option \<Rightarrow> CK_RV \<times> CK_ULONG option \<times> P11" where
  "C_EncryptUpdate st h pPart ulPartLen pulEncryptedPartLen = crypt_update st h pPart ulPartLen pulEncryptedPartLen"

text \<open>The accumulated input is taken out of the session and put back, for the event.\<close>

definition take_op_buffer :: "P11 \<Rightarrow> CK_SESSION_HANDLE \<Rightarrow> Session \<Rightarrow> bytes \<times> P11" where
  "take_op_buffer st h s = (case opTakeBuffer s of
     (inp, s1) \<Rightarrow> (inp, p11_put_session st h (opUpdate s1 (Some inp) (of_nat (length inp)))))"

definition C_EncryptFinal :: "'pk CryptoEnv \<Rightarrow> P11 \<Rightarrow> CK_SESSION_HANDLE \<Rightarrow> bool \<Rightarrow> CK_ULONG option \<Rightarrow> out_result" where
  "C_EncryptFinal ce st h has_pLastEncryptedPart pulLastEncryptedPartLen =
     (if op_check st h \<noteq> CKR_OK then (CKR_OPERATION_NOT_INITIALIZED, None, None, st)
      else case p11_get_session st h of
        None \<Rightarrow> (CKR_SESSION_HANDLE_INVALID, None, None, st)
      | Some s \<Rightarrow> (case take_op_buffer st h s of
          (inp, st1) \<Rightarrow> finish_crypt ce st1 h ''C_EncryptFinal'' ENCRYPT_COMPLETED inp (do_encrypt ce st1 h inp)
            has_pLastEncryptedPart pulLastEncryptedPartLen))"

definition C_DecryptInit :: "P11 \<Rightarrow> CK_SESSION_HANDLE \<Rightarrow> CK_MECHANISM option \<Rightarrow> CK_OBJECT_HANDLE \<Rightarrow> CK_RV \<times> P11" where
  "C_DecryptInit st h m hKey = (case m of
     None \<Rightarrow> (CKR_ARGUMENTS_BAD, st)
   | Some mech \<Rightarrow>
       if mechanism mech \<notin> encdec_mechs then (CKR_MECHANISM_INVALID, st)
       else case op_begin st h m hKey True of
         (rv, st1) \<Rightarrow> if rv \<noteq> CKR_OK then (rv, st1) else set_mech_params st1 h mech)"

definition C_Decrypt ::
  "'pk CryptoEnv \<Rightarrow> P11 \<Rightarrow> CK_SESSION_HANDLE \<Rightarrow> bytes option \<Rightarrow> CK_ULONG \<Rightarrow> bool \<Rightarrow> CK_ULONG option \<Rightarrow> out_result" where
  "C_Decrypt ce st h pEncryptedData ulEncryptedDataLen has_pData pulDataLen =
     (if op_check st h \<noteq> CKR_OK then (CKR_OPERATION_NOT_INITIALIZED, None, None, st)
      else if pEncryptedData = None \<and> ulEncryptedDataLen > 0 then (CKR_ARGUMENTS_BAD, None, None, st)
      else let inp = read_mem pEncryptedData ulEncryptedDataLen in
        finish_crypt ce st h ''C_Decrypt'' DECRYPT_COMPLETED inp (do_decrypt ce st h inp) has_pData pulDataLen)"

definition C_DecryptUpdate ::
  "P11 \<Rightarrow> CK_SESSION_HANDLE \<Rightarrow> bytes option \<Rightarrow> CK_ULONG \<Rightarrow> CK_ULONG option \<Rightarrow> CK_RV \<times> CK_ULONG option \<times> P11" where
  "C_DecryptUpdate st h pEncryptedPart ulEncryptedPartLen pulPartLen =
     crypt_update st h pEncryptedPart ulEncryptedPartLen pulPartLen"

definition C_DecryptFinal :: "'pk CryptoEnv \<Rightarrow> P11 \<Rightarrow> CK_SESSION_HANDLE \<Rightarrow> bool \<Rightarrow> CK_ULONG option \<Rightarrow> out_result" where
  "C_DecryptFinal ce st h has_pLastPart pulLastPartLen =
     (if op_check st h \<noteq> CKR_OK then (CKR_OPERATION_NOT_INITIALIZED, None, None, st)
      else case p11_get_session st h of
        None \<Rightarrow> (CKR_SESSION_HANDLE_INVALID, None, None, st)
      | Some s \<Rightarrow> (case take_op_buffer st h s of
          (inp, st1) \<Rightarrow> finish_crypt ce st1 h ''C_DecryptFinal'' DECRYPT_COMPLETED inp (do_decrypt ce st1 h inp)
            has_pLastPart pulLastPartLen))"

subsection \<open>Digest entry points\<close>

definition C_DigestInit :: "P11 \<Rightarrow> CK_SESSION_HANDLE \<Rightarrow> CK_MECHANISM option \<Rightarrow> CK_RV \<times> P11" where
  "C_DigestInit st h m = (case m of
     None \<Rightarrow> (CKR_ARGUMENTS_BAD, st)
   | Some mech \<Rightarrow>
       if \<not> is_digest_mech (mechanism mech) then (CKR_MECHANISM_INVALID, st)
       else op_begin st h m CK_INVALID_HANDLE False)"

definition C_Digest ::
  "'pk Evp \<Rightarrow> P11 \<Rightarrow> CK_SESSION_HANDLE \<Rightarrow> bytes option \<Rightarrow> CK_ULONG \<Rightarrow> bool \<Rightarrow> CK_ULONG option \<Rightarrow> out_result" where
  "C_Digest evp st h pData ulDataLen has_pDigest pulDigestLen =
     (if op_check st h \<noteq> CKR_OK then (CKR_OPERATION_NOT_INITIALIZED, None, None, st)
      else if pData = None \<and> ulDataLen > 0 then (CKR_ARGUMENTS_BAD, None, None, st)
      else case p11_get_session st h of
        None \<Rightarrow> (CKR_SESSION_HANDLE_INVALID, None, None, st)
      | Some s \<Rightarrow>
          let out = p11_hash evp (mech_to_hash (activeMech_m s)) (read_mem pData ulDataLen) in
          (case finish_output out has_pDigest pulDigestLen of (rv, written, len) \<Rightarrow> (rv, written, len, op_end st h)))"

text \<open>The update shared by digest, signature and verification.\<close>

definition input_update :: "P11 \<Rightarrow> CK_SESSION_HANDLE \<Rightarrow> bytes option \<Rightarrow> CK_ULONG \<Rightarrow> CK_RV \<times> P11" where
  "input_update st h pPart ulPartLen =
     (if op_check st h \<noteq> CKR_OK then (CKR_OPERATION_NOT_INITIALIZED, st)
      else if pPart = None \<and> ulPartLen > 0 then (CKR_ARGUMENTS_BAD, st)
      else (CKR_OK, op_update st h pPart ulPartLen))"

definition C_DigestUpdate :: "P11 \<Rightarrow> CK_SESSION_HANDLE \<Rightarrow> bytes option \<Rightarrow> CK_ULONG \<Rightarrow> CK_RV \<times> P11" where
  "C_DigestUpdate st h pPart ulPartLen = input_update st h pPart ulPartLen"

definition C_DigestKey :: "P11 \<Rightarrow> CK_SESSION_HANDLE \<Rightarrow> CK_OBJECT_HANDLE \<Rightarrow> CK_RV \<times> P11" where
  "C_DigestKey st h hKey =
     (if op_check st h \<noteq> CKR_OK then (CKR_OPERATION_NOT_INITIALIZED, st)
      else let key = load_secret_key st h hKey in
        if key = [] then (CKR_KEY_INDIGESTIBLE, st)
        else (CKR_OK, op_update st h (Some key) (of_nat (length key))))"

definition C_DigestFinal :: "'pk Evp \<Rightarrow> P11 \<Rightarrow> CK_SESSION_HANDLE \<Rightarrow> bool \<Rightarrow> CK_ULONG option \<Rightarrow> out_result" where
  "C_DigestFinal evp st h has_pDigest pulDigestLen =
     (if op_check st h \<noteq> CKR_OK then (CKR_OPERATION_NOT_INITIALIZED, None, None, st)
      else case p11_get_session st h of
        None \<Rightarrow> (CKR_SESSION_HANDLE_INVALID, None, None, st)
      | Some s \<Rightarrow> (case opTakeBuffer s of
          (buf, s1) \<Rightarrow>
            let out = p11_hash evp (mech_to_hash (activeMech_m s1)) buf in
            (case finish_output out has_pDigest pulDigestLen of
               (rv, written, len) \<Rightarrow> (rv, written, len, op_end (p11_put_session st h s1) h))))"

subsection \<open>Signature entry points\<close>

definition C_SignInit :: "P11 \<Rightarrow> CK_SESSION_HANDLE \<Rightarrow> CK_MECHANISM option \<Rightarrow> CK_OBJECT_HANDLE \<Rightarrow> CK_RV \<times> P11" where
  "C_SignInit st h m hKey = (case m of
     None \<Rightarrow> (CKR_ARGUMENTS_BAD, st)
   | Some mech \<Rightarrow>
       if \<not> is_rsa_mech (mechanism mech) \<and> \<not> is_ec_mech (mechanism mech) then (CKR_MECHANISM_INVALID, st)
       else op_begin st h m hKey True)"

text \<open>Delivery of the signature, its dispatch, and the end of the operation.\<close>

definition finish_sign ::
  "'pk CryptoEnv \<Rightarrow> P11 \<Rightarrow> CK_SESSION_HANDLE \<Rightarrow> bytes \<Rightarrow> CK_RV \<times> bytes \<Rightarrow> bool \<Rightarrow> CK_ULONG option \<Rightarrow> out_result" where
  "finish_sign ce st h data result has_pSignature pulSignatureLen = (case result of
     (rv, sig) \<Rightarrow>
       if rv \<noteq> CKR_OK then (rv, None, None, op_end st h)
       else case finish_output sig has_pSignature pulSignatureLen of
         (rv', written, len) \<Rightarrow>
           if rv' \<noteq> CKR_OK then (rv', written, len, op_end st h)
           else let active_mech = (case p11_get_session st h of None \<Rightarrow> 0 | Some s \<Rightarrow> activeMech_m s) in
             (case dispatch_sign_result ce st h active_mech data sig of
                (rv'', st') \<Rightarrow> (rv'', written, len, op_end st' h)))"

definition C_Sign ::
  "'pk CryptoEnv \<Rightarrow> P11 \<Rightarrow> CK_SESSION_HANDLE \<Rightarrow> bytes option \<Rightarrow> CK_ULONG \<Rightarrow> bool \<Rightarrow> CK_ULONG option \<Rightarrow> out_result" where
  "C_Sign ce st h pData ulDataLen has_pSignature pulSignatureLen =
     (if op_check st h \<noteq> CKR_OK then (CKR_OPERATION_NOT_INITIALIZED, None, None, st)
      else if pData = None \<and> ulDataLen > 0 then (CKR_ARGUMENTS_BAD, None, None, st)
      else let data = read_mem pData ulDataLen in
        finish_sign ce st h data (do_sign ce st h data) has_pSignature pulSignatureLen)"

definition C_SignUpdate :: "P11 \<Rightarrow> CK_SESSION_HANDLE \<Rightarrow> bytes option \<Rightarrow> CK_ULONG \<Rightarrow> CK_RV \<times> P11" where
  "C_SignUpdate st h pPart ulPartLen = input_update st h pPart ulPartLen"

definition C_SignFinal :: "'pk CryptoEnv \<Rightarrow> P11 \<Rightarrow> CK_SESSION_HANDLE \<Rightarrow> bool \<Rightarrow> CK_ULONG option \<Rightarrow> out_result" where
  "C_SignFinal ce st h has_pSignature pulSignatureLen =
     (if op_check st h \<noteq> CKR_OK then (CKR_OPERATION_NOT_INITIALIZED, None, None, st)
      else case p11_get_session st h of
        None \<Rightarrow> (CKR_SESSION_HANDLE_INVALID, None, None, st)
      | Some s \<Rightarrow> (case take_op_buffer st h s of
          (data, st1) \<Rightarrow> finish_sign ce st1 h data (do_sign ce st1 h data) has_pSignature pulSignatureLen))"

subsection \<open>Verification entry points\<close>

definition C_VerifyInit :: "P11 \<Rightarrow> CK_SESSION_HANDLE \<Rightarrow> CK_MECHANISM option \<Rightarrow> CK_OBJECT_HANDLE \<Rightarrow> CK_RV \<times> P11" where
  "C_VerifyInit st h m hKey = (case m of
     None \<Rightarrow> (CKR_ARGUMENTS_BAD, st)
   | Some mech \<Rightarrow>
       if \<not> is_rsa_mech (mechanism mech) \<and> \<not> is_ec_mech (mechanism mech) then (CKR_MECHANISM_INVALID, st)
       else op_begin st h m hKey True)"

definition finish_verify :: "'pk CryptoEnv \<Rightarrow> P11 \<Rightarrow> CK_SESSION_HANDLE \<Rightarrow> bytes \<Rightarrow> CK_RV \<Rightarrow> CK_RV \<times> P11" where
  "finish_verify ce st h data rv =
     (rv, op_end (if rv = CKR_OK \<or> rv = CKR_SIGNATURE_INVALID then publish_verify_event ce st h rv data else st) h)"

definition C_Verify ::
  "'pk CryptoEnv \<Rightarrow> P11 \<Rightarrow> CK_SESSION_HANDLE \<Rightarrow> bytes option \<Rightarrow> CK_ULONG \<Rightarrow> bytes option \<Rightarrow> CK_ULONG \<Rightarrow> CK_RV \<times> P11" where
  "C_Verify ce st h pData ulDataLen pSignature ulSignatureLen =
     (if op_check st h \<noteq> CKR_OK then (CKR_OPERATION_NOT_INITIALIZED, st)
      else if pData = None \<and> ulDataLen > 0 then (CKR_ARGUMENTS_BAD, st)
      else if pSignature = None \<and> ulSignatureLen > 0 then (CKR_ARGUMENTS_BAD, st)
      else let data = read_mem pData ulDataLen; sig = read_mem pSignature ulSignatureLen in
        finish_verify ce st h data (do_verify ce st h data sig))"

definition C_VerifyUpdate :: "P11 \<Rightarrow> CK_SESSION_HANDLE \<Rightarrow> bytes option \<Rightarrow> CK_ULONG \<Rightarrow> CK_RV \<times> P11" where
  "C_VerifyUpdate st h pPart ulPartLen = input_update st h pPart ulPartLen"

definition C_VerifyFinal ::
  "'pk CryptoEnv \<Rightarrow> P11 \<Rightarrow> CK_SESSION_HANDLE \<Rightarrow> bytes option \<Rightarrow> CK_ULONG \<Rightarrow> CK_RV \<times> P11" where
  "C_VerifyFinal ce st h pSignature ulSignatureLen =
     (if op_check st h \<noteq> CKR_OK then (CKR_OPERATION_NOT_INITIALIZED, st)
      else if pSignature = None \<and> ulSignatureLen > 0 then (CKR_ARGUMENTS_BAD, st)
      else case p11_get_session st h of
        None \<Rightarrow> (CKR_SESSION_HANDLE_INVALID, st)
      | Some s \<Rightarrow> (case take_op_buffer st h s of
          (data, st1) \<Rightarrow> finish_verify ce st1 h data (do_verify ce st1 h data (read_mem pSignature ulSignatureLen))))"

subsection \<open>Specification notions\<close>

text \<open>A state in which the accumulated input of a session is \<open>b\<close>.\<close>

definition stash :: "P11 \<Rightarrow> CK_SESSION_HANDLE \<Rightarrow> Session \<Rightarrow> bytes \<Rightarrow> P11" where
  "stash st h s b = p11_put_session st h (s\<lparr>opBuf_m := b\<rparr>)"

text \<open>The input handed over in parts.\<close>

definition feed :: "(P11 \<Rightarrow> CK_SESSION_HANDLE \<Rightarrow> bytes option \<Rightarrow> CK_ULONG \<Rightarrow> CK_RV \<times> P11) \<Rightarrow> P11 \<Rightarrow> CK_SESSION_HANDLE \<Rightarrow> bytes list \<Rightarrow> P11" where
  "feed update st h parts = fold (\<lambda>p t. snd (update t h (Some p) (of_nat (length p)))) parts st"

text \<open>The policy document of a key, empty when it has none, its attestation count, and the actor of a session.\<close>

definition key_policy_text :: "HsmObject \<Rightarrow> string" where
  "key_policy_text ob = (case findAttribute ob CKA_VHSM_POLICY of None \<Rightarrow> [] | Some v \<Rightarrow> string_of_bytes v)"

definition attestations :: "HsmObject \<Rightarrow> u64" where
  "attestations ob = (case findAttribute ob CKA_VHSM_ATTESTATION_COUNT of None \<Rightarrow> 0 | Some v \<Rightarrow> parse_attr_count v)"

definition actor_of :: "Session \<Rightarrow> string" where
  "actor_of s = (case session_user_label s of None \<Rightarrow> ''UNKNOWN'' | Some u \<Rightarrow> u)"

text \<open>What a policy demands locally: its time window, its mechanisms, its signers and its number of attestations.\<close>

definition policy_permits :: "KeyPolicy \<Rightarrow> string \<Rightarrow> string \<Rightarrow> int \<Rightarrow> u64 \<Rightarrow> bool" where
  "policy_permits p actor mech now n =
     ((not_before_ms p = 0 \<or> not_before_ms p \<le> now) \<and> (not_after_ms p = 0 \<or> now \<le> not_after_ms p) \<and>
      (allowed_mechanisms p = [] \<or> mech \<in> set (allowed_mechanisms p)) \<and>
      (allowed_signers p = [] \<or> actor \<in> set (allowed_signers p)) \<and> min_attestations p \<le> int_of_count n)"

definition sample_evp :: "nat Evp" where
  "sample_evp = \<lparr>evp_shim = True, import_rsa_private = (\<lambda>_. None), import_ec_private = (\<lambda>_. Some 408),
     import_rsa_public = (\<lambda>_. Some 6), import_ec_point = (\<lambda>_ _. Some 408), d2i_EC_PUBKEY = (\<lambda>_. None),
     export_rsa_private = (\<lambda>_. Some [1]), export_rsa_public = (\<lambda>_. Some [2]), export_ec_private = (\<lambda>_. Some [3]),
     export_ec_params = (\<lambda>_. Some [4]), export_ec_point = (\<lambda>_. Some [5]), d2i_PUBKEY = (\<lambda>_. None),
     i2d_RSAPrivateKey = (\<lambda>_. None), i2d_RSAPublicKey = (\<lambda>_. None), i2d_ECPrivateKey = (\<lambda>_. None),
     i2o_ECPublicKey = (\<lambda>_. None), i2d_ECPKParameters = (\<lambda>_. None), EC_POINT_point2oct = (\<lambda>_. None),
     EVP_PKEY_get_base_id = int, EVP_PKEY_CTX_new = (\<lambda>_. True), EVP_PKEY_op_init = (\<lambda>_ _. True),
     EVP_PKEY_CTX_set_rsa_padding = (\<lambda>_ _ _. True), EVP_get_digestbyname = (\<lambda>_. True),
     EVP_PKEY_encrypt = (\<lambda>_ _ _ d. (True, length d, d)), EVP_PKEY_decrypt = (\<lambda>_ _ _ d. (True, length d, d)),
     EVP_PKEY_sign = (\<lambda>_ _ _ d. (True, length d, d)), EVP_PKEY_verify = (\<lambda>_ _ s d. if s = d then 1 else 0),
     EVP_PKEY_derive_set_peer = (\<lambda>_ _. True), EVP_PKEY_derive = (\<lambda>_ _ _. (True, 1, [7])),
     EVP_CIPHER_CTX_new = True, EVP_gcm_encrypt = (\<lambda>_ _ _ _ d. Some (d, replicate 16 9)),
     EVP_gcm_decrypt = (\<lambda>_ _ _ _ d t. if t = replicate 16 9 then Some d else None), EVP_Digest = (\<lambda>_ d. take 2 d @ [0])\<rparr>"

definition sample_ce :: "nat CryptoEnv" where
  "sample_ce = \<lparr>ce_p11 = \<lparr>env_now_ms = 10, env_instance = ''i''\<rparr>, ce_evp = sample_evp, ce_fips_mode = False,
     ce_parse = (\<lambda>_. Some (JObject [(''not_before_ms'', JInt 5)])), ce_verify_policy = None, ce_addr = (\<lambda>_ _. 1),
     ce_hmac = (\<lambda>k m. k), ce_derive_db_hmac_key = (\<lambda>k. k), ce_signature_id = ''s'', ce_outbox_id = ''o'', ce_now_ns = 1,
     ce_pqc = [[], [], []], ce_db_ok = True\<rparr>"

definition sample_signer :: HsmObject where
  "sample_signer = set_attr_vec (set_attr_vec (new_HsmObject PRIVATE_KEY True False False True) CKA_VHSM_EC_PRIV [1])
     CKA_VHSM_POLICY (bytes_of_string ''p'')"

definition sample_secret :: HsmObject where
  "sample_secret = set_attr_vec (new_HsmObject SECRET_KEY True True False False) CKA_VALUE (replicate 16 1)"

definition sample_session :: Session where
  "sample_session = (new_Session 1 0 0 0 0)\<lparr>objectStore_m :=
     snd (v_create_object (snd (v_create_object new_ObjectStore sample_signer)) sample_secret)\<rparr>"

text \<open>One session whose store holds a signing key with a policy and a secret key.\<close>

definition sample_P11 :: P11 where
  "sample_P11 = (initial_P11 (\<lambda>_. None) empty_db)\<lparr>g_initialized := True, g_signatureDispatcher := True,
     g_notificationBus := Some (new_BoundedNotificationBus 4), g_auditLog := Some \<lparr>sink_key = None, sink_calls = []\<rparr>,
     g_sessionManager := \<lparr>v_sessions = [sample_session], v_next_session_id = 2\<rparr>\<rparr>"

abbreviation (input) plain_mech :: "CK_MECHANISM_TYPE \<Rightarrow> CK_MECHANISM" where
  "plain_mech m \<equiv> \<lparr>mechanism = m, pParameter = None, ulParameterLen = 0\<rparr>"

definition sample_signing :: P11 where
  "sample_signing = snd (C_SignInit sample_P11 1 (Some (plain_mech CKM_ECDSA_SHA256)) (v_compose_handle 0 1))"

definition sample_gcm :: CK_MECHANISM where
  "sample_gcm = \<lparr>mechanism = CKM_AES_GCM, pParameter = Some
     \<lparr>as_gcm = \<lparr>pIv = Some [1, 2], ulIvLen = 2, pAAD = None, ulAADLen = 0\<rparr>,
      as_oaep = \<lparr>hashAlg = 0, oaep_source = 0, pSourceData = None, ulSourceDataLen = 0\<rparr>,
      as_ecdh = \<lparr>pPublicData = None, ulPublicDataLen = 0\<rparr>\<rparr>, ulParameterLen = 48\<rparr>"

lemma stash_lookups:
  assumes "p11_get_session st h = Some s"
  shows "p11_get_session (stash st h s b) h = Some (s\<lparr>opBuf_m := b\<rparr>)"
    and "p11_get_object (stash st h s b) h k = p11_get_object st h k"
    and "p11_get_token_for_session (stash st h s b) h = p11_get_token_for_session st h"
    and "load_asym_key evp (stash st h s b) h k = load_asym_key evp st h k"
    and "load_secret_key (stash st h s b) h k = load_secret_key st h k"
    and "g_notificationBus (stash st h s b) = g_notificationBus st" "g_auditLog (stash st h s b) = g_auditLog st"
      "g_signatureDispatcher (stash st h s b) = g_signatureDispatcher st" "p11_db (stash st h s b) = p11_db st"
      "p11_get_token (stash st h s b) i = p11_get_token st i"
  using p11_get_put_session [OF assms, of "s\<lparr>opBuf_m := b\<rparr>"] p11_session_handle [OF assms] assms
  by (simp_all add: stash_def p11_get_object_def p11_get_token_for_session_def load_asym_key_def load_secret_key_def)

lemma stash_end:
  assumes "p11_get_session st h = Some s"
  shows "op_end (stash st h s b) h = op_end st h"
    and "op_end ((stash st h s b)\<lparr>p11_db := d, g_notificationBus := c\<rparr>) h = op_end (st\<lparr>p11_db := d, g_notificationBus := c\<rparr>) h"
    and "op_end ((stash st h s b)\<lparr>g_notificationBus := c, g_auditLog := l\<rparr>) h = op_end (st\<lparr>g_notificationBus := c, g_auditLog := l\<rparr>) h"
  using stash_lookups(1) [OF assms, of b] p11_session_handle [OF assms] assms
  by (simp_all add: op_end_def opEnd_def) (simp_all add: stash_def p11_put_put)

lemma policy_gate_buf [simp]: "policy_gate ce h (s\<lparr>opBuf_m := b\<rparr>) k ob = policy_gate ce h s k ob"
  by (simp add: policy_gate_def session_user_label_def Let_def cong: if_cong option.case_cong sum.case_cong)

lemma stash_operations:
  assumes "p11_get_session st h = Some s"
  shows "do_sign ce (stash st h s b) h data = do_sign ce st h data"
    and "do_verify ce (stash st h s b) h data sig = do_verify ce st h data sig"
    and "do_encrypt ce (stash st h s b) h data = do_encrypt ce st h data"
    and "do_decrypt ce (stash st h s b) h data = do_decrypt ce st h data"
    and "event_context ce (stash st h s b) h = event_context ce st h"
  by (simp_all add: do_sign_def do_verify_def do_encrypt_def do_decrypt_def event_context_def stash_lookups [OF assms]
      assms session_user_label_def Let_def cong: if_cong option.case_cong)

lemma stash_finish:
  assumes "p11_get_session st h = Some s"
  shows "finish_sign ce (stash st h s b) h data r has_out len = finish_sign ce st h data r has_out len"
    and "finish_verify ce (stash st h s b) h data rv = finish_verify ce st h data rv"
    and "finish_crypt ce (stash st h s b) h nm ty data r has_out len = finish_crypt ce st h nm ty data r has_out len"
  by (simp_all add: finish_sign_def finish_verify_def finish_crypt_def dispatch_sign_result_def dispatch_input_def
      dispatch_env_def publish_verify_event_def publish_crypto_op_event_def emit_event_def
      stash_lookups [OF assms] stash_operations [OF assms] stash_end [OF assms] assms Let_def
      split: prod.splits option.splits bool.splits)


subsection \<open>Multi-part operations\<close>

lemma length_in_range: "length v < 2 ^ 64 \<Longrightarrow> unat (of_nat (length v) :: u64) = length v"
  by (rule unat_of_nat_len64)

lemma opUpdate_all: "length v < 2 ^ 64 \<Longrightarrow> opUpdate s (Some v) (of_nat (length v)) = s\<lparr>opBuf_m := opBuf_m s @ v\<rparr>"
  using length_in_range [of v] by (auto simp: opUpdate_def)

lemma stash_stash: "p11_get_session st h = Some s \<Longrightarrow> stash (stash st h s b) h (s\<lparr>opBuf_m := b\<rparr>) c = stash st h s c"
  using p11_session_handle [of st h s] by (simp add: stash_def p11_put_put)

lemma input_update_stash:
  assumes "p11_get_session st h = Some s" "opCheck s = CKR_OK" "length v < 2 ^ 64"
  shows "snd (input_update st h (Some v) (of_nat (length v))) = stash st h s (opBuf_m s @ v)"
  using assms by (simp add: input_update_def op_check_def op_update_def opUpdate_all stash_def)

lemma feed_input:
  assumes "p11_get_session st h = Some s" "opCheck s = CKR_OK" "length (concat parts) < 2 ^ 64"
  shows "\<exists>s'. p11_get_session (feed input_update st h parts) h = Some s' \<and> opBuf_m s' = opBuf_m s @ concat parts \<and> opCheck s' = CKR_OK \<and>
    (\<forall>b. stash (feed input_update st h parts) h s' b = stash st h s b)"
  using assms
proof (induction parts arbitrary: st s)
  case Nil
  then show ?case by (simp add: feed_def)
next
  case (Cons p parts)
  let ?st = "stash st h s (opBuf_m s @ p)" and ?s = "s\<lparr>opBuf_m := opBuf_m s @ p\<rparr>"
  have "feed input_update st h (p # parts) = feed input_update ?st h parts"
    using Cons.prems input_update_stash [of st h s p] by (simp add: feed_def)
  moreover have "opCheck ?s = CKR_OK" "p11_get_session ?st h = Some ?s" "length (concat parts) < 2 ^ 64"
    using Cons.prems stash_lookups(1) by (simp_all add: opCheck_def)
  ultimately show ?case using Cons.IH [of ?st ?s] stash_stash [OF Cons.prems(1)] by auto
qed

lemma take_op_buffer_stash:
  "length (opBuf_m s) < 2 ^ 64 \<Longrightarrow> handle_m s = h \<Longrightarrow> take_op_buffer st h s = (opBuf_m s, stash st h s (opBuf_m s))"
  using opUpdate_all [of "opBuf_m s" "s\<lparr>opBuf_m := []\<rparr>"] by (simp add: take_op_buffer_def opTakeBuffer_def stash_def)

text \<open>
  C35. A signature, verification or digest made in parts is the one-part operation on the concatenation: whatever
  way the input is cut, the final call returns the same code, output and length as the one-part call, and leaves the
  module in the same state, including the events published and the row dispatched to the signature store.
\<close>

theorem multipart_equals_one_part:
  assumes "p11_get_session st h = Some s" "opCheck s = CKR_OK" "opBuf_m s = []" "length (concat parts) < 2 ^ 64"
    and "n = of_nat (length (concat parts))"
  shows "C_SignFinal ce (feed C_SignUpdate st h parts) h has_out len = C_Sign ce st h (Some (concat parts)) n has_out len \<and>
    C_VerifyFinal ce (feed C_VerifyUpdate st h parts) h (Some sig) sigLen = C_Verify ce st h (Some (concat parts)) n (Some sig) sigLen \<and>
    C_DigestFinal evp (feed C_DigestUpdate st h parts) h has_out len = C_Digest evp st h (Some (concat parts)) n has_out len"
proof -
  have upd: "C_SignUpdate = input_update" "C_VerifyUpdate = input_update" "C_DigestUpdate = input_update"
    by (auto simp: C_SignUpdate_def C_VerifyUpdate_def C_DigestUpdate_def fun_eq_iff)
  obtain s' where s': "p11_get_session (feed input_update st h parts) h = Some s'" "opBuf_m s' = concat parts"
    "opCheck s' = CKR_OK" and st: "stash (feed input_update st h parts) h s' b = stash st h s b" for b
    using feed_input [OF assms(1,2,4)] assms(3) by auto
  have h: "handle_m s' = h" by (rule p11_session_handle [OF s'(1)])
  have n: "unat n = length (concat parts)" using assms(4,5) length_in_range by simp
  have get: "p11_get_session (stash st h s b) h = Some (s\<lparr>opBuf_m := b\<rparr>)" for b by (rule stash_lookups(1) [OF assms(1)])
  have "s'\<lparr>opBuf_m := []\<rparr> = s\<lparr>opBuf_m := []\<rparr>"
    using stash_lookups(1) [OF s'(1), of "[]"] st [of "[]"] get [of "[]"] by simp
  from arg_cong [OF this, of activeMech_m] have m: "activeMech_m s' = activeMech_m s" by simp
  have tk: "take_op_buffer (feed input_update st h parts) h s' = (concat parts, stash st h s (concat parts))"
    using take_op_buffer_stash [of s' h] s'(2) assms(4) h st by simp
  have "op_end (p11_put_session (feed input_update st h parts) h (s'\<lparr>opBuf_m := []\<rparr>)) h = op_end st h"
    using st [of "[]"] stash_end(1) [OF assms(1), of "[]"] by (simp add: stash_def)
  then show ?thesis unfolding upd
    using assms(1,2) s' n m
    by (simp add: C_SignFinal_def C_Sign_def C_VerifyFinal_def C_Verify_def C_DigestFinal_def C_Digest_def op_check_def
        tk opTakeBuffer_def stash_operations [OF assms(1)] stash_finish [OF assms(1)] Let_def)
qed

subsection \<open>The end of an operation\<close>

lemma op_end_session:
  assumes "p11_get_session st h = Some s"
  shows "p11_get_session (op_end st h) h = Some (opEnd s)"
  using p11_get_put_session [OF assms, of "opEnd s"] p11_session_handle [OF assms] by (simp add: op_end_def assms opEnd_def)

lemma published_session [simp]:
  "p11_get_session (publish_crypto_op_event ce st h nm ty d) g = p11_get_session st g"
  "p11_get_session (publish_verify_event ce st h rv d) g = p11_get_session st g"
  "p11_get_session (snd (dispatch_sign_result ce st h m d sig)) g = p11_get_session st g"
  by (simp_all add: publish_crypto_op_event_def publish_verify_event_def emit_event_def dispatch_sign_result_def Let_def
      split: option.splits prod.splits bool.splits)

lemma finish_ends:
  assumes "p11_get_session st h = Some s"
  shows "finish_crypt ce st h nm ty d r has_out len = (rv, w, l, st') \<Longrightarrow> p11_get_session st' h = Some (opEnd s)"
    and "finish_sign ce st h d r has_out len = (rv, w, l, st') \<Longrightarrow> p11_get_session st' h = Some (opEnd s)"
proof -
  have e: "p11_get_session (op_end t h) h = Some (opEnd s)" if "p11_get_session t h = Some s" for t
    using op_end_session [OF that] .
  show "finish_crypt ce st h nm ty d r has_out len = (rv, w, l, st') \<Longrightarrow> p11_get_session st' h = Some (opEnd s)"
    using assms by (auto simp: finish_crypt_def e split: prod.splits if_splits)
  have "p11_get_session (op_end t h) h = Some (opEnd s)" if "dispatch_sign_result ce st h m d sig = (x, t)" for m sig x t
    using e [of t] published_session(3) [of ce st h m d sig h] that assms by simp
  then show "finish_sign ce st h d r has_out len = (rv, w, l, st') \<Longrightarrow> p11_get_session st' h = Some (opEnd s)"
    using assms by (auto simp: finish_sign_def e Let_def split: prod.splits if_splits)
qed


subsection \<open>Gates of a signature\<close>

lemma policy_evaluate_iff: "pe_ok (policy_evaluate p actor mech now n) \<longleftrightarrow> policy_permits p actor mech now n"
  by (auto simp: policy_evaluate_def policy_permits_def)

lemma policy_gate_OK:
  assumes "policy_gate ce h s k ob = CKR_OK" "key_policy_text ob \<noteq> []"
  shows "\<exists>policy. from_json (ce_parse ce) (key_policy_text ob) = Inr policy \<and>
    (case ce_verify_policy ce of
       Some verify_policy \<Rightarrow> if min_attestations policy > 0
         then verify_policy (p11_key_id (ce_addr ce h k) ob) (actor_of s) (mech_to_str (activeMech_m s)) (env_now_ms (ce_p11 ce))
         else policy_permits policy (actor_of s) (mech_to_str (activeMech_m s)) (env_now_ms (ce_p11 ce)) (attestations ob)
     | None \<Rightarrow> policy_permits policy (actor_of s) (mech_to_str (activeMech_m s)) (env_now_ms (ce_p11 ce)) (attestations ob))"
  using assms by (auto simp: policy_gate_def key_policy_text_def actor_of_def attestations_def Let_def policy_evaluate_iff
      split: option.splits sum.splits if_splits)

lemma do_sign_OK:
  assumes "do_sign ce st h data = (CKR_OK, sig)" "p11_get_session st h = Some s"
  shows "\<exists>ob pk. p11_get_object st h (signKey_m s) = Some ob \<and> getKeyState ob = Active \<and>
    policy_gate ce h s (signKey_m s) ob = CKR_OK \<and> load_asym_key (ce_evp ce) st h (signKey_m s) = Some pk \<and>
    key_type_ok (ce_evp ce) (activeMech_m s) pk \<and> (ce_fips_mode ce \<longrightarrow> mechanism_approved (activeMech_m s))"
  using assms by (auto simp: do_sign_def p11_key_state_error_def Let_def split: option.splits if_splits)

lemma op_end_db [simp]: "p11_db (op_end st h) = p11_db st"
  by (simp add: op_end_def split: option.splits)

lemma C_Sign_effect:
  assumes "C_Sign ce st h pData n has_out len = (rv, w, l, st')" "rv = CKR_OK \<or> w \<noteq> None \<or> p11_db st' \<noteq> p11_db st"
  shows "\<exists>s sig. p11_get_session st h = Some s \<and> opCheck s = CKR_OK \<and> do_sign ce st h (read_mem pData n) = (CKR_OK, sig)"
proof (cases "p11_get_session st h")
  case None
  then show ?thesis using assms by (auto simp: C_Sign_def op_check_def)
next
  case (Some s)
  obtain r sig where d: "do_sign ce st h (read_mem pData n) = (r, sig)" by fastforce
  show ?thesis using assms d Some
    by (auto simp: C_Sign_def op_check_def finish_sign_def Let_def split: if_splits)
qed

text \<open>
  C5. The gates of a signature.  When \<open>C_Sign\<close> succeeds, or delivers a signature, or changes the signature store, then the
  operation was initialised on this session; the mechanism is approved if FIPS mode is on; the key exists, is in state
  Active and is of the type of the mechanism; and if it carries a policy document, that document is well-formed and the
  user, the mechanism and the time satisfy it, with the attestations confirmed by the ledger when there is one to ask.
\<close>

theorem sign_gated:
  assumes "C_Sign ce st h pData n has_out len = (rv, w, l, st')" "rv = CKR_OK \<or> w \<noteq> None \<or> p11_db st' \<noteq> p11_db st"
  shows "\<exists>s ob pk. p11_get_session st h = Some s \<and> activeMech_m s \<noteq> 0 \<and>
    (ce_fips_mode ce \<longrightarrow> mechanism_approved (activeMech_m s)) \<and>
    p11_get_object st h (signKey_m s) = Some ob \<and> getKeyState ob = Active \<and>
    p11_evp_from_object (ce_evp ce) ob = Some pk \<and>
    (is_rsa_mech (activeMech_m s) \<longrightarrow> EVP_PKEY_get_base_id (ce_evp ce) pk = EVP_PKEY_RSA) \<and>
    (is_ec_mech (activeMech_m s) \<longrightarrow> EVP_PKEY_get_base_id (ce_evp ce) pk = EVP_PKEY_EC) \<and>
    (key_policy_text ob \<noteq> [] \<longrightarrow> (\<exists>policy. from_json (ce_parse ce) (key_policy_text ob) = Inr policy \<and>
      (case ce_verify_policy ce of
         Some verify_policy \<Rightarrow> if min_attestations policy > 0
           then verify_policy (p11_key_id (ce_addr ce h (signKey_m s)) ob) (actor_of s) (mech_to_str (activeMech_m s)) (env_now_ms (ce_p11 ce))
           else policy_permits policy (actor_of s) (mech_to_str (activeMech_m s)) (env_now_ms (ce_p11 ce)) (attestations ob)
       | None \<Rightarrow> policy_permits policy (actor_of s) (mech_to_str (activeMech_m s)) (env_now_ms (ce_p11 ce)) (attestations ob))))"
proof -
  obtain s sig where s: "p11_get_session st h = Some s" "opCheck s = CKR_OK"
    and d: "do_sign ce st h (read_mem pData n) = (CKR_OK, sig)"
    using C_Sign_effect [OF assms] by blast
  obtain ob pk where ob: "p11_get_object st h (signKey_m s) = Some ob" "getKeyState ob = Active"
    "policy_gate ce h s (signKey_m s) ob = CKR_OK" "load_asym_key (ce_evp ce) st h (signKey_m s) = Some pk"
    "key_type_ok (ce_evp ce) (activeMech_m s) pk" "ce_fips_mode ce \<longrightarrow> mechanism_approved (activeMech_m s)"
    using do_sign_OK [OF d s(1)] by blast
  have "activeMech_m s \<noteq> 0" using s(2) by (auto simp: opCheck_def)
  moreover have "p11_evp_from_object (ce_evp ce) ob = Some pk" using ob(1,4) by (simp add: load_asym_key_def)
  ultimately show ?thesis using s(1) ob policy_gate_OK [OF ob(3)] by (auto simp: key_type_ok_def Let_def)
qed


subsection \<open>A sample module state\<close>

lemma sample_sign:
  "map_prod id (map_prod id (map_prod id (\<lambda>st. map sr_hmac (signature_records (p11_db st)))))
     (C_Sign sample_ce sample_signing 1 (Some [1, 2, 3]) 3 True (Some 10)) =
   (CKR_OK, Some [1, 2, 0], Some 3, [[]])"
  by code_simp

theorem sign_gated_witness:
  "\<exists>s ob. p11_get_session sample_signing 1 = Some s \<and> p11_get_object sample_signing 1 (signKey_m s) = Some ob \<and>
     getKeyState ob = Active \<and> (key_policy_text ob \<noteq> [] \<longrightarrow> (\<exists>p. from_json (ce_parse sample_ce) (key_policy_text ob) = Inr p))"
proof -
  obtain w l st' where "C_Sign sample_ce sample_signing 1 (Some [1, 2, 3]) 3 True (Some 10) = (CKR_OK, w, l, st')"
    using sample_sign by (cases "C_Sign sample_ce sample_signing 1 (Some [1, 2, 3]) 3 True (Some 10)") auto
  from sign_gated [OF this] show ?thesis by blast
qed

lemma sample_session_signing:
  "p11_get_session sample_signing 1 = Some (sample_session\<lparr>activeMech_m := CKM_ECDSA_SHA256, signKey_m := v_compose_handle 0 1\<rparr>)"
  by (simp add: sample_signing_def C_SignInit_def is_rsa_mech_def is_ec_mech_def op_begin_def sample_P11_def p11_is_initialized_def
      p11_get_session_def v_get_session_def sample_session_def new_Session_def opBegin_def p11_put_session_def v_put_session_def
      v_compose_handle_def)

theorem multipart_equals_one_part_witness:
  "C_SignFinal sample_ce (feed C_SignUpdate sample_signing 1 [[1], [2, 3]]) 1 True (Some 10) =
     C_Sign sample_ce sample_signing 1 (Some [1, 2, 3]) 3 True (Some 10) \<and>
   fst (C_Sign sample_ce sample_signing 1 (Some [1, 2, 3]) 3 True (Some 10)) = CKR_OK"
proof -
  have "fst (C_Sign sample_ce sample_signing 1 (Some [1, 2, 3]) 3 True (Some 10)) = CKR_OK"
    using sample_sign by (cases "C_Sign sample_ce sample_signing 1 (Some [1, 2, 3]) 3 True (Some 10)") auto
  then show ?thesis
    using multipart_equals_one_part [OF sample_session_signing, of "[[1], [2, 3]]" 3 sample_ce True "Some 10" "[]" 0 sample_evp]
    by (simp add: opCheck_def sample_session_def new_Session_def)
qed


subsection \<open>Encryption and decryption\<close>

lemma op_begin_OK:
  assumes "op_begin st h (Some m) k True = (CKR_OK, st')"
  shows "\<exists>s. p11_get_session st h = Some s \<and> p11_is_initialized st \<and> k \<noteq> CK_INVALID_HANDLE \<and>
    st' = p11_put_session st h (s\<lparr>activeMech_m := mechanism m, signKey_m := k, opBuf_m := []\<rparr>)"
  using assms by (auto simp: op_begin_def opBegin_def split: if_splits option.splits)

lemma gcm_init_OK:
  assumes "op_begin st h (Some m) k True = (CKR_OK, st0)" "set_mech_params st0 h m = (CKR_OK, st')" "mechanism m = CKM_AES_GCM"
  shows "\<exists>s prm. p11_get_session st h = Some s \<and> p11_is_initialized st \<and> k \<noteq> CK_INVALID_HANDLE \<and>
    pParameter m = Some prm \<and> ulParameterLen m \<ge> 48 \<and> pIv (as_gcm prm) \<noteq> None \<and> ulIvLen (as_gcm prm) \<noteq> 0 \<and>
    st' = p11_put_session st h (s\<lparr>activeMech_m := CKM_AES_GCM, signKey_m := k, opBuf_m := [],
      gcmIv_m := read_mem (pIv (as_gcm prm)) (ulIvLen (as_gcm prm)),
      gcmAad_m := read_mem (pAAD (as_gcm prm)) (ulAADLen (as_gcm prm))\<rparr>)"
proof -
  obtain s where s: "p11_get_session st h = Some s" "p11_is_initialized st" "k \<noteq> CK_INVALID_HANDLE"
    "st0 = p11_put_session st h (s\<lparr>activeMech_m := mechanism m, signKey_m := k, opBuf_m := []\<rparr>)"
    using op_begin_OK [OF assms(1)] by blast
  have h: "handle_m s = h" by (rule p11_session_handle [OF s(1)])
  have "p11_get_session st0 h = Some (s\<lparr>activeMech_m := mechanism m, signKey_m := k, opBuf_m := []\<rparr>)"
    using p11_get_put_session [OF s(1)] h s(4) by simp
  then show ?thesis using s assms(2,3) h
    by (auto simp: set_mech_params_def setGcmParams_def p11_put_put Let_def not_less split: option.splits if_splits)
qed


lemma load_secret_key_put:
  assumes "p11_get_session st h = Some s0" "handle_m s = h" "objectStore_m s = objectStore_m s0"
  shows "load_secret_key (p11_put_session st h s) h k = load_secret_key st h k"
    and "p11_get_object (p11_put_session st h s) h k = p11_get_object st h k"
  using p11_get_put_session [OF assms(1,2), of h] assms by (simp_all add: load_secret_key_def p11_get_object_def)

lemma finish_crypt_OK:
  assumes "finish_crypt ce st h nm ty d (rv0, out) has_out len = (CKR_OK, Some c, l, st')"
  shows "rv0 = CKR_OK \<and> c = out"
  using assms by (auto simp: finish_crypt_def finish_output_def split: if_splits option.splits)

lemma emit_event_frame [simp]:
  "g_initialized (publish_crypto_op_event ce st h nm ty d) = g_initialized st"
  by (simp add: publish_crypto_op_event_def emit_event_def Let_def split: option.splits)

lemma op_end_initialized [simp]: "g_initialized (op_end st h) = g_initialized st"
  by (simp add: op_end_def split: option.splits)

lemma finish_crypt_initialized:
  "finish_crypt ce st h nm ty d r has_out len = (rv, w, l, st') \<Longrightarrow> g_initialized st' = g_initialized st"
  by (auto simp: finish_crypt_def split: prod.splits if_splits)

lemma gcm_encrypt_result:
  assumes "do_encrypt ce st h pt = (CKR_OK, ct)" "p11_get_session st h = Some s" "activeMech_m s = CKM_AES_GCM"
  shows "\<exists>c tag. load_secret_key st h (signKey_m s) \<noteq> [] \<and> EVP_CIPHER_CTX_new (ce_evp ce) \<and>
    EVP_gcm_encrypt (ce_evp ce) (gcm_cipher (load_secret_key st h (signKey_m s))) (load_secret_key st h (signKey_m s))
      (gcmIv_m s) (gcmAad_m s) pt = Some (c, tag) \<and> ct = c @ resize 16 tag"
  using assms by (auto simp: do_encrypt_def p11_aes_gcm_encrypt_def Let_def split: option.splits if_splits prod.splits)

lemma gcm_decrypt_init:
  assumes "p11_get_session st h = Some s" "p11_is_initialized st" "k \<noteq> CK_INVALID_HANDLE" "mechanism m = CKM_AES_GCM"
    and "pParameter m = Some prm" "ulParameterLen m \<ge> 48" "pIv (as_gcm prm) \<noteq> None" "ulIvLen (as_gcm prm) \<noteq> 0"
    and "activeMech_m s = 0"
  shows "C_DecryptInit st h (Some m) k = (CKR_OK, p11_put_session st h (s\<lparr>activeMech_m := CKM_AES_GCM, signKey_m := k, opBuf_m := [],
    gcmIv_m := read_mem (pIv (as_gcm prm)) (ulIvLen (as_gcm prm)), gcmAad_m := read_mem (pAAD (as_gcm prm)) (ulAADLen (as_gcm prm))\<rparr>))"
proof -
  let ?s = "s\<lparr>activeMech_m := CKM_AES_GCM, signKey_m := k, opBuf_m := []\<rparr>"
  have h: "handle_m s = h" by (rule p11_session_handle [OF assms(1)])
  have "p11_get_session (p11_put_session st h ?s) h = Some ?s" using p11_get_put_session [OF assms(1), of ?s] h by simp
  then show ?thesis using assms h
    by (auto simp: C_DecryptInit_def encdec_mechs_def op_begin_def opBegin_def set_mech_params_def setGcmParams_def p11_put_put Let_def)
qed



lemma sample_encrypt:
  "map_prod id fst (apsnd (\<lambda>st1. let (rv, w, l, _) = C_Encrypt sample_ce st1 1 (Some [5, 6]) 2 True (Some 20) in ((rv, w), l))
     (C_EncryptInit sample_P11 1 (Some sample_gcm) (v_compose_handle 1 1))) =
   (CKR_OK, (CKR_OK, Some ([5, 6] @ replicate 16 9)))"
  by code_simp


end
