(* ===== verification/KeyWrap.thy ===== *)
theory KeyWrap
  imports SecureBuffer Codec
begin

text \<open>
  AES key wrap: keystore/key\_wrap.cpp and crypto/aes\_ecb.cpp.  The AES-256 block functions of
  vhsm::scrypto are the parameters \<open>enc\<close> and \<open>dec\<close>.  The integrity register is the 64-bit integer
  \<open>A\<close> of the source, copied to and from the block with the byte order of the machine (little-endian);
  the result buffer is a byte list, and a \<open>memcpy\<close> into it is \<open>memcpy_at\<close>.  The two nested counting
  loops are folds over the list of their index pairs.  Locking and cleansing of pages has no
  counterpart.
\<close>

type_synonym block_fun = "bytes \<Rightarrow> bytes \<Rightarrow> bytes"

abbreviation (input) AIV :: u64 where "AIV \<equiv> 0xA6A6A6A6A6A6A6A6"

definition bswap64 :: "u64 \<Rightarrow> u64" where
  "bswap64 t = get_le64 (rev (put_le64 t))"

definition memcpy_at :: "bytes \<Rightarrow> nat \<Rightarrow> bytes \<Rightarrow> bytes" where
  "memcpy_at buf off src = take off buf @ src @ drop (off + length src) buf"

definition new_KeyWrap :: "bytes \<Rightarrow> cpp_exn + bytes" where
  "new_KeyWrap master_kek = (if length master_kek \<noteq> 32 then Inl runtime_error else Inr master_kek)"

definition wrap_step :: "block_fun \<Rightarrow> bytes \<Rightarrow> nat \<Rightarrow> nat \<times> nat \<Rightarrow> u64 \<times> bytes \<Rightarrow> u64 \<times> bytes" where
  "wrap_step enc kek n = (\<lambda>(j, i) (A, result).
     let block = enc kek (put_le64 A @ take 8 (drop (i * 8) result));
         t = of_nat (n * j + i) in
     (get_le64 (take 8 block) XOR bswap64 t, memcpy_at result (i * 8) (take 8 (drop 8 block))))"

definition wrap_indices :: "nat \<Rightarrow> (nat \<times> nat) list" where
  "wrap_indices n = concat (map (\<lambda>j. map (\<lambda>i. (j, i)) [1..<n + 1]) [0..<6])"

definition wrap :: "block_fun \<Rightarrow> bytes \<Rightarrow> bytes \<Rightarrow> cpp_exn + bytes" where
  "wrap enc kek plaintext_key =
     (if \<not> (16 \<le> length plaintext_key \<and> length plaintext_key mod 8 = 0) then Inl runtime_error
      else let n = length plaintext_key div 8;
               (A, result) = fold (wrap_step enc kek n) (wrap_indices n) (AIV, replicate 8 0 @ plaintext_key) in
        Inr (memcpy_at result 0 (put_le64 A)))"

definition unwrap_step :: "block_fun \<Rightarrow> bytes \<Rightarrow> nat \<Rightarrow> nat \<times> nat \<Rightarrow> u64 \<times> bytes \<Rightarrow> u64 \<times> bytes" where
  "unwrap_step dec kek n = (\<lambda>(j, i) (A, result).
     let t = of_nat (n * j + i);
         block = dec kek (put_le64 (A XOR bswap64 t) @ take 8 (drop ((i - 1) * 8) result)) in
     (get_le64 (take 8 block), memcpy_at result ((i - 1) * 8) (take 8 (drop 8 block))))"

definition unwrap_indices :: "nat \<Rightarrow> (nat \<times> nat) list" where
  "unwrap_indices n = concat (map (\<lambda>j. map (\<lambda>i. (j, i)) (rev [1..<n + 1])) (rev [0..<6]))"

definition unwrap :: "block_fun \<Rightarrow> bytes \<Rightarrow> bytes \<Rightarrow> cpp_exn + bytes" where
  "unwrap dec kek ciphertext_key =
     (if \<not> (24 \<le> length ciphertext_key \<and> length ciphertext_key mod 8 = 0) then Inl runtime_error
      else let n = length ciphertext_key div 8 - 1;
               (A, result) = fold (unwrap_step dec kek n) (unwrap_indices n)
                 (get_le64 ciphertext_key, drop 8 ciphertext_key) in
        if A \<noteq> AIV then Inl runtime_error else Inr result)"

subsection \<open>Specification notions\<close>

text \<open>
  What the AES-256 block functions promise: for a 32-byte key, both map 16-byte blocks to 16-byte
  blocks and undo each other.
\<close>

definition aes_ok :: "block_fun \<Rightarrow> block_fun \<Rightarrow> bool" where
  "aes_ok enc dec = (\<forall>k b. length k = 32 \<longrightarrow> length b = 16 \<longrightarrow>
     length (enc k b) = 16 \<and> length (dec k b) = 16 \<and> dec k (enc k b) = b \<and> enc k (dec k b) = b)"

text \<open>
  The reference: the index-based description of the algorithm in RFC 3394, section 2.2.1, on a register
  of eight bytes and a list of semi-blocks, with the step counter in big-endian order.
\<close>

definition be64 :: "u64 \<Rightarrow> bytes" where
  "be64 t = map (\<lambda>k. ucast (drop_bit (56 - 8 * k) t)) [0..<8]"

definition rfc3394_step :: "block_fun \<Rightarrow> bytes \<Rightarrow> nat \<Rightarrow> nat \<times> nat \<Rightarrow> bytes \<times> bytes list \<Rightarrow> bytes \<times> bytes list" where
  "rfc3394_step enc k n = (\<lambda>(j, i) (A, R).
     let B = enc k (A @ R ! (i - 1)) in
     (map2 (XOR) (take 8 B) (be64 (of_nat (n * j + i))), R[i - 1 := drop 8 B]))"

definition rfc3394_wrap :: "block_fun \<Rightarrow> bytes \<Rightarrow> bytes list \<Rightarrow> bytes" where
  "rfc3394_wrap enc k P =
     (let (A, R) = fold (rfc3394_step enc k (length P))
        [(j, i). j \<leftarrow> [0..<6], i \<leftarrow> [1..<length P + 1]] (replicate 8 0xA6, P)
      in A @ concat R)"

fun semiblocks :: "bytes \<Rightarrow> bytes list" where
  "semiblocks [] = []"
| "semiblocks bs = take 8 bs # semiblocks (drop 8 bs)"

text \<open>The wrapping step without the room for the register in front of the buffer.\<close>

definition wrap_core :: "block_fun \<Rightarrow> bytes \<Rightarrow> nat \<Rightarrow> nat \<times> nat \<Rightarrow> u64 \<times> bytes \<Rightarrow> u64 \<times> bytes" where
  "wrap_core enc kek n = (\<lambda>(j, i) (A, r).
     let block = enc kek (put_le64 A @ take 8 (drop ((i - 1) * 8) r)) in
     (get_le64 (take 8 block) XOR bswap64 (of_nat (n * j + i)), memcpy_at r ((i - 1) * 8) (take 8 (drop 8 block))))"

subsection \<open>Buffers\<close>

lemma length_memcpy_at: "off + length s \<le> length r \<Longrightarrow> length (memcpy_at r off s) = length r"
  by (simp add: memcpy_at_def)

lemma take_drop_memcpy_at: "off + length s \<le> length r \<Longrightarrow> take (length s) (drop off (memcpy_at r off s)) = s"
  by (simp add: memcpy_at_def)

lemma memcpy_at_memcpy_at: "off + length s \<le> length r \<Longrightarrow> length s' = length s \<Longrightarrow> memcpy_at (memcpy_at r off s) off s' = memcpy_at r off s'"
  by (simp add: memcpy_at_def)

lemma memcpy_at_same: "memcpy_at r off (take k (drop off r)) = r"
  by (simp add: memcpy_at_def) (metis append_take_drop_id drop_drop drop_all add.commute le_cases length_drop
      min.absorb_iff2 min.commute take_all_iff)

lemma memcpy_at_prefix: "length z = 8 \<Longrightarrow> 1 \<le> i \<Longrightarrow> memcpy_at (z @ r) (i * 8) s = z @ memcpy_at r ((i - 1) * 8) s"
  by (simp add: memcpy_at_def algebra_simps)

lemma put_get_le64: "length b = 8 \<Longrightarrow> put_le64 (get_le64 b) = b"
proof -
  assume "length b = 8"
  then obtain b0 b1 b2 b3 b4 b5 b6 b7 where b: "b = [b0, b1, b2, b3, b4, b5, b6, b7]"
    by (auto simp: numeral_eq_Suc length_Suc_conv)
  show ?thesis
    by (simp add: b put_le64_def get_le64_def upt_rec ucast_and_FF) (simp add: byte_eq_bits)
qed

lemma put_le64_xor: "put_le64 (x XOR y) = map2 (XOR) (put_le64 x) (put_le64 y)"
  by (simp add: put_le64_def upt_rec ucast_and_FF) (simp add: bit_eq_iff bit_simps)

lemma xor_cancel: "(a XOR b) XOR b = (a :: u64)"
  by (simp add: xor.assoc)

lemma put_bswap64: "put_le64 (bswap64 t) = be64 t"
  by (simp add: bswap64_def put_get_le64 le64.length_put)
     (simp add: put_le64_def be64_def upt_rec ucast_and_FF)

subsection \<open>The step and its inverse\<close>

lemma fold_undo:
  assumes "\<And>x s. x \<in> set xs \<Longrightarrow> I s \<Longrightarrow> I (f x s) \<and> g x (f x s) = s" "I s"
  shows "I (fold f xs s) \<and> fold g (rev xs) (fold f xs s) = s"
  using assms
proof (induction xs arbitrary: s)
  case (Cons x xs)
  have "I (f x s)" "g x (f x s) = s" using Cons.prems by auto
  with Cons.IH [of "f x s"] Cons.prems(1) show ?case by auto
qed simp

lemma wrap_step_core:
  assumes "length z = 8" "1 \<le> i"
  shows "wrap_step enc kek n (j, i) (A, z @ r) = map_prod (\<lambda>x. x) ((@) z) (wrap_core enc kek n (j, i) (A, r))"
proof -
  have "drop (i * 8) (z @ r) = drop ((i - 1) * 8) r" using assms by (simp add: algebra_simps)
  then show ?thesis using assms by (simp add: wrap_step_def wrap_core_def Let_def memcpy_at_prefix)
qed

lemma fold_wrap_core:
  assumes "length z = 8" "\<forall>(j, i)\<in>set xs. 1 \<le> i"
  shows "fold (wrap_step enc kek n) xs (A, z @ r) =
    map_prod (\<lambda>x. x) ((@) z) (fold (wrap_core enc kek n) xs (A, r))"
  using assms
proof (induction xs arbitrary: A r)
  case (Cons x xs)
  obtain j i where x: "x = (j, i)" by fastforce
  obtain A' r' where c: "wrap_core enc kek n (j, i) (A, r) = (A', r')" by fastforce
  show ?case using Cons wrap_step_core [of z i enc kek n j A r] x c by simp
qed simp

lemma aes_ok_halves:
  assumes "aes_ok enc dec" "length k = 32" "length b = 16"
  shows "\<exists>l h. enc k b = l @ h \<and> length l = 8 \<and> length h = 8 \<and> dec k (l @ h) = b"
    and "\<exists>l h. dec k b = l @ h \<and> length l = 8 \<and> length h = 8 \<and> enc k (l @ h) = b"
proof -
  show "\<exists>l h. enc k b = l @ h \<and> length l = 8 \<and> length h = 8 \<and> dec k (l @ h) = b"
    using assms by (intro exI [of _ "take 8 (enc k b)"] exI [of _ "drop 8 (enc k b)"]) (simp add: aes_ok_def)
  show "\<exists>l h. dec k b = l @ h \<and> length l = 8 \<and> length h = 8 \<and> enc k (l @ h) = b"
    using assms by (intro exI [of _ "take 8 (dec k b)"] exI [of _ "drop 8 (dec k b)"]) (simp add: aes_ok_def)
qed

lemma core_inverse:
  assumes "aes_ok enc dec" "length kek = 32" "1 \<le> i" "i \<le> n" "length r = n * 8"
  shows "length (snd (wrap_core enc kek n (j, i) (A, r))) = n * 8 \<and>
    unwrap_step dec kek n (j, i) (wrap_core enc kek n (j, i) (A, r)) = (A, r)"
proof -
  let ?o = "(i - 1) * 8" and ?t = "bswap64 (of_nat (n * j + i))"
  have o: "?o + 8 \<le> length r" using assms(3-5) by (cases i) auto
  let ?b = "put_le64 A @ take 8 (drop ?o r)"
  have b: "length ?b = 16" using o by (simp add: le64.length_put)
  obtain l h where e: "enc kek ?b = l @ h" "length l = 8" "length h = 8" and d: "dec kek (l @ h) = ?b"
    using aes_ok_halves(1) [OF assms(1,2) b] by blast
  have w: "wrap_core enc kek n (j, i) (A, r) = (get_le64 l XOR ?t, memcpy_at r ?o h)"
    using e by (simp add: wrap_core_def)
  have "take 8 (drop ?o (memcpy_at r ?o h)) = h" using take_drop_memcpy_at [of ?o h r] o e(3) by simp
  then have "unwrap_step dec kek n (j, i) (get_le64 l XOR ?t, memcpy_at r ?o h) =
      (get_le64 (take 8 ?b), memcpy_at (memcpy_at r ?o h) ?o (take 8 (drop 8 ?b)))"
    using d e by (simp add: unwrap_step_def put_get_le64 le64.length_put xor_cancel)
  also have "\<dots> = (A, r)"
    using o e(3) memcpy_at_memcpy_at [of ?o h r "take 8 (drop ?o r)"]
    by (simp add: le64.length_put le64.get_put_nil memcpy_at_same)
  finally show ?thesis using w o e(3) assms(5) by (simp add: length_memcpy_at)
qed

lemma core_inverse':
  assumes "aes_ok enc dec" "length kek = 32" "1 \<le> i" "i \<le> n" "length r = n * 8"
  shows "length (snd (unwrap_step dec kek n (j, i) (A, r))) = n * 8 \<and>
    wrap_core enc kek n (j, i) (unwrap_step dec kek n (j, i) (A, r)) = (A, r)"
proof -
  let ?o = "(i - 1) * 8" and ?t = "bswap64 (of_nat (n * j + i))"
  have o: "?o + 8 \<le> length r" using assms(3-5) by (cases i) auto
  let ?b = "put_le64 (A XOR ?t) @ take 8 (drop ?o r)"
  have b: "length ?b = 16" using o by (simp add: le64.length_put)
  obtain l h where e: "dec kek ?b = l @ h" "length l = 8" "length h = 8" and d: "enc kek (l @ h) = ?b"
    using aes_ok_halves(2) [OF assms(1,2) b] by blast
  have w: "unwrap_step dec kek n (j, i) (A, r) = (get_le64 l, memcpy_at r ?o h)"
    using e by (simp add: unwrap_step_def)
  have "take 8 (drop ?o (memcpy_at r ?o h)) = h" using take_drop_memcpy_at [of ?o h r] o e(3) by simp
  then have "wrap_core enc kek n (j, i) (get_le64 l, memcpy_at r ?o h) =
      (get_le64 (take 8 ?b) XOR ?t, memcpy_at (memcpy_at r ?o h) ?o (take 8 (drop 8 ?b)))"
    using d e by (simp add: wrap_core_def put_get_le64 le64.length_put)
  also have "\<dots> = (A, r)"
    using o e(3) memcpy_at_memcpy_at [of ?o h r "take 8 (drop ?o r)"]
    by (simp add: le64.length_put le64.get_put_nil memcpy_at_same xor_cancel)
  finally show ?thesis using w o e(3) assms(5) by (simp add: length_memcpy_at)
qed

subsection \<open>Whole runs\<close>

lemma unwrap_indices_rev: "unwrap_indices n = rev (wrap_indices n)"
  by (simp add: unwrap_indices_def wrap_indices_def rev_concat rev_map o_def del: upt_Suc upt.simps)

lemma wrap_indices_bounds: "(j, i) \<in> set (wrap_indices n) \<Longrightarrow> 1 \<le> i \<and> i \<le> n"
  by (auto simp: wrap_indices_def)

lemma wrap_run:
  assumes "16 \<le> length p" "length p mod 8 = 0"
    "fold (wrap_core enc kek (length p div 8)) (wrap_indices (length p div 8)) (AIV, p) = (A, r)"
  shows "wrap enc kek p = Inr (put_le64 A @ r)"
proof -
  have "fold (wrap_step enc kek (length p div 8)) (wrap_indices (length p div 8)) (AIV, replicate 8 0 @ p) =
      (A, replicate 8 0 @ r)"
    using assms(3) wrap_indices_bounds by (subst fold_wrap_core) auto
  then show ?thesis using assms(1,2) by (simp add: wrap_def memcpy_at_def le64.length_put)
qed

lemma core_run:
  assumes "aes_ok enc dec" "length kek = 32" "length r = n * 8"
  shows "length (snd (fold (wrap_core enc kek n) (wrap_indices n) (A, r))) = n * 8 \<and>
    fold (unwrap_step dec kek n) (unwrap_indices n) (fold (wrap_core enc kek n) (wrap_indices n) (A, r)) = (A, r)"
  unfolding unwrap_indices_rev
  by (rule fold_undo [of "wrap_indices n" "\<lambda>s. length (snd s) = n * 8"])
    (use assms core_inverse [OF assms(1,2)] wrap_indices_bounds in fastforce)+

lemma core_run':
  assumes "aes_ok enc dec" "length kek = 32" "length r = n * 8"
  shows "length (snd (fold (unwrap_step dec kek n) (unwrap_indices n) (A, r))) = n * 8 \<and>
    fold (wrap_core enc kek n) (wrap_indices n) (fold (unwrap_step dec kek n) (unwrap_indices n) (A, r)) = (A, r)"
  using fold_undo [of "unwrap_indices n" "\<lambda>s. length (snd s) = n * 8" "unwrap_step dec kek n" "wrap_core enc kek n" "(A, r)"]
    assms core_inverse' [OF assms(1,2)] wrap_indices_bounds
  by (fastforce simp: unwrap_indices_rev)

lemma unwrap_wrap:
  assumes "aes_ok enc dec" "length kek = 32" "wrap enc kek p = Inr c"
  shows "unwrap dec kek c = Inr p"
proof -
  let ?n = "length p div 8"
  have l: "16 \<le> length p" "length p mod 8 = 0" using assms(3) by (auto simp: wrap_def split: if_splits)
  then have n: "length p = ?n * 8" by presburger
  obtain A r where f: "fold (wrap_core enc kek ?n) (wrap_indices ?n) (AIV, p) = (A, r)" by fastforce
  have c: "c = put_le64 A @ r" using wrap_run [OF l f] assms(3) by simp
  have r: "length r = ?n * 8" "fold (unwrap_step dec kek ?n) (unwrap_indices ?n) (A, r) = (AIV, p)"
    using core_run [OF assms(1,2) n, of AIV] f by simp_all
  have "length c div 8 - 1 = ?n" "24 \<le> length c" "length c mod 8 = 0"
    using l n r(1) by (simp_all add: c le64.length_put)
  then show ?thesis using r(2) by (simp add: unwrap_def c get_le64_append le64.length_put)
qed

lemma wrap_unwrap:
  assumes "aes_ok enc dec" "length kek = 32" "unwrap dec kek c = Inr p"
  shows "wrap enc kek p = Inr c"
proof -
  let ?n = "length c div 8 - 1"
  have l: "24 \<le> length c" "length c mod 8 = 0" using assms(3) by (auto simp: unwrap_def split: if_splits)
  have f: "fold (unwrap_step dec kek ?n) (unwrap_indices ?n) (get_le64 c, drop 8 c) = (AIV, p)"
    using assms(3) by (auto simp: unwrap_def Let_def split: if_splits prod.splits)
  have "length (drop 8 c) = ?n * 8" using l by (simp add: diff_mult_distrib) presburger
  from core_run' [OF assms(1,2) this, of "get_le64 c"]
  have p: "length p = ?n * 8" "fold (wrap_core enc kek ?n) (wrap_indices ?n) (AIV, p) = (get_le64 c, drop 8 c)"
    using f by simp_all
  have "length p div 8 = ?n" "16 \<le> length p" "length p mod 8 = 0" using p(1) l(1) by simp_all
  then have "wrap enc kek p = Inr (put_le64 (get_le64 c) @ drop 8 c)" using wrap_run p(2) by simp
  moreover have "put_le64 (get_le64 c) = take 8 c"
    using put_get_le64 [of "take 8 c"] l(1) by (simp add: get_le64_def)
  ultimately show ?thesis by simp
qed

subsection \<open>The reference algorithm\<close>

lemma concat_at:
  assumes "\<forall>x\<in>set R. length x = 8" "i < length R"
  shows "take 8 (drop (i * 8) (concat R)) = R ! i"
    and "length s = 8 \<Longrightarrow> memcpy_at (concat R) (i * 8) s = concat (R[i := s])"
  using assms
  by (induction R arbitrary: i) (auto simp: memcpy_at_def nth_Cons add.commute split: nat.split)

lemma rfc3394_step_sim:
  assumes "aes_ok enc dec" "length kek = 32" "\<forall>x\<in>set R. length x = 8" "length R = n" "1 \<le> i" "i \<le> n"
    "wrap_core enc kek n (j, i) (A, concat R) = (A', r')" "rfc3394_step enc kek n (j, i) (put_le64 A, R) = (B', R')"
  shows "B' = put_le64 A' \<and> r' = concat R' \<and> (\<forall>x\<in>set R'. length x = 8) \<and> length R' = n"
proof -
  have i: "i - 1 < length R" using assms(4-6) by simp
  let ?b = "put_le64 A @ R ! (i - 1)"
  have "length ?b = 16" using assms(3) i by (simp add: le64.length_put)
  then obtain l h where e: "enc kek ?b = l @ h" "length l = 8" "length h = 8"
    using aes_ok_halves(1) [OF assms(1,2)] by blast
  have "A' = get_le64 l XOR bswap64 (of_nat (n * j + i))" "r' = concat (R[i - 1 := h])"
    using assms(7) e concat_at [OF assms(3) i] by (auto simp: wrap_core_def)
  moreover have "B' = map2 (XOR) l (be64 (of_nat (n * j + i)))" "R' = R[i - 1 := h]"
    using assms(8) e by (auto simp: rfc3394_step_def)
  ultimately show ?thesis
    using e assms(3,4) by (auto simp: put_le64_xor put_get_le64 put_bswap64 dest!: set_update_subset_insert [THEN subsetD])
qed

lemma rfc3394_run:
  assumes "aes_ok enc dec" "length kek = 32" "\<forall>x\<in>set R. length x = 8" "length R = n"
    "\<forall>(j, i)\<in>set xs. 1 \<le> i \<and> i \<le> n"
  shows "(let (A', r') = fold (wrap_core enc kek n) xs (A, concat R);
    (B', R') = fold (rfc3394_step enc kek n) xs (put_le64 A, R) in B' = put_le64 A' \<and> r' = concat R')"
  using assms(3-)
proof (induction xs arbitrary: A R)
  case (Cons x xs)
  obtain j i where x: "x = (j, i)" by fastforce
  obtain A' r' where c: "wrap_core enc kek n (j, i) (A, concat R) = (A', r')" by fastforce
  obtain B' R' where f: "rfc3394_step enc kek n (j, i) (put_le64 A, R) = (B', R')" by fastforce
  show ?case
    using rfc3394_step_sim [OF assms(1,2) Cons.prems(1,2) _ _ c f] Cons.IH [of R' A'] Cons.prems x c f by auto
qed simp

lemma semiblocks_step: "p \<noteq> [] \<Longrightarrow> semiblocks p = take 8 p # semiblocks (drop 8 p)"
  by (cases p) simp_all

lemma semiblocks_concat: "length p mod 8 = 0 \<Longrightarrow> concat (semiblocks p) = p \<and>
    (\<forall>x\<in>set (semiblocks p). length x = 8) \<and> length (semiblocks p) = length p div 8"
proof (induction "length p" arbitrary: p rule: less_induct)
  case less
  show ?case
  proof (cases "p = []")
    case False
    obtain k where "length p = 8 * k" using less.prems by (auto simp: mod_eq_0_iff_dvd)
    with False obtain m where m: "length p = 8 + m * 8" by (cases k) auto
    then have d: "length (drop 8 p) = m * 8" by simp
    then have "concat (semiblocks (drop 8 p)) = drop 8 p"
      "\<forall>x\<in>set (semiblocks (drop 8 p)). length x = 8" "length (semiblocks (drop 8 p)) = m"
      using less.hyps [of "drop 8 p"] m by simp_all
    then show ?thesis unfolding semiblocks_step [OF False] using m by simp
  qed simp
qed

subsection \<open>Properties\<close>

text \<open>
  C20. Unwrapping accepts exactly the wrapped keys: for a block cipher that is a permutation, a
  ciphertext unwraps to a key if and only if it is the wrapping of that key; everything else, every
  altered ciphertext that is not itself a wrapping included, is refused.
\<close>

theorem unwrap_iff_wrap:
  assumes "aes_ok enc dec" and "length kek = 32"
  shows "unwrap dec kek c = Inr p \<longleftrightarrow> wrap enc kek p = Inr c"
  using unwrap_wrap [OF assms] wrap_unwrap [OF assms] by blast

theorem unwrap_iff_wrap_witness:
  "aes_ok (\<lambda>k b. rev b) (\<lambda>k b. rev b) \<and>
   (unwrap (\<lambda>k b. rev b) (replicate 32 0) (replicate 24 0) = Inr (replicate 16 0) \<longleftrightarrow>
    wrap (\<lambda>k b. rev b) (replicate 32 0) (replicate 16 0) = Inr (replicate 24 0))"
proof -
  have a: "aes_ok (\<lambda>k b. rev b) (\<lambda>k b. rev b)" by (simp add: aes_ok_def)
  show ?thesis
    using a unwrap_iff_wrap [OF a, of "replicate 32 0" "replicate 24 0" "replicate 16 0"] by simp
qed

text \<open>
  C21. The implementation is RFC 3394: with its little-endian register and byte-swapped counter it
  computes, for every key it accepts, the index-based algorithm of the standard, and the result
  is eight bytes longer than the key.
\<close>

theorem wrap_is_rfc3394:
  assumes "aes_ok enc dec" and "length kek = 32" and "16 \<le> length p" and "length p mod 8 = 0"
  shows "wrap enc kek p = Inr (rfc3394_wrap enc kek (semiblocks p)) \<and>
    length (rfc3394_wrap enc kek (semiblocks p)) = length p + 8"
proof -
  let ?n = "length p div 8" and ?R = "semiblocks p"
  note sb = semiblocks_concat [OF assms(4)]
  obtain A r where f: "fold (wrap_core enc kek ?n) (wrap_indices ?n) (AIV, p) = (A, r)" by fastforce
  obtain B R' where g: "fold (rfc3394_step enc kek ?n) (wrap_indices ?n) (put_le64 AIV, ?R) = (B, R')" by fastforce
  have "B = put_le64 A" "r = concat R'"
    using rfc3394_run [OF assms(1,2), of ?R ?n "wrap_indices ?n" AIV] sb f g wrap_indices_bounds by auto
  moreover have "put_le64 AIV = replicate 8 0xA6" by code_simp
  ultimately have "rfc3394_wrap enc kek ?R = put_le64 A @ r"
    using sb g by (simp add: rfc3394_wrap_def wrap_indices_def)
  moreover have "length p = ?n * 8" using assms(4) by presburger
  ultimately show ?thesis
    using wrap_run [OF assms(3,4) f] core_run [OF assms(1,2), of p ?n AIV] f by (simp add: le64.length_put)
qed

theorem wrap_is_rfc3394_witness:
  "\<exists>c. wrap (\<lambda>k b. rev b) (replicate 32 0) (replicate 16 1) = Inr c \<and> length c = 24"
  using wrap_is_rfc3394 [of "\<lambda>k b. rev b" "\<lambda>k b. rev b" "replicate 32 0" "replicate 16 1"]
  by (simp add: aes_ok_def)

end
