(* ===== verification/P11KeyMgmt.thy ===== *)
theory P11KeyMgmt
  imports P11Crypto KeyWrap
begin

text \<open>
  Key management at the C interface: generation and rotation (pkcs11/p11\_keygen.cpp), wrapping, unwrapping
  and derivation (pkcs11/p11\_wrap.cpp).  Random bytes, the generation of key pairs and the AES-256 block
  functions are arguments; a generator may throw or deliver a null key.  Templates are lists of
  attributes; objects are written through \<open>v_put_object\<close>.
\<close>

datatype Curve = EccCurveType_P256 | EccCurveType_P384 | EccCurveType_P521

record 'pk KeyEnv =
  ke_p11 :: P11Env
  ke_evp :: "'pk Evp"
  ke_rng_bytes :: "nat \<Rightarrow> cpp_exn + bytes"
  ke_rsa_generate_key :: "int \<Rightarrow> cpp_exn + 'pk option"
  ke_ec_generate_key :: "Curve \<Rightarrow> cpp_exn + 'pk option"
  ke_aes_encrypt :: block_fun
  ke_aes_decrypt :: block_fun

subsection \<open>Generation\<close>

definition p11_random_bytes :: "(nat \<Rightarrow> cpp_exn + bytes) \<Rightarrow> nat \<Rightarrow> CK_RV \<times> bytes" where
  "p11_random_bytes rng_bytes n = (case rng_bytes n of Inl _ \<Rightarrow> (CKR_GENERAL_ERROR, []) | Inr bs \<Rightarrow> (CKR_OK, bs))"

fun label_from_template :: "CK_ATTRIBUTE list \<Rightarrow> string" where
  "label_from_template [] = []"
| "label_from_template (a # t) =
     (if atype a = CKA_LABEL \<and> pValue a \<noteq> None \<and> ulValueLen a > 0
      then string_of_bytes (read_mem (pValue a) (ulValueLen a))
      else label_from_template t)"

definition has_label :: "string \<Rightarrow> HsmObject \<Rightarrow> bool" where
  "has_label label ob =
     (if type_m ob = DATA then False
      else case findAttribute ob CKA_LABEL of
        None \<Rightarrow> False
      | Some v \<Rightarrow> v \<noteq> [] \<and> string_of_bytes v = label)"

definition token_label_of :: "P11 \<Rightarrow> CK_SESSION_HANDLE \<Rightarrow> string" where
  "token_label_of st h = (case p11_get_token_for_session st h of None \<Rightarrow> ''unknown'' | Some t \<Rightarrow> v_label t)"

definition publish_rotation_event ::
  "P11Env \<Rightarrow> P11 \<Rightarrow> Session \<Rightarrow> string \<Rightarrow> CK_OBJECT_HANDLE list \<Rightarrow> P11" where
  "publish_rotation_event env st s label newHandles =
     (if label = [] then st
      else case v_find_object_if (objectStore_m s) (has_label label) of
        (_, None) \<Rightarrow> st
      | (oldHandle, Some _) \<Rightarrow>
          if oldHandle \<in> set newHandles then st
          else p11_publish_event env st KEY_ROTATED WARNING (int_of_slot (slotID_m s)) (token_label_of st (handle_m s)) label
            (''Key rotation: label '' @ [CHR 0x27] @ label @ [CHR 0x27] @ '' replaced handle '' @ to_string (unat oldHandle))
            (''{\"old_handle\":'' @ to_string (unat oldHandle) @ '',\"new_handle\":'' @ to_string (unat (last newHandles)) @
             '',\"label\":\"'' @ label @ ''\"}'')
            None ''C_GenerateKeyPair/C_GenerateKey'')"

text \<open>\<open>std::string::find\<close> succeeding.\<close>

fun contains :: "string \<Rightarrow> string \<Rightarrow> bool" where
  "contains pat [] = (pat = [])"
| "contains pat (c # s) = (take (length pat) (c # s) = pat \<or> contains pat s)"

definition curve_from_params :: "HsmObject \<Rightarrow> Curve" where
  "curve_from_params pub = (case nonempty_attr pub CKA_EC_PARAMS of
     None \<Rightarrow> EccCurveType_P256
   | Some v \<Rightarrow>
       let name = string_of_bytes v in
       if contains ''P-384'' name \<or> contains ''secp384r1'' name then EccCurveType_P384
       else if contains ''P-521'' name \<or> contains ''secp521r1'' name then EccCurveType_P521
       else EccCurveType_P256)"

definition rsa_bits_from_template :: "HsmObject \<Rightarrow> int" where
  "rsa_bits_from_template priv = (case findAttribute priv CKA_MODULUS_BITS of
     Some v \<Rightarrow>
       if length v = 8 \<and> get_le64 v \<ge> 2048 then sint (ucast (get_le64 v) :: 32 word) else 2048
   | None \<Rightarrow> 2048)"

definition key_length :: "CK_ATTRIBUTE list \<Rightarrow> CK_ULONG" where
  "key_length t = fold (\<lambda>a keyLen.
     if atype a = CKA_VALUE_LEN \<and> ulValueLen a = 8
     then (case pValue a of None \<Rightarrow> keyLen | Some v \<Rightarrow> get_le64 v)
     else keyLen) t 32"

text \<open>
  The creation of one object from a template, followed by \<open>store\<close> when the template was accepted; the
  object is destroyed on a refusal.  The session is the one the store belongs to.
\<close>

definition create_with_template ::
  "ObjectStore \<Rightarrow> HsmObject \<Rightarrow> CK_ATTRIBUTE list \<Rightarrow> (HsmObject \<Rightarrow> HsmObject) \<Rightarrow> CK_RV \<times> CK_OBJECT_HANDLE \<times> ObjectStore" where
  "create_with_template os obj t store =
     (case v_create_object os obj of
        (handle, os1) \<Rightarrow> (case p11_apply_template obj t of
          (rv, obj1) \<Rightarrow>
            if rv \<noteq> CKR_OK then (rv, handle, snd (v_destroy_object (v_put_object os1 handle obj1) handle))
            else (CKR_OK, handle, v_put_object os1 handle (store obj1))))"

definition C_GenerateKey ::
  "'pk KeyEnv \<Rightarrow> P11 \<Rightarrow> CK_SESSION_HANDLE \<Rightarrow> CK_MECHANISM option \<Rightarrow> CK_ATTRIBUTE list \<Rightarrow> bool \<Rightarrow>
   CK_RV \<times> CK_OBJECT_HANDLE option \<times> P11" where
  "C_GenerateKey ke st hSession pMechanism pTemplate has_phKey =
     (if \<not> p11_is_initialized st then (CKR_CRYPTOKI_NOT_INITIALIZED, None, st)
      else case pMechanism of
        None \<Rightarrow> (CKR_ARGUMENTS_BAD, None, st)
      | Some m \<Rightarrow>
          if \<not> has_phKey then (CKR_ARGUMENTS_BAD, None, st)
          else if mechanism m \<noteq> CKM_AES_KEY_GEN then (CKR_MECHANISM_INVALID, None, st)
          else case p11_get_session st hSession of
            None \<Rightarrow> (CKR_SESSION_HANDLE_INVALID, None, st)
          | Some s \<Rightarrow>
              let keyLen = key_length pTemplate in
              if keyLen \<noteq> 16 \<and> keyLen \<noteq> 24 \<and> keyLen \<noteq> 32 then (CKR_KEY_SIZE_RANGE, None, st)
              else (case p11_random_bytes (ke_rng_bytes ke) (unat keyLen) of
                  (rv, raw) \<Rightarrow>
                    if rv \<noteq> CKR_OK then (rv, None, st)
                    else (case create_with_template (objectStore_m s) (new_HsmObject SECRET_KEY True True False False)
                          pTemplate (\<lambda>ob. p11_store_secret ob raw) of
                        (rv', handle, os) \<Rightarrow>
                          let s' = s\<lparr>objectStore_m := os\<rparr>; st1 = p11_put_session st hSession s' in
                          if rv' \<noteq> CKR_OK then (rv', None, st1)
                          else (CKR_OK, Some handle,
                            publish_rotation_event (ke_p11 ke) st1 s' (label_from_template pTemplate) [handle]))))"

text \<open>The pair a mechanism asks for: an exception, no such mechanism, or a key and whether it is RSA.\<close>

definition generate_pair ::
  "'pk KeyEnv \<Rightarrow> CK_MECHANISM_TYPE \<Rightarrow> CK_ATTRIBUTE list \<Rightarrow> CK_ATTRIBUTE list \<Rightarrow> cpp_exn + (bool \<times> 'pk option) option" where
  "generate_pair ke mech pubT privT =
     (if mech = CKM_RSA_PKCS_KEY_PAIR_GEN \<or> mech = CKM_RSA_X_509 then
        let tmpPriv = snd (p11_apply_template (new_HsmObject PRIVATE_KEY True True False True) privT) in
        map_sum (\<lambda>e. e) (\<lambda>k. Some (True, k)) (ke_rsa_generate_key ke (rsa_bits_from_template tmpPriv))
      else if mech = CKM_EC_KEY_PAIR_GEN \<or> mech = CKM_ECDSA_KEY_PAIR_GEN then
        let tmpPub = snd (p11_apply_template (new_HsmObject PUBLIC_KEY False True False False) pubT) in
        map_sum (\<lambda>e. e) (\<lambda>k. Some (False, k)) (ke_ec_generate_key ke (curve_from_params tmpPub))
      else Inr None)"

text \<open>The template and the key material of one half of the pair; nothing is done after an error.\<close>

definition fill_half ::
  "'pk KeyEnv \<Rightarrow> CK_RV \<Rightarrow> HsmObject \<Rightarrow> CK_ATTRIBUTE list \<Rightarrow> bool \<Rightarrow> 'pk option \<Rightarrow> bool \<Rightarrow> CK_RV \<times> HsmObject" where
  "fill_half ke rv ob t isRsa kp isPrivate =
     (if rv \<noteq> CKR_OK then (rv, ob)
      else case p11_apply_template ob t of
        (rv1, ob1) \<Rightarrow>
          if rv1 \<noteq> CKR_OK then (rv1, ob1)
          else if isRsa then p11_store_key_rsa (ke_evp ke) ob1 kp isPrivate
          else p11_store_key_ec (ke_evp ke) ob1 kp isPrivate)"

definition p11_generate_and_store_keypair ::
  "'pk KeyEnv \<Rightarrow> P11 \<Rightarrow> CK_SESSION_HANDLE \<Rightarrow> CK_MECHANISM_TYPE \<Rightarrow> CK_ATTRIBUTE list \<Rightarrow> CK_ATTRIBUTE list \<Rightarrow> CK_OBJECT_HANDLE \<Rightarrow>
   CK_RV \<times> (CK_OBJECT_HANDLE \<times> CK_OBJECT_HANDLE) option \<times> P11" where
  "p11_generate_and_store_keypair ke st hSession mech pubT privT hOldPrivate = (case p11_get_session st hSession of
     None \<Rightarrow> (CKR_SESSION_HANDLE_INVALID, None, st)
   | Some s \<Rightarrow> (case generate_pair ke mech pubT privT of
       Inl e \<Rightarrow> (VHSM_C_CATCH e, None, st)
     | Inr None \<Rightarrow> (CKR_MECHANISM_INVALID, None, st)
     | Inr (Some (isRsa, None)) \<Rightarrow> (CKR_GENERAL_ERROR, None, st)
     | Inr (Some (isRsa, Some key)) \<Rightarrow>
         let pub = new_HsmObject PUBLIC_KEY False True False False;
             (hPub, os1) = v_create_object (objectStore_m s) pub;
             (rv1, pub1) = fill_half ke CKR_OK pub pubT isRsa (Some key) False;
             os2 = v_put_object os1 hPub pub1;
             priv = new_HsmObject PRIVATE_KEY True True False True;
             (hPriv, os3) = v_create_object os2 priv;
             (rv2, priv1) = fill_half ke rv1 priv privT isRsa (Some key) True;
             os4 = v_put_object os3 hPriv priv1 in
         if rv2 \<noteq> CKR_OK then
           (rv2, None, put_store st hSession s (snd (v_destroy_object (snd (v_destroy_object os4 hPub)) hPriv)))
         else
           let os5 = (if hOldPrivate \<noteq> CK_INVALID_HANDLE then
                   (case v_get_object os4 hOldPrivate of
                      None \<Rightarrow> os4
                    | Some old \<Rightarrow> v_put_object os4 hOldPrivate (setKeyState old Rotating))
                 else os4);
               s' = s\<lparr>objectStore_m := os5\<rparr>;
               label = label_from_template privT;
               rotationLabel = (if label = [] then label_from_template pubT else label) in
           (CKR_OK, Some (hPub, hPriv),
            publish_rotation_event (ke_p11 ke) (p11_put_session st hSession s') s' rotationLabel [hPub, hPriv])))"

definition C_GenerateKeyPair ::
  "'pk KeyEnv \<Rightarrow> P11 \<Rightarrow> CK_SESSION_HANDLE \<Rightarrow> CK_MECHANISM option \<Rightarrow> CK_ATTRIBUTE list \<Rightarrow> CK_ATTRIBUTE list \<Rightarrow> bool \<Rightarrow> bool \<Rightarrow>
   CK_RV \<times> (CK_OBJECT_HANDLE \<times> CK_OBJECT_HANDLE) option \<times> P11" where
  "C_GenerateKeyPair ke st hSession pMechanism pubT privT has_phPublicKey has_phPrivateKey =
     (if \<not> p11_is_initialized st then (CKR_CRYPTOKI_NOT_INITIALIZED, None, st)
      else case pMechanism of
        None \<Rightarrow> (CKR_ARGUMENTS_BAD, None, st)
      | Some m \<Rightarrow>
          if \<not> has_phPublicKey \<or> \<not> has_phPrivateKey then (CKR_ARGUMENTS_BAD, None, st)
          else p11_generate_and_store_keypair ke st hSession (mechanism m) pubT privT CK_INVALID_HANDLE)"

definition ensure_attr :: "HsmObject \<Rightarrow> CK_ATTRIBUTE_TYPE \<Rightarrow> CK_ATTRIBUTE list \<Rightarrow> CK_ATTRIBUTE list" where
  "ensure_attr old t dst =
     (if t \<in> atype ` set dst then dst
      else case nonempty_attr old t of
        None \<Rightarrow> dst
      | Some v \<Rightarrow> dst @ [\<lparr>atype = t, pValue = Some v, ulValueLen = of_nat (length v)\<rparr>])"

definition p11_rotate_keypair ::
  "'pk KeyEnv \<Rightarrow> P11 \<Rightarrow> CK_SESSION_HANDLE \<Rightarrow> CK_OBJECT_HANDLE \<Rightarrow> CK_ATTRIBUTE list \<Rightarrow> CK_ATTRIBUTE list \<Rightarrow> bool \<Rightarrow> bool \<Rightarrow>
   CK_RV \<times> (CK_OBJECT_HANDLE \<times> CK_OBJECT_HANDLE) option \<times> P11" where
  "p11_rotate_keypair ke st hSession hOldPrivate pubT privT has_phPublicKey has_phPrivateKey =
     (if \<not> p11_is_initialized st then (CKR_CRYPTOKI_NOT_INITIALIZED, None, st)
      else if \<not> has_phPublicKey \<or> \<not> has_phPrivateKey then (CKR_ARGUMENTS_BAD, None, st)
      else case p11_get_session st hSession of
        None \<Rightarrow> (CKR_SESSION_HANDLE_INVALID, None, st)
      | Some _ \<Rightarrow> (case p11_get_object st hSession hOldPrivate of
          None \<Rightarrow> (CKR_OBJECT_HANDLE_INVALID, None, st)
        | Some old \<Rightarrow>
            if type_m old \<noteq> PRIVATE_KEY then (CKR_KEY_HANDLE_INVALID, None, st)
            else
              let mech = (case findAttribute old CKA_KEY_TYPE of
                    Some kt \<Rightarrow> if length kt = 8 \<and> get_le64 kt = CKK_RSA then CKM_RSA_PKCS_KEY_PAIR_GEN
                      else CKM_EC_KEY_PAIR_GEN
                  | None \<Rightarrow> CKM_EC_KEY_PAIR_GEN);
                  pubTmpl = fold (ensure_attr old) [CKA_LABEL, CKA_ID, CKA_EC_PARAMS] pubT;
                  privTmpl = fold (ensure_attr old) [CKA_LABEL, CKA_ID, CKA_MODULUS_BITS] privT in
              p11_generate_and_store_keypair ke st hSession mech pubTmpl privTmpl hOldPrivate))"

subsection \<open>Wrapping\<close>

definition mech_label :: "CK_MECHANISM_TYPE \<Rightarrow> string" where
  "mech_label m =
     (if m = CKM_AES_KEY_WRAP then ''CKM_AES_KEY_WRAP''
      else if m = CKM_RSA_PKCS then ''CKM_RSA_PKCS''
      else if m = CKM_RSA_PKCS_OAEP then ''CKM_RSA_PKCS_OAEP''
      else if m = CKM_ECDH1_DERIVE then ''CKM_ECDH1_DERIVE''
      else ''CKM_VENDOR_DEFINED'')"

definition raw_key_bytes :: "HsmObject \<Rightarrow> bytes option" where
  "raw_key_bytes ob =
     (case nonempty_attr ob CKA_VALUE of Some v \<Rightarrow> Some v
      | None \<Rightarrow> (case nonempty_attr ob CKA_VHSM_RSA_PRIV of Some v \<Rightarrow> Some v
      | None \<Rightarrow> (case nonempty_attr ob CKA_VHSM_EC_PRIV of Some v \<Rightarrow> Some v
      | None \<Rightarrow> (case nonempty_attr ob CKA_VHSM_RSA_PUB of Some v \<Rightarrow> Some v
      | None \<Rightarrow> nonempty_attr ob CKA_VHSM_EC_PUB))))"

text \<open>The key an unwrapped byte string is: an RSA private key, an EC private key, or neither.\<close>

definition probe_private :: "'pk Evp \<Rightarrow> bytes \<Rightarrow> 'pk option" where
  "probe_private evp raw =
     (case p11_build_key_from_attrs evp
         (set_attr_vec (new_HsmObject PRIVATE_KEY True True False True) CKA_VHSM_RSA_PRIV raw) of
        Some pk \<Rightarrow> Some pk
      | None \<Rightarrow> p11_build_key_from_attrs evp
          (set_attr_vec (new_HsmObject PRIVATE_KEY True True False True) CKA_VHSM_EC_PRIV raw))"

text \<open>The result of \<open>p11_store_key\<close> is not looked at.\<close>

definition create_from_raw ::
  "'pk Evp \<Rightarrow> P11 \<Rightarrow> CK_SESSION_HANDLE \<Rightarrow> bytes \<Rightarrow> CK_ATTRIBUTE list \<Rightarrow> CK_RV \<times> CK_OBJECT_HANDLE option \<times> P11" where
  "create_from_raw evp st hSession raw pTemplate = (case p11_get_session st hSession of
     None \<Rightarrow> (CKR_SESSION_HANDLE_INVALID, None, st)
   | Some s \<Rightarrow>
       let finish = (\<lambda>(rv, h, os). (rv, if rv = CKR_OK then Some h else None, put_store st hSession s os)) in
       case probe_private evp raw of
         Some pk \<Rightarrow> finish (create_with_template (objectStore_m s) (new_HsmObject PRIVATE_KEY True True False True)
           pTemplate (\<lambda>ob. snd (p11_store_key evp ob pk True)))
       | None \<Rightarrow>
           if length raw = 16 \<or> length raw = 24 \<or> length raw = 32
           then finish (create_with_template (objectStore_m s) (new_HsmObject SECRET_KEY True True False False)
             pTemplate (\<lambda>ob. p11_store_secret ob raw))
           else (CKR_WRAPPED_KEY_INVALID, None, st))"

definition key_info :: "HsmObject \<Rightarrow> CK_OBJECT_HANDLE \<Rightarrow> string" where
  "key_info ob h =
     (let label = (case findAttribute ob CKA_LABEL of None \<Rightarrow> [] | Some v \<Rightarrow> string_of_bytes v) in
      if label = [] then to_string (unat h) else label)"

definition session_slot :: "P11 \<Rightarrow> CK_SESSION_HANDLE \<Rightarrow> int" where
  "session_slot st h = (case p11_get_session st h of None \<Rightarrow> 0 | Some s \<Rightarrow> int_of_slot (slotID_m s))"

definition wrap_padding :: "CK_MECHANISM_TYPE \<Rightarrow> int \<times> string" where
  "wrap_padding mech = (if mech = CKM_RSA_PKCS_OAEP then (RSA_PKCS1_OAEP_PADDING, ''SHA-256'') else (RSA_PKCS1_PADDING, []))"

text \<open>The wrapped bytes of a key under the wrapping object, by mechanism.\<close>

definition wrap_bytes :: "'pk KeyEnv \<Rightarrow> CK_MECHANISM_TYPE \<Rightarrow> HsmObject \<Rightarrow> bytes \<Rightarrow> CK_RV \<times> bytes" where
  "wrap_bytes ke mech wkey raw =
     (if mech = CKM_AES_KEY_WRAP then
        (case findAttribute wkey CKA_VALUE of
           None \<Rightarrow> (CKR_KEY_SIZE_RANGE, [])
         | Some kek \<Rightarrow>
             if length kek \<noteq> 32 then (CKR_KEY_SIZE_RANGE, [])
             else (case new_KeyWrap kek of
                 Inl _ \<Rightarrow> (CKR_WRAPPED_KEY_INVALID, [])
               | Inr kw \<Rightarrow> (case wrap (ke_aes_encrypt ke) kw raw of
                   Inl _ \<Rightarrow> (CKR_WRAPPED_KEY_INVALID, [])
                 | Inr out \<Rightarrow> (CKR_OK, out))))
      else if mech = CKM_RSA_PKCS \<or> mech = CKM_RSA_PKCS_OAEP then
        (case p11_evp_from_object (ke_evp ke) wkey of
           None \<Rightarrow> (CKR_WRAPPING_KEY_HANDLE_INVALID, [])
         | Some wk \<Rightarrow> (case wrap_padding mech of
             (padding, md) \<Rightarrow> p11_rsa_encrypt (ke_evp ke) wk raw padding None md))
      else (CKR_MECHANISM_INVALID, []))"

definition unwrap_bytes :: "'pk KeyEnv \<Rightarrow> CK_MECHANISM_TYPE \<Rightarrow> HsmObject \<Rightarrow> bytes \<Rightarrow> CK_RV \<times> bytes" where
  "unwrap_bytes ke mech ukey wrapped =
     (if mech = CKM_AES_KEY_WRAP then
        (case findAttribute ukey CKA_VALUE of
           None \<Rightarrow> (CKR_KEY_SIZE_RANGE, [])
         | Some kek \<Rightarrow>
             if length kek \<noteq> 32 then (CKR_KEY_SIZE_RANGE, [])
             else (case new_KeyWrap kek of
                 Inl _ \<Rightarrow> (CKR_WRAPPED_KEY_INVALID, [])
               | Inr kw \<Rightarrow> (case unwrap (ke_aes_decrypt ke) kw wrapped of
                   Inl _ \<Rightarrow> (CKR_WRAPPED_KEY_INVALID, [])
                 | Inr raw \<Rightarrow> (CKR_OK, raw))))
      else if mech = CKM_RSA_PKCS \<or> mech = CKM_RSA_PKCS_OAEP then
        (case p11_evp_from_object (ke_evp ke) ukey of
           None \<Rightarrow> (CKR_UNWRAPPING_KEY_HANDLE_INVALID, [])
         | Some uk \<Rightarrow> (case wrap_padding mech of
             (padding, md) \<Rightarrow> p11_rsa_decrypt (ke_evp ke) uk wrapped padding None md))
      else (CKR_MECHANISM_INVALID, []))"

definition C_WrapKey ::
  "'pk KeyEnv \<Rightarrow> P11 \<Rightarrow> CK_SESSION_HANDLE \<Rightarrow> CK_MECHANISM option \<Rightarrow> CK_OBJECT_HANDLE \<Rightarrow> CK_OBJECT_HANDLE \<Rightarrow> bool \<Rightarrow>
   CK_ULONG option \<Rightarrow> out_result" where
  "C_WrapKey ke st hSession pMechanism hWrappingKey hKey has_pWrappedKey pulWrappedKeyLen =
     (if \<not> p11_is_initialized st then (CKR_CRYPTOKI_NOT_INITIALIZED, None, None, st)
      else case (pMechanism, pulWrappedKeyLen) of
        (Some m, Some len) \<Rightarrow>
          (case p11_get_session st hSession of
             None \<Rightarrow> (CKR_SESSION_HANDLE_INVALID, None, None, st)
           | Some _ \<Rightarrow>
               (case (p11_get_object st hSession hWrappingKey, p11_get_object st hSession hKey) of
                  (Some wkey, Some tkey) \<Rightarrow>
                    let wst = p11_key_state_error (getKeyState wkey) False in
                    if wst \<noteq> CKR_OK then (wst, None, None, st)
                    else if \<not> extractable_m tkey then (CKR_KEY_UNEXTRACTABLE, None, None, st)
                    else (case raw_key_bytes tkey of
                        None \<Rightarrow> (CKR_KEY_HANDLE_INVALID, None, None, st)
                      | Some raw \<Rightarrow> (case wrap_bytes ke (mechanism m) wkey raw of
                          (rv, out) \<Rightarrow>
                            if rv \<noteq> CKR_OK then (rv, None, None, st)
                            else if \<not> has_pWrappedKey then (CKR_OK, None, Some (of_nat (length out)), st)
                            else if unat len < length out then
                              (CKR_BUFFER_TOO_SMALL, None, Some (of_nat (length out)), st)
                            else (CKR_OK, Some out, Some (of_nat (length out)),
                              p11_publish_event (ke_p11 ke) st WRAP_KEY_COMPLETED INFO (session_slot st hSession)
                                (token_label_of st hSession) (key_info wkey hWrappingKey)
                                (''C_WrapKey completed using key '' @ key_info wkey hWrappingKey)
                                (''{\"mechanism\":\"'' @ mech_label (mechanism m) @ ''\",\"wrapped_key_len\":'' @
                                 to_string (length out) @ ''}'') None ''C_WrapKey'')))
                | _ \<Rightarrow> (CKR_KEY_HANDLE_INVALID, None, None, st)))
      | _ \<Rightarrow> (CKR_ARGUMENTS_BAD, None, None, st))"

definition C_UnwrapKey ::
  "'pk KeyEnv \<Rightarrow> P11 \<Rightarrow> CK_SESSION_HANDLE \<Rightarrow> CK_MECHANISM option \<Rightarrow> CK_OBJECT_HANDLE \<Rightarrow> bytes option \<Rightarrow> CK_ULONG \<Rightarrow>
   CK_ATTRIBUTE list \<Rightarrow> bool \<Rightarrow> CK_RV \<times> CK_OBJECT_HANDLE option \<times> P11" where
  "C_UnwrapKey ke st hSession pMechanism hUnwrappingKey pWrappedKey ulWrappedKeyLen pTemplate has_phKey =
     (if \<not> p11_is_initialized st then (CKR_CRYPTOKI_NOT_INITIALIZED, None, st)
      else case pMechanism of
        None \<Rightarrow> (CKR_ARGUMENTS_BAD, None, st)
      | Some m \<Rightarrow>
          if pWrappedKey = None \<or> \<not> has_phKey then (CKR_ARGUMENTS_BAD, None, st)
          else case p11_get_session st hSession of
            None \<Rightarrow> (CKR_SESSION_HANDLE_INVALID, None, st)
          | Some _ \<Rightarrow> (case p11_get_object st hSession hUnwrappingKey of
              None \<Rightarrow> (CKR_UNWRAPPING_KEY_HANDLE_INVALID, None, st)
            | Some ukey \<Rightarrow>
                let ust = p11_key_state_error (getKeyState ukey) False in
                if ust \<noteq> CKR_OK then (ust, None, st)
                else (case unwrap_bytes ke (mechanism m) ukey (read_mem pWrappedKey ulWrappedKeyLen) of
                    (rv, raw) \<Rightarrow>
                      if rv \<noteq> CKR_OK then (rv, None, st)
                      else (case create_from_raw (ke_evp ke) st hSession raw pTemplate of
                          (crv, Some hKey, st') \<Rightarrow>
                            (crv, Some hKey, p11_publish_event (ke_p11 ke) st' UNWRAP_KEY_COMPLETED INFO
                              (session_slot st' hSession) (token_label_of st' hSession) (key_info ukey hUnwrappingKey)
                              (''C_UnwrapKey completed using key '' @ key_info ukey hUnwrappingKey)
                              (''{\"mechanism\":\"'' @ mech_label (mechanism m) @ ''\",\"new_key_handle\":'' @
                               to_string (unat hKey) @ ''}'') None ''C_UnwrapKey'')
                        | (crv, None, st') \<Rightarrow> (crv, None, st')))))"

subsection \<open>Derivation\<close>

definition C_DeriveKey ::
  "'pk KeyEnv \<Rightarrow> P11 \<Rightarrow> CK_SESSION_HANDLE \<Rightarrow> CK_MECHANISM option \<Rightarrow> CK_OBJECT_HANDLE \<Rightarrow> CK_ATTRIBUTE list \<Rightarrow> bool \<Rightarrow>
   CK_RV \<times> CK_OBJECT_HANDLE option \<times> P11" where
  "C_DeriveKey ke st hSession pMechanism hBaseKey pTemplate has_phKey =
     (if \<not> p11_is_initialized st then (CKR_CRYPTOKI_NOT_INITIALIZED, None, st)
      else case pMechanism of
        None \<Rightarrow> (CKR_ARGUMENTS_BAD, None, st)
      | Some m \<Rightarrow>
          if \<not> has_phKey then (CKR_ARGUMENTS_BAD, None, st)
          else if mechanism m \<noteq> CKM_ECDH1_DERIVE then (CKR_MECHANISM_INVALID, None, st)
          else case p11_get_session st hSession of
            None \<Rightarrow> (CKR_SESSION_HANDLE_INVALID, None, st)
          | Some s \<Rightarrow> (case p11_get_object st hSession hBaseKey of
              None \<Rightarrow> (CKR_KEY_HANDLE_INVALID, None, st)
            | Some bkey \<Rightarrow> (case p11_evp_from_object (ke_evp ke) bkey of
                None \<Rightarrow> (CKR_KEY_HANDLE_INVALID, None, st)
              | Some priv \<Rightarrow> (case pParameter m of
                  None \<Rightarrow> (CKR_MECHANISM_PARAM_INVALID, None, st)
                | Some prm \<Rightarrow>
                    let params = as_ecdh prm in
                    if ulParameterLen m < sizeof_CK_ECDH1_DERIVE_PARAMS \<or> pPublicData params = None \<or> ulPublicDataLen params = 0
                    then (CKR_MECHANISM_PARAM_INVALID, None, st)
                    else (case d2i_PUBKEY (ke_evp ke) (read_mem (pPublicData params) (ulPublicDataLen params)) of
                        None \<Rightarrow> (CKR_MECHANISM_PARAM_INVALID, None, st)
                      | Some peer \<Rightarrow>
                          let secret = p11_ecdh_derive (ke_evp ke) priv peer in
                          if secret = [] then (CKR_GENERAL_ERROR, None, st)
                          else (case create_with_template (objectStore_m s) (new_HsmObject SECRET_KEY True True False False)
                                pTemplate (\<lambda>ob. p11_store_secret ob secret) of
                              (rv, h, os) \<Rightarrow>
                                let st1 = put_store st hSession s os in
                                if rv \<noteq> CKR_OK then (rv, None, st1)
                                else (CKR_OK, Some h,
                                  p11_publish_event (ke_p11 ke) st1 KEY_ROTATED INFO (int_of_slot (slotID_m s))
                                    (token_label_of st1 hSession) (to_string (unat hBaseKey))
                                    (''C_DeriveKey (ECDH1) completed from base key '' @ to_string (unat hBaseKey))
                                    (''{\"mechanism\":\"CKM_ECDH1_DERIVE\",\"new_key_handle\":'' @ to_string (unat h) @ ''}'')
                                    None ''C_DeriveKey'')))))))"

subsection \<open>Specification notions\<close>

definition sample_ke :: "nat KeyEnv" where
  "sample_ke = \<lparr>ke_p11 = \<lparr>env_now_ms = 10, env_instance = ''i''\<rparr>, ke_evp = sample_evp, ke_rng_bytes = (\<lambda>n. Inr (replicate n 3)),
     ke_rsa_generate_key = (\<lambda>_. Inr (Some 6)), ke_ec_generate_key = (\<lambda>_. Inr (Some 408)),
     ke_aes_encrypt = (\<lambda>k b. rev b), ke_aes_decrypt = (\<lambda>k b. rev b)\<rparr>"

definition sample_kek :: HsmObject where
  "sample_kek = set_attr_vec (new_HsmObject SECRET_KEY True False False False) CKA_VALUE (replicate 32 1)"

definition sample_labelled :: HsmObject where
  "sample_labelled = set_attr_vec (set_attr_vec (new_HsmObject PRIVATE_KEY True False False True) CKA_VHSM_EC_PRIV [1]) CKA_LABEL [0x6B]"

definition sample_store :: ObjectStore where
  "sample_store = snd (v_create_object (snd (v_create_object (snd (v_create_object new_ObjectStore sample_kek)) sample_secret)) sample_labelled)"

definition sample_keys :: P11 where
  "sample_keys = (initial_P11 (\<lambda>_. None) empty_db)\<lparr>g_initialized := True,
     g_sessionManager := \<lparr>v_sessions = [(new_Session 1 0 0 0 0)\<lparr>objectStore_m := sample_store\<rparr>], v_next_session_id = 2\<rparr>\<rparr>"

text \<open>The same store with the first two objects destroyed, and a session on it.\<close>

definition sample_rot_store :: ObjectStore where
  "sample_rot_store = snd (v_destroy_object (snd (v_destroy_object sample_store (v_compose_handle 0 1))) (v_compose_handle 1 1))"

definition sample_rot_keys :: P11 where
  "sample_rot_keys = (initial_P11 (\<lambda>_. None) empty_db)\<lparr>g_initialized := True,
     g_sessionManager := \<lparr>v_sessions = [(new_Session 1 0 0 0 0)\<lparr>objectStore_m := sample_rot_store\<rparr>], v_next_session_id = 2\<rparr>\<rparr>"

definition sample_wrap_ke :: "nat KeyEnv" where
  "sample_wrap_ke = sample_ke\<lparr>ke_evp := sample_evp\<lparr>import_ec_private := (\<lambda>_. None)\<rparr>\<rparr>"

lemma put_store_session:
  assumes "p11_get_session st h = Some s"
  shows "p11_get_session (put_store st h s ost) g = (if g = h then Some (s\<lparr>objectStore_m := ost\<rparr>) else p11_get_session st g)"
  using p11_get_put_session [OF assms, of "s\<lparr>objectStore_m := ost\<rparr>"] p11_session_handle [OF assms] by (simp add: put_store_def)

lemma put_store_object: "p11_get_session st h = Some s \<Longrightarrow> p11_get_object (put_store st h s ost) h g = v_get_object ost g"
  by (simp add: p11_get_object_def put_store_session)

lemma publish_event_session [simp]:
  "p11_get_session (p11_publish_event env st ty sev sl tkl k su de ul au) h = p11_get_session st h"
  "p11_get_object (p11_publish_event env st ty sev sl tkl k su de ul au) h g = p11_get_object st h g"
  "p11_is_initialized (p11_publish_event env st ty sev sl tkl k su de ul au) = p11_is_initialized st"
  by (simp_all add: p11_publish_event_def p11_get_object_def p11_is_initialized_def p11_get_session_def Let_def
      split: option.splits)

lemma create_with_template_OK:
  assumes "ObjectStore.store_inv ost" "store_room ost" "create_with_template ost obj t f = (CKR_OK, h, ost')"
  shows "v_get_object ost h = None \<and> (\<exists>obj1. p11_apply_template obj t = (CKR_OK, obj1) \<and>
    v_get_object ost' = (v_get_object ost)(h \<mapsto> f obj1))"
proof -
  obtain h' os1 where c: "v_create_object ost obj = (h', os1)" by fastforce
  obtain rv obj1 where a: "p11_apply_template obj t = (rv, obj1)" by fastforce
  have h: "h' = h" "rv = CKR_OK" "ost' = v_put_object os1 h (f obj1)"
    using assms(3) c a by (auto simp: create_with_template_def split: if_splits)
  have "v_get_object ost h = None" "v_get_object os1 = (v_get_object ost)(h \<mapsto> obj)"
    using create_get [OF assms(1,2) c] h by simp_all
  then show ?thesis using a h put_get [of os1 h obj "f obj1"] by simp
qed

lemma create_with_empty_template:
  "\<exists>h ost'. create_with_template ost obj [] f = (CKR_OK, h, ost')"
  by (simp add: create_with_template_def split: prod.splits)

lemma wrap_total:
  assumes "aes_ok enc dec" "length kek = 32" "16 \<le> length p" "length p mod 8 = 0"
  shows "\<exists>c. wrap enc kek p = Inr c \<and> length c = length p + 8"
proof -
  obtain A r where f: "fold (wrap_core enc kek (length p div 8)) (wrap_indices (length p div 8)) (AIV, p) = (A, r)" by fastforce
  moreover have "length p = length p div 8 * 8" using assms(4) by presburger
  ultimately show ?thesis
    using wrap_run [OF assms(3,4) f] core_run [OF assms(1,2), of p "length p div 8" AIV] by (simp add: le64.length_put)
qed

lemma wrap_bytes_aes:
  assumes "wrap_bytes ke CKM_AES_KEY_WRAP wkey raw = (CKR_OK, out)"
  shows "\<exists>kek. findAttribute wkey CKA_VALUE = Some kek \<and> length kek = 32 \<and> wrap (ke_aes_encrypt ke) kek raw = Inr out"
  using assms by (auto simp: wrap_bytes_def new_KeyWrap_def split: option.splits if_splits sum.splits)

lemma C_WrapKey_OK:
  assumes "C_WrapKey ke st h (Some m) hw hk True (Some len) = (CKR_OK, Some out, l, st1)"
  shows "\<exists>wkey tkey raw. p11_is_initialized st \<and> p11_get_object st h hw = Some wkey \<and> p11_get_object st h hk = Some tkey \<and>
    p11_key_state_error (getKeyState wkey) False = CKR_OK \<and> extractable_m tkey \<and> raw_key_bytes tkey = Some raw \<and>
    wrap_bytes ke (mechanism m) wkey raw = (CKR_OK, out) \<and> p11_is_initialized st1 \<and>
    (\<forall>g. p11_get_session st1 g = p11_get_session st g) \<and> (\<forall>g. p11_get_object st1 h g = p11_get_object st h g)"
proof -
  obtain wkey tkey where k: "p11_is_initialized st" "p11_get_object st h hw = Some wkey" "p11_get_object st h hk = Some tkey"
    "p11_key_state_error (getKeyState wkey) False = CKR_OK" "extractable_m tkey"
    using assms by (auto simp: C_WrapKey_def Let_def split: if_splits option.splits)
  then obtain raw where r: "raw_key_bytes tkey = Some raw"
    using assms by (cases "raw_key_bytes tkey") (auto simp: C_WrapKey_def Let_def split: option.splits)
  obtain rv o' where w: "wrap_bytes ke (mechanism m) wkey raw = (rv, o')" by fastforce
  then show ?thesis using assms k r
    by (auto simp: C_WrapKey_def Let_def split: if_splits option.splits)
qed



subsection \<open>Rotation\<close>

lemma setAttribute_Some: "setAttribute ob t (Some v) n = Inr (set_attr_vec ob t (take (unat n) v))"
  by (simp add: setAttribute_def set_attr_vec_def)

lemma apply_template_step:
  fixes a ob t
  defines "v \<equiv> read_mem (pValue a) (ulValueLen a)"
  shows "p11_apply_template ob (a # t) = (CKR_ARGUMENTS_BAD, ob) \<or> p11_apply_template ob (a # t) = p11_apply_template ob t \<or>
    p11_apply_template ob (a # t) = p11_apply_template (set_attr_vec ob (atype a) v) t"
  by (cases "pValue a") (simp_all add: setAttribute_Some v_def)

lemma apply_template_fields:
  "p11_apply_template ob t = (rv, ob') \<Longrightarrow> type_m ob' = type_m ob \<and> sensitive_m ob' = sensitive_m ob \<and>
     (\<forall>a. a \<notin> atype ` set t \<longrightarrow> findAttribute ob' a = findAttribute ob a)"
proof (induction t arbitrary: ob)
  case (Cons a t)
  let ?v = "read_mem (pValue a) (ulValueLen a)"
  have "p11_apply_template ob (a # t) = (CKR_ARGUMENTS_BAD, ob) \<or> p11_apply_template ob (a # t) = p11_apply_template ob t \<or>
    p11_apply_template ob (a # t) = p11_apply_template (set_attr_vec ob (atype a) ?v) t"
    by (rule apply_template_step)
  then show ?case
  proof (elim disjE)
    assume "p11_apply_template ob (a # t) = p11_apply_template (set_attr_vec ob (atype a) ?v) t"
    then show ?thesis using Cons.IH [of "set_attr_vec ob (atype a) ?v"] Cons.prems by (simp add: findAttribute_set_attr_vec)
  qed (use Cons in auto)
qed simp

lemma apply_template_append:
  "p11_apply_template ob (t @ u) = (case p11_apply_template ob t of (rv, ob1) \<Rightarrow> if rv = CKR_OK then p11_apply_template ob1 u else (rv, ob1))"
proof (induction t arbitrary: ob)
  case (Cons a t)
  show ?case by (cases "pValue a") (simp_all add: setAttribute_Some Cons.IH)
qed simp

lemma store_key_keeps:
  assumes "p11_store_key_rsa evp ob kp b = (rv, ob') \<or> p11_store_key_ec evp ob kp b = (rv, ob')"
    and "a \<notin> {CKA_VHSM_RSA_PRIV, CKA_VHSM_RSA_PUB, CKA_VHSM_EC_PRIV, CKA_EC_PARAMS, CKA_EC_POINT, CKA_CLASS}"
  shows "type_m ob' = type_m ob \<and> sensitive_m ob' = sensitive_m ob \<and> findAttribute ob' a = findAttribute ob a"
  using assms by (auto simp: p11_store_key_rsa_def p11_store_key_ec_def Let_def findAttribute_def set_attr_vec_def
      split: option.splits if_splits)

lemma fill_half_OK:
  assumes "fill_half ke CKR_OK ob t isRsa kp b = (CKR_OK, ob')"
    and "a \<notin> {CKA_VHSM_RSA_PRIV, CKA_VHSM_RSA_PUB, CKA_VHSM_EC_PRIV, CKA_EC_PARAMS, CKA_EC_POINT, CKA_CLASS}"
  shows "\<exists>ob1. p11_apply_template ob t = (CKR_OK, ob1) \<and> type_m ob' = type_m ob \<and> sensitive_m ob' = sensitive_m ob \<and>
    findAttribute ob' a = findAttribute ob1 a"
proof -
  obtain rv ob1 where t: "p11_apply_template ob t = (rv, ob1)" by fastforce
  then have "rv = CKR_OK" "p11_store_key_rsa (ke_evp ke) ob1 kp b = (CKR_OK, ob') \<or> p11_store_key_ec (ke_evp ke) ob1 kp b = (CKR_OK, ob')"
    using assms(1) by (auto simp: fill_half_def split: if_splits)
  with store_key_keeps [OF this(2) assms(2)] apply_template_fields [OF t] t show ?thesis by auto
qed

lemma fill_half_active:
  assumes "fill_half ke CKR_OK (new_HsmObject ty a b c d) t isRsa kp p = (CKR_OK, ob)" "CKA_VHSM_KEY_STATE \<notin> atype ` set t"
  shows "getKeyState ob = Active \<and> type_m ob = ty"
proof -
  obtain ob1 where t: "p11_apply_template (new_HsmObject ty a b c d) t = (CKR_OK, ob1)" "type_m ob = ty"
    "findAttribute ob CKA_VHSM_KEY_STATE = findAttribute ob1 CKA_VHSM_KEY_STATE"
    using fill_half_OK [OF assms(1), of CKA_VHSM_KEY_STATE] by (auto simp: new_HsmObject_def)
  have "findAttribute ob1 CKA_VHSM_KEY_STATE = None"
    using apply_template_fields [OF t(1)] assms(2) by (simp add: new_HsmObject_def findAttribute_def)
  then show ?thesis using t by (simp add: getKeyState_def)
qed

lemma keypair_objects:
  assumes s: "p11_get_session st h = Some s" "ObjectStore.store_inv (objectStore_m s)" "length (v_table (objectStore_m s)) < 2 ^ 32 - 2"
    and gen: "p11_generate_and_store_keypair ke st h mech pubT privT hOld = (CKR_OK, Some (hPub, hPriv), st')"
    and old: "p11_get_object st h hOld = Some old" "hOld \<noteq> CK_INVALID_HANDLE"
  shows "\<exists>pub priv isRsa kp. p11_get_object st h hPub = None \<and> p11_get_object st h hPriv = None \<and> hPub \<noteq> hPriv \<and>
    p11_get_object st' h = (p11_get_object st h)(hPub \<mapsto> pub, hPriv \<mapsto> priv, hOld \<mapsto> setKeyState old Rotating) \<and>
    fill_half ke CKR_OK (new_HsmObject PUBLIC_KEY False True False False) pubT isRsa kp False = (CKR_OK, pub) \<and>
    fill_half ke CKR_OK (new_HsmObject PRIVATE_KEY True True False True) privT isRsa kp True = (CKR_OK, priv)"
proof -
  let ?os = "objectStore_m s" and ?pub = "new_HsmObject PUBLIC_KEY False True False False"
    and ?priv = "new_HsmObject PRIVATE_KEY True True False True"
  obtain isRsa key where g: "generate_pair ke mech pubT privT = Inr (Some (isRsa, Some key))"
    using gen s(1) by (auto simp: p11_generate_and_store_keypair_def split: sum.splits option.splits)
  obtain hp os1 where c1: "v_create_object ?os ?pub = (hp, os1)" by fastforce
  obtain rv1 pub1 where f1: "fill_half ke CKR_OK ?pub pubT isRsa (Some key) False = (rv1, pub1)" by fastforce
  obtain hq os3 where c2: "v_create_object (v_put_object os1 hp pub1) ?priv = (hq, os3)" by fastforce
  obtain rv2 priv1 where f2: "fill_half ke rv1 ?priv privT isRsa (Some key) True = (rv2, priv1)" by fastforce
  let ?os4 = "v_put_object os3 hq priv1"
  have rv: "rv2 = CKR_OK" using gen s(1) g c1 f1 c2 f2
    by (auto simp: p11_generate_and_store_keypair_def Let_def split: if_splits)
  then have rv1: "rv1 = CKR_OK" using f2 by (auto simp: fill_half_def split: if_splits)
  have room: "store_room ?os" using s(3) by (simp add: store_room_def)
  have o1: "v_get_object ?os hp = None" "v_get_object os1 = (v_get_object ?os)(hp \<mapsto> ?pub)" using create_get [OF s(2) room c1] by simp_all
  have o2: "v_get_object (v_put_object os1 hp pub1) = (v_get_object ?os)(hp \<mapsto> pub1)" using put_get [of os1 hp ?pub pub1] o1 by simp
  have i2: "ObjectStore.store_inv (v_put_object os1 hp pub1)" using create_inv [OF s(2) room c1] put_inv by blast
  have r2: "store_room (v_put_object os1 hp pub1)"
    using length_create [of ?os ?pub] c1 s(3) by (simp add: store_room_def v_put_object_def Let_def)
  have o3: "v_get_object (v_put_object os1 hp pub1) hq = None" "v_get_object os3 = (v_get_object (v_put_object os1 hp pub1))(hq \<mapsto> ?priv)"
    using create_get [OF i2 r2 c2] by simp_all
  have o4: "v_get_object ?os4 = (v_get_object ?os)(hp \<mapsto> pub1, hq \<mapsto> priv1)" using put_get [of os3 hq ?priv priv1] o3 o2 by simp
  have get: "p11_get_object st h = v_get_object ?os" using s(1) by (auto simp: p11_get_object_def)
  have "hp \<noteq> hOld" "hq \<noteq> hOld" "hp \<noteq> hq" using o1(1) o3(1) o2 old(1) get by (auto split: if_splits)
  then have o5: "v_get_object ?os4 hOld = Some old" using o4 old(1) get by simp
  have st': "hPub = hp" "hPriv = hq" "st' = publish_rotation_event (ke_p11 ke)
      (put_store st h s (v_put_object ?os4 hOld (setKeyState old Rotating))) (s\<lparr>objectStore_m := v_put_object ?os4 hOld (setKeyState old Rotating)\<rparr>)
      (if label_from_template privT = [] then label_from_template pubT else label_from_template privT) [hp, hq]"
    using gen s(1) g c1 f1 c2 f2 rv old(2) o5 by (auto simp: p11_generate_and_store_keypair_def Let_def put_store_def)
  have "p11_get_object st' h = v_get_object (v_put_object ?os4 hOld (setKeyState old Rotating))"
    using put_store_object [OF s(1)] by (auto simp: st' publish_rotation_event_def split: prod.splits option.splits)
  also have "\<dots> = (v_get_object ?os)(hp \<mapsto> pub1, hq \<mapsto> priv1, hOld \<mapsto> setKeyState old Rotating)" using put_get [OF o5] o4 by simp
  finally show ?thesis using f1 f2 rv rv1 o1 o2 o3 \<open>hp \<noteq> hq\<close> get st' by auto
qed


lemma inactive_key_refused:
  assumes "p11_get_object st h k = Some ob" "getKeyState ob \<noteq> Active" "C_SignInit st h (Some m) k = (CKR_OK, st1)" "\<not> ce_fips_mode ce"
  shows "fst (C_Sign ce st1 h (Some d) n has_out len) = CKR_KEY_FUNCTION_NOT_PERMITTED"
proof -
  have b: "op_begin st h (Some m) k True = (CKR_OK, st1)" "mechanism m \<noteq> 0"
    using assms(3) by (auto simp: C_SignInit_def is_rsa_mech_def is_ec_mech_def split: if_splits)
  obtain s where s: "p11_get_session st h = Some s"
    "st1 = p11_put_session st h (s\<lparr>activeMech_m := mechanism m, signKey_m := k, opBuf_m := []\<rparr>)" (is "_ = p11_put_session st h ?s")
    using op_begin_OK [OF b(1)] by blast
  have g: "p11_get_session st1 h = Some ?s" "p11_get_object st1 h k = Some ob"
    using p11_get_put_session [OF s(1), of ?s] p11_session_handle [OF s(1)] s assms(1) by (simp_all add: p11_get_object_def)
  have "do_sign ce st1 h (read_mem (Some d) n) = (CKR_KEY_FUNCTION_NOT_PERMITTED, [])"
    using g assms(2,4) by (simp add: do_sign_def p11_key_state_error_def)
  then show ?thesis using g b(2) by (simp add: C_Sign_def op_check_def opCheck_def finish_sign_def)
qed

lemma ensure_attr_other: "a \<noteq> t \<Longrightarrow> a \<in> atype ` set (ensure_attr old t dst) \<longleftrightarrow> a \<in> atype ` set dst"
  by (auto simp: ensure_attr_def split: option.splits)

lemma inherited_label:
  assumes "p11_apply_template ob (fold (ensure_attr old) [CKA_LABEL, CKA_ID, CKA_MODULUS_BITS] t) = (CKR_OK, ob')"
    and "CKA_LABEL \<notin> atype ` set t" "findAttribute old CKA_LABEL = Some lab" "lab \<noteq> []" "length lab < 2 ^ 64"
  shows "findAttribute ob' CKA_LABEL = Some lab"
proof -
  let ?e = "\<lparr>atype = CKA_LABEL, pValue = Some lab, ulValueLen = of_nat (length lab)\<rparr>"
  have u0: "ensure_attr old CKA_LABEL t = t @ [?e]" using assms(2-4) by (simp add: ensure_attr_def nonempty_attr_def)
  have e: "\<exists>u. ensure_attr old a v = v @ u \<and> (\<forall>b\<in>set u. atype b = a)" for a v
    by (auto simp: ensure_attr_def split: option.splits)
  obtain u1 where u1: "ensure_attr old CKA_ID (t @ [?e]) = (t @ [?e]) @ u1" "\<forall>b\<in>set u1. atype b = CKA_ID" using e by blast
  obtain u2 where u2: "ensure_attr old CKA_MODULUS_BITS ((t @ [?e]) @ u1) = ((t @ [?e]) @ u1) @ u2" "\<forall>b\<in>set u2. atype b = CKA_MODULUS_BITS"
    using e by blast
  have f: "fold (ensure_attr old) [CKA_LABEL, CKA_ID, CKA_MODULUS_BITS] t = t @ ([?e] @ (u1 @ u2))" using u0 u1(1) u2(1) by simp
  obtain ob1 where "p11_apply_template ob t = (CKR_OK, ob1)" "p11_apply_template ob1 ([?e] @ (u1 @ u2)) = (CKR_OK, ob')"
    using assms(1) unfolding f apply_template_append by (auto split: prod.splits if_splits)
  then have "p11_apply_template (set_attr_vec ob1 CKA_LABEL lab) (u1 @ u2) = (CKR_OK, ob')"
    using length_in_range [OF assms(5)] by (simp add: setAttribute_Some)
  from apply_template_fields [OF this] have "CKA_LABEL \<notin> atype ` set (u1 @ u2) \<Longrightarrow>
      findAttribute ob' CKA_LABEL = findAttribute (set_attr_vec ob1 CKA_LABEL lab) CKA_LABEL" by blast
  moreover have "CKA_LABEL \<notin> atype ` set (u1 @ u2)" using u1(2) u2(2) by (auto simp: image_iff)
  ultimately show ?thesis by (simp add: findAttribute_set_attr_vec)
qed

text \<open>
  C39. Rotation supersedes a key.  A successful \<open>p11_rotate_keypair\<close> creates a public and a private key under two fresh
  handles and changes no other object than the old private key, which goes to the state Rotating.  The new
  private key is Active and carries the old label; a signature with the old key is refused from then on, while
  its state still admits verification and decryption.
\<close>

theorem rotation_supersedes_old_key:
  assumes s: "p11_get_session st h = Some s" "ObjectStore.store_inv (objectStore_m s)" "length (v_table (objectStore_m s)) < 2 ^ 32 - 2"
    and old: "p11_get_object st h hOld = Some old" "hOld \<noteq> CK_INVALID_HANDLE"
    and lab: "findAttribute old CKA_LABEL = Some lab" "lab \<noteq> []" "length lab < 2 ^ 64" "CKA_LABEL \<notin> atype ` set privT"
    and tmpl: "CKA_VHSM_KEY_STATE \<notin> atype ` set privT"
    and rot: "p11_rotate_keypair ke st h hOld pubT privT True True = (CKR_OK, Some (hPub, hPriv), st')"
  shows "\<exists>pub priv. p11_get_object st h hPub = None \<and> p11_get_object st h hPriv = None \<and> hPub \<noteq> hPriv \<and>
    p11_get_object st' h = (p11_get_object st h)(hPub \<mapsto> pub, hPriv \<mapsto> priv, hOld \<mapsto> setKeyState old Rotating) \<and>
    type_m priv = PRIVATE_KEY \<and> getKeyState priv = Active \<and> findAttribute priv CKA_LABEL = Some lab \<and>
    p11_key_state_error (getKeyState (setKeyState old Rotating)) False = CKR_OK \<and>
    (\<forall>ce m st1 d n has_out len. \<not> ce_fips_mode (ce :: 'pk CryptoEnv) \<longrightarrow> C_SignInit st' h (Some m) hOld = (CKR_OK, st1) \<longrightarrow>
       fst (C_Sign ce st1 h (Some d) n has_out len) = CKR_KEY_FUNCTION_NOT_PERMITTED)"
proof -
  let ?t = "fold (ensure_attr old) [CKA_LABEL, CKA_ID, CKA_MODULUS_BITS] privT"
  obtain mech pubT' where gen: "p11_generate_and_store_keypair ke st h mech pubT' ?t hOld = (CKR_OK, Some (hPub, hPriv), st')"
    using rot s(1) old(1) by (auto simp: p11_rotate_keypair_def Let_def split: if_splits)
  obtain pub priv isRsa kp where k: "p11_get_object st h hPub = None" "p11_get_object st h hPriv = None" "hPub \<noteq> hPriv"
    "p11_get_object st' h = (p11_get_object st h)(hPub \<mapsto> pub, hPriv \<mapsto> priv, hOld \<mapsto> setKeyState old Rotating)"
    and f: "fill_half ke CKR_OK (new_HsmObject PRIVATE_KEY True True False True) ?t isRsa kp True = (CKR_OK, priv)"
    using keypair_objects [OF s gen old] by blast
  have "CKA_VHSM_KEY_STATE \<notin> atype ` set ?t" using tmpl by (simp add: ensure_attr_other)
  then have a: "type_m priv = PRIVATE_KEY" "getKeyState priv = Active" using fill_half_active [OF f] by simp_all
  obtain ob1 where "p11_apply_template (new_HsmObject PRIVATE_KEY True True False True) ?t = (CKR_OK, ob1)"
    "findAttribute priv CKA_LABEL = findAttribute ob1 CKA_LABEL"
    using fill_half_OK [OF f, of CKA_LABEL] by auto
  then have "findAttribute priv CKA_LABEL = Some lab" using inherited_label [OF _ lab(4,1-3)] by simp
  moreover have st: "getKeyState (setKeyState old Rotating) = Rotating" by (simp add: getKeyState_setKeyState)
  moreover have "fst (C_Sign ce st1 h (Some d) n has_out len) = CKR_KEY_FUNCTION_NOT_PERMITTED"
    if "\<not> ce_fips_mode (ce :: 'pk CryptoEnv)" "C_SignInit st' h (Some m) hOld = (CKR_OK, st1)" for ce m st1 d n has_out len
    using inactive_key_refused [OF _ _ that(2,1), of "setKeyState old Rotating"] k(4) st by simp
  ultimately show ?thesis using k a by (auto simp: p11_key_state_error_def)
qed


subsection \<open>Unwrapping a private key\<close>

lemma store_key_stub:
  assumes "i2d_RSAPrivateKey evp pk = None" "i2d_ECPrivateKey evp pk = None"
  shows "snd (p11_store_key evp ob pk True) = ob"
  using assms by (simp add: p11_store_key_def Let_def)

lemma blank_object_no_key:
  "p11_evp_from_object evp (new_HsmObject ty a b c d) = None"
  by (simp add: p11_evp_from_object_def p11_build_key_from_attrs_def nonempty_attr_def import_params_point_def findAttribute_def new_HsmObject_def)

text \<open>
  C40. A private key does not survive unwrapping in the build with the OpenSSL shim, whose i2d functions are
  stubs that fail.  When \<open>C_UnwrapKey\<close> recognises the unwrapped bytes as an RSA or EC private key it
  ignores that storing the key failed: it reports success and the handle of an object from which no key can be loaded.
\<close>

theorem unwrapped_private_key_is_lost:
  assumes stub: "\<forall>pk. i2d_RSAPrivateKey (ke_evp ke) pk = None" "\<forall>pk. i2d_ECPrivateKey (ke_evp ke) pk = None"
    and s: "p11_is_initialized st" "p11_get_session st h = Some s" "ObjectStore.store_inv (objectStore_m s)" "store_room (objectStore_m s)"
    and u: "p11_get_object st h hu = Some ukey" "getKeyState ukey = Active"
      "unwrap_bytes ke (mechanism m) ukey (read_mem (Some w) n) = (CKR_OK, raw)" "probe_private (ke_evp ke) raw = Some pk"
  shows "\<exists>hn ob st'. C_UnwrapKey ke st h (Some m) hu (Some w) n [] True = (CKR_OK, Some hn, st') \<and>
    p11_get_object st' h hn = Some ob \<and> p11_evp_from_object (ke_evp ke) ob = None"
proof -
  let ?obj = "new_HsmObject PRIVATE_KEY True True False True"
  obtain hn ost where c: "create_with_template (objectStore_m s) ?obj [] (\<lambda>ob. snd (p11_store_key (ke_evp ke) ob pk True)) = (CKR_OK, hn, ost)"
    using create_with_empty_template by blast
  have o: "v_get_object ost hn = Some ?obj"
    using create_with_template_OK [OF s(3,4) c] store_key_stub [of "ke_evp ke" pk] stub by auto
  have r: "create_from_raw (ke_evp ke) st h raw [] = (CKR_OK, Some hn, put_store st h s ost)"
    using s(2) u(4) c by (simp add: create_from_raw_def)
  show ?thesis
    using s(1,2) u r o put_store_object [OF s(2), of ost hn] blank_object_no_key
    by (auto simp: C_UnwrapKey_def p11_key_state_error_def Let_def)
qed

subsection \<open>A sample key store\<close>

lemma sample_keys_session: "p11_get_session sample_keys 1 = Some ((new_Session 1 0 0 0 0)\<lparr>objectStore_m := sample_store\<rparr>)"
  by (simp add: sample_keys_def p11_get_session_def v_get_session_def new_Session_def)

lemma sample_store_inv: "ObjectStore.store_inv sample_store \<and> length (v_table sample_store) = 3"
proof -
  have r: "store_room t" if "length (v_table t) \<le> 3" for t using that by (simp add: store_room_def)
  let ?a = "snd (v_create_object new_ObjectStore sample_kek)" and ?b = "snd (v_create_object (snd (v_create_object new_ObjectStore sample_kek)) sample_secret)"
  have l: "length (v_table ?a) = 1" "length (v_table ?b) = 2" "length (v_table sample_store) = 3" by code_simp+
  have i: "ObjectStore.store_inv t \<Longrightarrow> length (v_table t) \<le> 3 \<Longrightarrow> ObjectStore.store_inv (snd (v_create_object t ob))" for t ob
    using create_inv [OF _ r, of t ob] by (metis prod.collapse)
  have "ObjectStore.store_inv ?a" using i [OF store_inv_new] by (simp add: new_ObjectStore_def)
  then have "ObjectStore.store_inv ?b" using i l by simp
  then show ?thesis using i l by (simp add: sample_store_def)
qed

lemma sample_rotation:
  "map_prod id fst (p11_rotate_keypair sample_ke sample_rot_keys 1 (v_compose_handle 2 1) [] [] True True) =
    (CKR_OK, Some (v_compose_handle 1 2, v_compose_handle 0 2))"
  by code_simp

lemma sample_rot_length: "length (v_table sample_rot_store) = 3"
  by code_simp

lemma sample_rot_old: "p11_get_object sample_rot_keys 1 (v_compose_handle 2 1) = Some sample_labelled"
  by (simp add: p11_get_object_def sample_rot_keys_def p11_get_session_def v_get_session_def new_Session_def) code_simp


lemma sample_keys_objects:
  "p11_get_object sample_keys 1 (v_compose_handle 0 1) = Some sample_kek"
  "p11_get_object sample_keys 1 (v_compose_handle 1 1) = Some sample_secret"
  unfolding p11_get_object_def sample_keys_session by (simp_all add: new_Session_def, code_simp+)

lemma sample_aes: "aes_ok (ke_aes_encrypt sample_wrap_ke) (ke_aes_decrypt sample_wrap_ke)"
  by (simp add: sample_wrap_ke_def sample_ke_def aes_ok_def)

lemma sample_wrap:
  "\<exists>out l st1. C_WrapKey sample_wrap_ke sample_keys 1 (Some (plain_mech CKM_AES_KEY_WRAP)) (v_compose_handle 0 1) (v_compose_handle 1 1)
     True (Some 100) = (CKR_OK, Some out, l, st1)"
proof -
  obtain c where c: "wrap (ke_aes_encrypt sample_wrap_ke) (replicate 32 1) (replicate 16 1) = Inr c" "length c = 24"
    using wrap_total [OF sample_aes, of "replicate 32 1" "replicate 16 1"] by auto
  have "wrap_bytes sample_wrap_ke CKM_AES_KEY_WRAP sample_kek (replicate 16 1) = (CKR_OK, c)"
    using c by (simp add: wrap_bytes_def sample_kek_def findAttribute_set_attr_vec new_KeyWrap_def)
  moreover have "raw_key_bytes sample_secret = Some (replicate 16 1)"
    by (simp add: raw_key_bytes_def nonempty_attr_def sample_secret_def findAttribute_set_attr_vec)
  moreover have "p11_is_initialized sample_keys" "extractable_m sample_secret" "getKeyState sample_kek = Active"
    by (simp_all add: sample_keys_def p11_is_initialized_def sample_secret_def sample_kek_def getKeyState_def new_HsmObject_def
        findAttribute_def set_attr_vec_def)
  ultimately show ?thesis
    using c(2) sample_keys_objects sample_keys_session by (simp add: C_WrapKey_def p11_key_state_error_def)
qed


theorem rotation_supersedes_old_key_witness:
  "\<exists>st' priv. p11_rotate_keypair sample_ke sample_rot_keys 1 (v_compose_handle 2 1) [] [] True True =
       (CKR_OK, Some (v_compose_handle 1 2, v_compose_handle 0 2), st') \<and>
     p11_get_object st' 1 (v_compose_handle 0 2) = Some priv \<and> getKeyState priv = Active"
proof -
  obtain st' where r: "p11_rotate_keypair sample_ke sample_rot_keys 1 (v_compose_handle 2 1) [] [] True True =
       (CKR_OK, Some (v_compose_handle 1 2, v_compose_handle 0 2), st')"
    using sample_rotation by (cases "p11_rotate_keypair sample_ke sample_rot_keys 1 (v_compose_handle 2 1) [] [] True True") auto
  have s: "p11_get_session sample_rot_keys 1 = Some ((new_Session 1 0 0 0 0)\<lparr>objectStore_m := sample_rot_store\<rparr>)"
    by (simp add: sample_rot_keys_def p11_get_session_def v_get_session_def new_Session_def)
  have i: "ObjectStore.store_inv (objectStore_m ((new_Session 1 0 0 0 0)\<lparr>objectStore_m := sample_rot_store\<rparr>))"
    using sample_store_inv by (simp add: sample_rot_store_def destroy_inv)
  have l: "length (v_table (objectStore_m ((new_Session 1 0 0 0 0)\<lparr>objectStore_m := sample_rot_store\<rparr>))) < 2 ^ 32 - 2"
    using sample_rot_length by simp
  have "v_compose_handle 2 1 \<noteq> CK_INVALID_HANDLE" "findAttribute sample_labelled CKA_LABEL = Some [0x6B]"
    "v_compose_handle 2 1 \<noteq> v_compose_handle 0 2" by (code_simp, simp add: sample_labelled_def findAttribute_set_attr_vec, code_simp)
  then show ?thesis using rotation_supersedes_old_key [OF s i l sample_rot_old _ _ _ _ _ _ r] r by auto
qed


text \<open>The wrapped bytes unwrap to a byte string that the sample library takes for an EC private key.\<close>

theorem unwrapped_private_key_is_lost_witness:
  "\<exists>w hn ob st'. C_UnwrapKey sample_ke sample_keys 1 (Some (plain_mech CKM_AES_KEY_WRAP)) (v_compose_handle 0 1) (Some w)
       (of_nat (length w)) [] True = (CKR_OK, Some hn, st') \<and>
     p11_get_object st' 1 hn = Some ob \<and> p11_evp_from_object (ke_evp sample_ke) ob = None"
proof -
  have aes: "aes_ok (ke_aes_encrypt sample_ke) (ke_aes_decrypt sample_ke)" by (simp add: sample_ke_def aes_ok_def)
  obtain w where w: "wrap (ke_aes_encrypt sample_ke) (replicate 32 1) (replicate 16 1) = Inr w" "length w = 24"
    using wrap_total [OF aes, of "replicate 32 1" "replicate 16 1"] by auto
  have "unwrap (ke_aes_decrypt sample_ke) (replicate 32 1) w = Inr (replicate 16 1)" using unwrap_wrap [OF aes _ w(1)] by simp
  then have u: "unwrap_bytes sample_ke (mechanism (plain_mech CKM_AES_KEY_WRAP)) sample_kek (read_mem (Some w) (of_nat (length w))) =
      (CKR_OK, replicate 16 1)"
    using w(2) by (simp add: unwrap_bytes_def sample_kek_def findAttribute_set_attr_vec new_KeyWrap_def)
  have s: "ObjectStore.store_inv (objectStore_m ((new_Session 1 0 0 0 0)\<lparr>objectStore_m := sample_store\<rparr>))"
    "store_room (objectStore_m ((new_Session 1 0 0 0 0)\<lparr>objectStore_m := sample_store\<rparr>))"
    using sample_store_inv by (simp_all add: store_room_def)
  have p: "probe_private (ke_evp sample_ke) (replicate 16 1) = Some 408" by code_simp
  have a: "getKeyState sample_kek = Active" "p11_is_initialized sample_keys" by code_simp+
  have stub: "\<forall>pk. i2d_RSAPrivateKey (ke_evp sample_ke) pk = None" "\<forall>pk. i2d_ECPrivateKey (ke_evp sample_ke) pk = None"
    by (simp_all add: sample_ke_def sample_evp_def)
  show ?thesis
    using unwrapped_private_key_is_lost [OF stub a(2) sample_keys_session s sample_keys_objects(1) a(1) u p] by blast
qed

end
