(* ===== verification/P11System.thy ===== *)
theory P11System
  imports P11KeyMgmt
begin

text \<open>
  The module as a whole: every state-changing entry point of the C interface as one step, and what holds of
  any sequence of calls.  A call on one session leaves every other session alone, and the well-formedness
  of the session registry, of every session and of every token is kept by every call.
\<close>

subsection \<open>Calls\<close>

text \<open>The calls on a session, grouped by the source file of the entry point.\<close>

datatype login_call =
    InitPIN "bytes option" CK_ULONG
  | SetPIN "bytes option" CK_ULONG "bytes option" CK_ULONG
  | CloseSession
  | Login P11Env CK_USER_TYPE "bytes option" CK_ULONG
  | Logout

datatype object_call =
    CreateObject "CK_ATTRIBUTE list" bool
  | CopyObject CK_OBJECT_HANDLE "CK_ATTRIBUTE list" bool
  | DestroyObject P11Env CK_OBJECT_HANDLE
  | SetAttributeValue CK_OBJECT_HANDLE "CK_ATTRIBUTE list"
  | FindObjectsInit "CK_ATTRIBUTE list"
  | FindObjects CK_ULONG bool
  | FindObjectsFinal

datatype 'pk crypto_call =
    EncryptInit "CK_MECHANISM option" CK_OBJECT_HANDLE
  | Encrypt "'pk CryptoEnv" "bytes option" CK_ULONG bool "CK_ULONG option"
  | EncryptUpdate "bytes option" CK_ULONG "CK_ULONG option"
  | EncryptFinal "'pk CryptoEnv" bool "CK_ULONG option"
  | DecryptInit "CK_MECHANISM option" CK_OBJECT_HANDLE
  | Decrypt "'pk CryptoEnv" "bytes option" CK_ULONG bool "CK_ULONG option"
  | DecryptUpdate "bytes option" CK_ULONG "CK_ULONG option"
  | DecryptFinal "'pk CryptoEnv" bool "CK_ULONG option"
  | DigestInit "CK_MECHANISM option"
  | Digest "'pk Evp" "bytes option" CK_ULONG bool "CK_ULONG option"
  | DigestUpdate "bytes option" CK_ULONG
  | DigestKey CK_OBJECT_HANDLE
  | DigestFinal "'pk Evp" bool "CK_ULONG option"
  | SignInit "CK_MECHANISM option" CK_OBJECT_HANDLE
  | Sign "'pk CryptoEnv" "bytes option" CK_ULONG bool "CK_ULONG option"
  | SignUpdate "bytes option" CK_ULONG
  | SignFinal "'pk CryptoEnv" bool "CK_ULONG option"
  | VerifyInit "CK_MECHANISM option" CK_OBJECT_HANDLE
  | Verify "'pk CryptoEnv" "bytes option" CK_ULONG "bytes option" CK_ULONG
  | VerifyUpdate "bytes option" CK_ULONG
  | VerifyFinal "'pk CryptoEnv" "bytes option" CK_ULONG

datatype 'pk key_call =
    GenerateKey "'pk KeyEnv" "CK_MECHANISM option" "CK_ATTRIBUTE list" bool
  | GenerateKeyPair "'pk KeyEnv" "CK_MECHANISM option" "CK_ATTRIBUTE list" "CK_ATTRIBUTE list" bool bool
  | RotateKeyPair "'pk KeyEnv" CK_OBJECT_HANDLE "CK_ATTRIBUTE list" "CK_ATTRIBUTE list" bool bool
  | WrapKey "'pk KeyEnv" "CK_MECHANISM option" CK_OBJECT_HANDLE CK_OBJECT_HANDLE bool "CK_ULONG option"
  | UnwrapKey "'pk KeyEnv" "CK_MECHANISM option" CK_OBJECT_HANDLE "bytes option" CK_ULONG "CK_ATTRIBUTE list" bool
  | DeriveKey "'pk KeyEnv" "CK_MECHANISM option" CK_OBJECT_HANDLE "CK_ATTRIBUTE list" bool

datatype 'pk api_call =
    Initialize "cpp_exn + AppContainer \<times> file_system" bool bool
  | Finalize Scrypto SaveIo bool
  | InitToken CK_SLOT_ID "bytes option" CK_ULONG
  | OpenSession CK_SLOT_ID CK_FLAGS u64 u64 bool
  | CloseAllSessions CK_SLOT_ID
  | LoginCall CK_SESSION_HANDLE login_call
  | ObjectCall CK_SESSION_HANDLE object_call
  | CryptoCall CK_SESSION_HANDLE "'pk crypto_call"
  | KeyCall CK_SESSION_HANDLE "'pk key_call"

text \<open>The state after a call.\<close>

primrec login_step :: "login_call \<Rightarrow> CK_SESSION_HANDLE \<Rightarrow> P11 \<Rightarrow> P11" where
  "login_step (InitPIN p n) h st = snd (C_InitPIN st h p n)"
| "login_step (SetPIN p n q k) h st = snd (C_SetPIN st h p n q k)"
| "login_step CloseSession h st = snd (C_CloseSession st h)"
| "login_step (Login env u p n) h st = snd (snd (C_Login env st h u p n))"
| "login_step Logout h st = snd (C_Logout st h)"

primrec object_step :: "object_call \<Rightarrow> CK_SESSION_HANDLE \<Rightarrow> P11 \<Rightarrow> P11" where
  "object_step (CreateObject t r) h st = snd (snd (C_CreateObject st h t r))"
| "object_step (CopyObject ob t r) h st = snd (snd (C_CopyObject st h ob t r))"
| "object_step (DestroyObject env ob) h st = snd (C_DestroyObject env st h ob)"
| "object_step (SetAttributeValue ob t) h st = snd (C_SetAttributeValue st h ob t)"
| "object_step (FindObjectsInit t) h st = snd (C_FindObjectsInit st h t)"
| "object_step (FindObjects n r) h st = snd (snd (C_FindObjects st h n r))"
| "object_step FindObjectsFinal h st = snd (C_FindObjectsFinal st h)"

primrec crypto_step :: "'pk crypto_call \<Rightarrow> CK_SESSION_HANDLE \<Rightarrow> P11 \<Rightarrow> P11" where
  "crypto_step (EncryptInit m k) h st = snd (C_EncryptInit st h m k)"
| "crypto_step (Encrypt ce p n b l) h st = snd (snd (snd (C_Encrypt ce st h p n b l)))"
| "crypto_step (EncryptUpdate p n l) h st = snd (snd (C_EncryptUpdate st h p n l))"
| "crypto_step (EncryptFinal ce b l) h st = snd (snd (snd (C_EncryptFinal ce st h b l)))"
| "crypto_step (DecryptInit m k) h st = snd (C_DecryptInit st h m k)"
| "crypto_step (Decrypt ce p n b l) h st = snd (snd (snd (C_Decrypt ce st h p n b l)))"
| "crypto_step (DecryptUpdate p n l) h st = snd (snd (C_DecryptUpdate st h p n l))"
| "crypto_step (DecryptFinal ce b l) h st = snd (snd (snd (C_DecryptFinal ce st h b l)))"
| "crypto_step (DigestInit m) h st = snd (C_DigestInit st h m)"
| "crypto_step (Digest evp p n b l) h st = snd (snd (snd (C_Digest evp st h p n b l)))"
| "crypto_step (DigestUpdate p n) h st = snd (C_DigestUpdate st h p n)"
| "crypto_step (DigestKey k) h st = snd (C_DigestKey st h k)"
| "crypto_step (DigestFinal evp b l) h st = snd (snd (snd (C_DigestFinal evp st h b l)))"
| "crypto_step (SignInit m k) h st = snd (C_SignInit st h m k)"
| "crypto_step (Sign ce p n b l) h st = snd (snd (snd (C_Sign ce st h p n b l)))"
| "crypto_step (SignUpdate p n) h st = snd (C_SignUpdate st h p n)"
| "crypto_step (SignFinal ce b l) h st = snd (snd (snd (C_SignFinal ce st h b l)))"
| "crypto_step (VerifyInit m k) h st = snd (C_VerifyInit st h m k)"
| "crypto_step (Verify ce p n q k) h st = snd (C_Verify ce st h p n q k)"
| "crypto_step (VerifyUpdate p n) h st = snd (C_VerifyUpdate st h p n)"
| "crypto_step (VerifyFinal ce q k) h st = snd (C_VerifyFinal ce st h q k)"

primrec key_step :: "'pk key_call \<Rightarrow> CK_SESSION_HANDLE \<Rightarrow> P11 \<Rightarrow> P11" where
  "key_step (GenerateKey ke m t r) h st = snd (snd (C_GenerateKey ke st h m t r))"
| "key_step (GenerateKeyPair ke m t u r q) h st = snd (snd (C_GenerateKeyPair ke st h m t u r q))"
| "key_step (RotateKeyPair ke k t u r q) h st = snd (snd (p11_rotate_keypair ke st h k t u r q))"
| "key_step (WrapKey ke m w k b l) h st = snd (snd (snd (C_WrapKey ke st h m w k b l)))"
| "key_step (UnwrapKey ke m u p n t r) h st = snd (snd (C_UnwrapKey ke st h m u p n t r))"
| "key_step (DeriveKey ke m k t r) h st = snd (snd (C_DeriveKey ke st h m k t r))"

primrec p11_step :: "'pk api_call \<Rightarrow> P11 \<Rightarrow> P11" where
  "p11_step (Initialize c f k) st = snd (C_Initialize st c f k)"
| "p11_step (Finalize sc io r) st = snd (C_Finalize sc io st r)"
| "p11_step (InitToken sl p n) st = snd (C_InitToken st sl p n)"
| "p11_step (OpenSession sl fl a nt r) st = snd (snd (C_OpenSession st sl fl a nt r))"
| "p11_step (CloseAllSessions sl) st = snd (C_CloseAllSessions st sl)"
| "p11_step (LoginCall h c) st = login_step c h st"
| "p11_step (ObjectCall h c) st = object_step c h st"
| "p11_step (CryptoCall h c) st = crypto_step c h st"
| "p11_step (KeyCall h c) st = key_step c h st"

definition p11_run :: "'pk api_call list \<Rightarrow> P11 \<Rightarrow> P11" where
  "p11_run calls st = fold p11_step calls st"

text \<open>The session a call names; a call that names none works on the module or on a slot.\<close>

fun call_session :: "'pk api_call \<Rightarrow> CK_SESSION_HANDLE option" where
  "call_session (LoginCall h _) = Some h"
| "call_session (ObjectCall h _) = Some h"
| "call_session (CryptoCall h _) = Some h"
| "call_session (KeyCall h _) = Some h"
| "call_session _ = None"

subsection \<open>Specification notions\<close>

text \<open>The tokens the module can reach, through the container or through the fallback slot manager.\<close>

definition manager_tokens :: "SlotManager \<Rightarrow> TokenCore set" where
  "manager_tokens m = {t. \<exists>i sl. (i, sl) \<in> set m \<and> token_slot_m sl = Some t}"

definition p11_tokens :: "P11 \<Rightarrow> TokenCore set" where
  "p11_tokens st = manager_tokens (slot_fallback st) \<union>
     (case g_slot_manager st of Live m \<Rightarrow> manager_tokens m | _ \<Rightarrow> {})"

definition p11_inv :: "P11 \<Rightarrow> bool" where
  "p11_inv st = (registry_inv (g_sessionManager st) \<and> 0 < v_next_session_id (g_sessionManager st) \<and>
     (\<forall>s\<in>set (v_sessions (g_sessionManager st)). session_reachable s) \<and>
     (\<forall>t\<in>p11_tokens st. token_inv t))"

text \<open>Room for the two objects a key pair generation creates.\<close>

definition two_free :: "Session \<Rightarrow> bool" where
  "two_free s = (length (v_table (objectStore_m s)) + 1 < 2 ^ 32 - 1)"

text \<open>
  What a call needs besides a well-formed state: PIN pointers that can be read for the length given, a
  session counter below the end of its range, object tables that can still grow, and a container whose
  tokens are well-formed.
\<close>

definition call_ok :: "'pk api_call \<Rightarrow> P11 \<Rightarrow> bool" where
  "call_ok c st = ((case c of
       Initialize (Inr (con, _)) _ _ \<Rightarrow> \<forall>t\<in>manager_tokens (c_slot_manager con). token_inv t
     | InitToken _ p n \<Rightarrow> readable p n
     | LoginCall _ (InitPIN p n) \<Rightarrow> readable p n
     | LoginCall _ (SetPIN _ _ q k) \<Rightarrow> readable q k
     | OpenSession _ _ _ _ _ \<Rightarrow> v_next_session_id (g_sessionManager st) < 0xFFFFFFFFFFFFFFFF
     | _ \<Rightarrow> True) \<and>
     (\<forall>h s. call_session c = Some h \<longrightarrow> p11_get_session st h = Some s \<longrightarrow> two_free s))"

primrec calls_ok :: "'pk api_call list \<Rightarrow> P11 \<Rightarrow> bool" where
  "calls_ok [] st = True"
| "calls_ok (c # cs) st = (call_ok c st \<and> calls_ok cs (p11_step c st))"

definition sample_container :: AppContainer where
  "sample_container = \<lparr>c_slot_manager = [(0, insert_token (new_Slot 0) (new_TokenCore ''t'' ''0'' 0))], c_backend = Db,
     c_bounded_bus = new_BoundedNotificationBus 8, c_login_throttle = new_LoginThrottle,
     c_audit_log = \<lparr>sink_key = None, sink_calls = []\<rparr>, c_vault = None, c_dispatcher = True\<rparr>"

definition sample_calls :: "unit api_call list" where
  "sample_calls = [Initialize (Inr (sample_container, \<lambda>_. None)) False False, OpenSession 0 CKF_SERIAL_SESSION 0 0 True,
     LoginCall 1 (InitPIN (Some [0x31, 0x32]) 2), ObjectCall 1 (FindObjectsInit [])]"

text \<open>
  A call that works on session \<open>h\<close> at most: registry entries other than that of \<open>h\<close> and the slots are
  unchanged, and the session moves by \<open>P\<close>.
\<close>

definition touches :: "(Session \<Rightarrow> Session \<Rightarrow> bool) \<Rightarrow> P11 \<Rightarrow> CK_SESSION_HANDLE \<Rightarrow> P11 \<Rightarrow> bool" where
  "touches P st h st' = (g_slot_manager st' = g_slot_manager st \<and> slot_fallback st' = slot_fallback st \<and>
     (g_sessionManager st' = g_sessionManager st \<or>
      (\<exists>s s'. p11_get_session st h = Some s \<and> handle_m s' = h \<and> P s s' \<and>
         g_sessionManager st' = v_put_session (g_sessionManager st) h s')))"

definition moves :: "Session \<Rightarrow> Session \<Rightarrow> bool" where
  "moves s s' = (session_reachable s \<longrightarrow> session_reachable s')"

definition grows :: "Session \<Rightarrow> Session \<Rightarrow> bool" where
  "grows s s' = (session_reachable s \<longrightarrow> two_free s \<longrightarrow> session_reachable s')"


named_theorems touch \<open>calls that work on one session\<close>

subsection \<open>Sessions\<close>

lemma session_handles [simp]:
  "handle_m (snd (session_login s ut)) = handle_m s"
  "handle_m (snd (session_logout s)) = handle_m s"
  "handle_m (snd (opBegin s mech key)) = handle_m s"
  "handle_m (opEnd s) = handle_m s"
  "handle_m (opUpdate s data len) = handle_m s"
  "handle_m (snd (opTakeBuffer s)) = handle_m s"
  "handle_m (setGcmParams s iv aad) = handle_m s"
  "handle_m (setOaepParams s mgf label) = handle_m s"
  "handle_m (setFindResults s hs) = handle_m s"
  "handle_m (snd (findNextBatch s mx)) = handle_m s"
  "handle_m (clearFindResults s) = handle_m s"
  by (simp_all add: session_login_def session_logout_def opBegin_def opEnd_def opUpdate_def opTakeBuffer_def
      setGcmParams_def setOaepParams_def setFindResults_def findNextBatch_def clearFindResults_def
      initializeOperation_def Let_def split_beta)

lemma moves_refl: "moves s s"
  and moves_trans: "moves s s' \<Longrightarrow> moves s' s'' \<Longrightarrow> moves s s''"
  and moves_grows: "moves s s' \<Longrightarrow> grows s s'"
  by (auto simp: moves_def grows_def)

lemma moves_ops:
  "moves s (snd (session_login s ut))" "moves s (snd (session_logout s))" "moves s (snd (opBegin s mech key))"
  "moves s (opEnd s)" "moves s (opUpdate s data len)" "moves s (snd (opTakeBuffer s))"
  "moves s (setGcmParams s iv aad)" "moves s (setOaepParams s mgf label)" "moves s (setFindResults s hs)"
  "moves s (snd (findNextBatch s mx))" "moves s (clearFindResults s)"
  by (auto simp: moves_def intro: session_reachable.intros)

lemma moves_put: "moves s (s\<lparr>objectStore_m := v_put_object (objectStore_m s) h ob\<rparr>)"
  and moves_destroy: "moves s (s\<lparr>objectStore_m := snd (v_destroy_object (objectStore_m s) h)\<rparr>)"
  and moves_reindex: "moves s (s\<lparr>objectStore_m := v_reindex (objectStore_m s) h\<rparr>)"
  using session_reachable.store [of "Put h ob" s] session_reachable.store [of "Destroy h" s]
    session_reachable.store [of "Reindex h" s]
  by (auto simp: moves_def)

lemma store_step_length:
  "length (v_table (ObjectStore.store_step op st)) \<le> length (v_table st) + creations [op]"
  by (cases op) (auto simp: v_create_object_def v_destroy_object_def v_put_object_def v_reindex_def creations_def
      Let_def split: option.splits)

lemma reachable_store_run:
  assumes "session_reachable s" "length (v_table (objectStore_m s)) + creations ops < 2 ^ 32"
  shows "session_reachable (s\<lparr>objectStore_m := ObjectStore.store_run ops (objectStore_m s)\<rparr>)"
  using assms
proof (induction ops arbitrary: s)
  case (Cons op ops)
  let ?s = "s\<lparr>objectStore_m := ObjectStore.store_step op (objectStore_m s)\<rparr>"
  have "session_reachable ?s"
    using Cons.prems by (intro session_reachable.store) (auto simp: store_room_def creations_def)
  moreover have "length (v_table (objectStore_m ?s)) + creations ops < 2 ^ 32"
    using Cons.prems(2) store_step_length [of op "objectStore_m s"] by (auto simp: creations_def split: if_splits)
  ultimately show ?case using Cons.IH [of ?s] by (simp add: ObjectStore.store_run_def)
qed (simp add: ObjectStore.store_run_def)

lemma grows_store_run:
  "creations ops \<le> 2 \<Longrightarrow> grows s (s\<lparr>objectStore_m := ObjectStore.store_run ops (objectStore_m s)\<rparr>)"
  using reachable_store_run [of s ops] by (auto simp: grows_def two_free_def)

subsection \<open>Working on one session\<close>

lemma touches_refl [touch]: "touches P st h st"
  by (simp add: touches_def)

lemma touches_put:
  "p11_get_session st h = Some s \<Longrightarrow> handle_m s' = handle_m s \<Longrightarrow> P s s' \<Longrightarrow> touches P st h (p11_put_session st h s')"
  using p11_session_handle [of st h s] by (auto simp: touches_def p11_put_session_def)

lemma touches_frame:
  "touches P st h st1 \<Longrightarrow> g_slot_manager st2 = g_slot_manager st1 \<Longrightarrow> slot_fallback st2 = slot_fallback st1 \<Longrightarrow>
   g_sessionManager st2 = g_sessionManager st1 \<Longrightarrow> touches P st h st2"
  by (simp add: touches_def)

lemma touches_mono: "touches P st h st' \<Longrightarrow> (\<And>s s'. P s s' \<Longrightarrow> Q s s') \<Longrightarrow> touches Q st h st'"
  unfolding touches_def by blast

lemma touches_trans:
  assumes "touches moves st h st1" "touches moves st1 h st2"
  shows "touches moves st h st2"
proof (cases "g_sessionManager st1 = g_sessionManager st")
  case True
  then show ?thesis using assms by (simp add: touches_def p11_get_session_def)
next
  case False
  then obtain s s1 where s: "p11_get_session st h = Some s" "handle_m s1 = h" "moves s s1"
    and m1: "g_sessionManager st1 = v_put_session (g_sessionManager st) h s1"
    using assms(1) by (auto simp: touches_def)
  then have get1: "p11_get_session st1 h = Some s1"
    using p11_get_put_session [of st h s s1 h] by (simp add: p11_get_session_def p11_put_session_def)
  have put: "v_put_session (v_put_session (g_sessionManager st) h s1) h s2 = v_put_session (g_sessionManager st) h s2" for s2
    using s(2) by (auto simp: v_put_session_def)
  show ?thesis
  proof (cases "g_sessionManager st2 = g_sessionManager st1")
    case True
    then show ?thesis using assms s m1 unfolding touches_def by auto
  next
    case False
    then obtain s2 where "handle_m s2 = h" "moves s1 s2" "g_sessionManager st2 = v_put_session (g_sessionManager st1) h s2"
      using assms(2) get1 by (auto simp: touches_def)
    then show ?thesis
      using assms s m1 put moves_trans [of s s1 s2] unfolding touches_def by auto
  qed
qed

lemma publish_event_frame [simp]:
  "g_slot_manager (p11_publish_event env st a b c d e f g i j) = g_slot_manager st"
  "slot_fallback (p11_publish_event env st a b c d e f g i j) = slot_fallback st"
  "g_sessionManager (p11_publish_event env st a b c d e f g i j) = g_sessionManager st"
  by (simp_all add: p11_publish_event_def Let_def split: option.split)

lemma emit_event_sessions [simp]:
  "g_slot_manager (emit_event ce st oc a b c d e) = g_slot_manager st"
  "slot_fallback (emit_event ce st oc a b c d e) = slot_fallback st"
  "g_sessionManager (emit_event ce st oc a b c d e) = g_sessionManager st"
  by (simp_all add: emit_event_def split: option.split)

lemma rotation_event_frame [simp]:
  "g_slot_manager (publish_rotation_event env st s l hs) = g_slot_manager st"
  "slot_fallback (publish_rotation_event env st s l hs) = slot_fallback st"
  "g_sessionManager (publish_rotation_event env st s l hs) = g_sessionManager st"
  by (simp_all add: publish_rotation_event_def split: prod.split option.split)

lemma touches_publish [touch]:
  "touches P st h st' \<Longrightarrow> touches P st h (p11_publish_event env st' a b c d e f g i j)"
  "touches P st h st' \<Longrightarrow> touches P st h (emit_event ce st' oc ty sv su de au)"
  "touches P st h st' \<Longrightarrow> touches P st h (publish_rotation_event env st' s l hs)"
  by (auto elim: touches_frame)

lemma get_session_frame:
  "g_sessionManager st' = g_sessionManager st \<Longrightarrow> p11_get_session st' h = p11_get_session st h"
  by (simp add: p11_get_session_def)

text \<open>The effects the cryptographic calls are composed of.\<close>

lemma touches_op_end [touch]:
  assumes "touches moves st h st'"
  shows "touches moves st h (op_end st' h)"
proof (cases "p11_get_session st' h")
  case (Some s)
  then have "touches moves st' h (p11_put_session st' h (opEnd s))" by (rule touches_put) (simp_all add: moves_ops)
  then show ?thesis using touches_trans [OF assms] Some by (simp add: op_end_def)
qed (simp add: op_end_def assms)

lemma touches_op_update [touch]: "touches moves st h (op_update st h p n)"
  by (simp add: op_update_def touches_refl touches_put moves_ops split: option.split)

lemma touches_op_begin: "touches moves st h (snd (op_begin st h m k nk))"
  by (simp add: op_begin_def split_beta touches_refl touches_put moves_ops split: option.split)

lemma touches_set_mech_params: "touches moves st h (snd (set_mech_params st h m))"
  by (simp add: set_mech_params_def Let_def touches_refl touches_put moves_ops split: option.split)

lemma touches_take_buffer:
  "p11_get_session st h = Some s \<Longrightarrow> touches moves st h (snd (take_op_buffer st h s))"
  by (simp add: take_op_buffer_def split_beta touches_put moves_trans [OF moves_ops(6) moves_ops(5)])

lemma touches_dispatch [touch]:
  "touches P st h st' \<Longrightarrow> touches P st h (snd (dispatch_sign_result ce st' h mech data sig))"
  by (erule touches_frame)
    (simp_all add: dispatch_sign_result_def split: option.split prod.split bool.split)

lemma touches_finish_crypt:
  "touches moves st h st' \<Longrightarrow> touches moves st h (snd (snd (snd (finish_crypt ce st' h n t inp r b l))))"
  by (simp add: finish_crypt_def split_beta publish_crypto_op_event_def Let_def touch)

lemma touches_finish_sign:
  "touches moves st h st' \<Longrightarrow> touches moves st h (snd (snd (snd (finish_sign ce st' h data r b l))))"
  by (simp add: finish_sign_def split_beta Let_def touch)

lemma touches_finish_verify:
  "touches moves st h st' \<Longrightarrow> touches moves st h (snd (finish_verify ce st' h data rv))"
  by (simp add: finish_verify_def publish_verify_event_def Let_def touch)

lemmas touch_crypto = touch touches_op_begin touches_finish_crypt touches_finish_sign touches_finish_verify
  touches_take_buffer

lemma touches_init_params:
  "touches moves st h (snd (case op_begin st h m k True of (rv, st1) \<Rightarrow>
     if rv \<noteq> CKR_OK then (rv, st1) else set_mech_params st1 h mech))"
  by (simp add: split_beta touches_op_begin touches_trans [OF touches_op_begin touches_set_mech_params])

lemma touches_digest_final:
  "p11_get_session st h = Some s \<Longrightarrow> touches moves st h (op_end (p11_put_session st h (snd (opTakeBuffer s))) h)"
  by (rule touches_op_end, erule touches_put) (simp, rule moves_ops(6))

lemma crypto_step_touches: "touches moves st h (crypto_step c h st)"
proof (cases c)
  case (DigestFinal evp b l)
  then show ?thesis
    by (simp add: C_DigestFinal_def split_beta Let_def touches_refl touches_digest_final split: option.split)
next
  case (EncryptInit m k)
  then show ?thesis using touches_init_params [where m = m and k = k]
    by (cases m) (simp_all add: C_EncryptInit_def touches_refl)
next
  case (DecryptInit m k)
  then show ?thesis using touches_init_params [where m = m and k = k]
    by (cases m) (simp_all add: C_DecryptInit_def touches_refl)
qed (simp_all add: C_Encrypt_def C_EncryptUpdate_def C_EncryptFinal_def C_Decrypt_def C_DecryptUpdate_def
    C_DecryptFinal_def C_DigestInit_def C_Digest_def C_DigestUpdate_def C_DigestKey_def C_SignInit_def C_Sign_def
    C_SignUpdate_def C_SignFinal_def C_VerifyInit_def C_Verify_def C_VerifyUpdate_def C_VerifyFinal_def
    crypt_update_def input_update_def Let_def split_beta touch_crypto split: option.split)

lemma put_store_touches:
  "p11_get_session st h = Some s \<Longrightarrow> P s (s\<lparr>objectStore_m := os\<rparr>) \<Longrightarrow> touches P st h (put_store st h s os)"
  by (simp add: put_store_def touches_put)

subsection \<open>Object and key calls\<close>

lemma grows_create_put:
  assumes "v_create_object (objectStore_m s) ob = (g, os)"
  shows "grows s (s\<lparr>objectStore_m := v_put_object os k ob'\<rparr>)"
    and "grows s (s\<lparr>objectStore_m := snd (v_destroy_object (v_put_object os k ob') k')\<rparr>)"
  using grows_store_run [of "[Create ob, Put k ob']" s] grows_store_run [of "[Create ob, Put k ob', Destroy k']" s] assms
  by (simp_all add: ObjectStore.store_run_def creations_def)

lemma create_with_template_grows:
  assumes "create_with_template (objectStore_m s) ob t f = (rv, g, os)"
  shows "grows s (s\<lparr>objectStore_m := os\<rparr>)"
  using assms by (auto simp: create_with_template_def intro: grows_create_put split: prod.splits if_splits)

lemma grows_pair:
  assumes "v_create_object (objectStore_m s) pub = (g, os1)" "v_create_object (v_put_object os1 g pub1) priv = (k, os3)"
    "os4 = v_put_object os3 k priv1"
  shows "grows s (s\<lparr>objectStore_m := os4\<rparr>)"
    and "grows s (s\<lparr>objectStore_m := v_put_object os4 old ob\<rparr>)"
    and "grows s (s\<lparr>objectStore_m := snd (v_destroy_object (snd (v_destroy_object os4 g)) k)\<rparr>)"
proof -
  let ?ops = "[Create pub, Put g pub1, Create priv, Put k priv1]"
  have "ObjectStore.store_run ?ops (objectStore_m s) = os4" using assms by (simp add: ObjectStore.store_run_def)
  then have run: "ObjectStore.store_run (?ops @ ops) (objectStore_m s) = ObjectStore.store_run ops os4" for ops
    by (simp add: ObjectStore.store_run_def)
  show "grows s (s\<lparr>objectStore_m := os4\<rparr>)" "grows s (s\<lparr>objectStore_m := v_put_object os4 old ob\<rparr>)"
    "grows s (s\<lparr>objectStore_m := snd (v_destroy_object (snd (v_destroy_object os4 g)) k)\<rparr>)"
    using grows_store_run [of "?ops @ []" s] grows_store_run [of "?ops @ [Put old ob]" s]
      grows_store_run [of "?ops @ [Destroy g, Destroy k]" s]
    unfolding run by (simp_all add: ObjectStore.store_run_def creations_def)
qed

lemma set_attribute_touches: "touches moves st h (snd (C_SetAttributeValue st h k t))"
  by (auto simp: C_SetAttributeValue_def split_beta Let_def touches_refl moves_put
      intro!: put_store_touches intro: moves_trans [OF moves_put moves_reindex, of s for s, simplified]
      split: option.split prod.split)

lemma destroy_touches: "touches moves st h (snd (C_DestroyObject env st h k))"
  by (simp add: C_DestroyObject_def split_beta Let_def touch put_store_touches moves_destroy split: option.split)

lemma find_touches:
  "touches moves st h (snd (C_FindObjectsInit st h t))"
  "touches moves st h (snd (snd (C_FindObjects st h n r)))"
  "touches moves st h (snd (C_FindObjectsFinal st h))"
  by (simp_all add: C_FindObjectsInit_def C_FindObjects_def C_FindObjectsFinal_def split_beta Let_def touches_refl
      touches_put moves_ops split: option.split)

lemma create_touches:
  "touches grows st h (snd (snd (C_CreateObject st h t r)))"
  "touches grows st h (snd (snd (C_CopyObject st h k t r)))"
  by (auto simp: C_CreateObject_def C_CopyObject_def Let_def touches_refl grows_create_put
      intro!: put_store_touches split: option.split prod.split)

lemma object_step_touches: "touches grows st h (object_step c h st)"
  by (cases c) (simp_all add: create_touches touches_mono [OF destroy_touches moves_grows]
      touches_mono [OF set_attribute_touches moves_grows] touches_mono [OF find_touches(1) moves_grows]
      touches_mono [OF find_touches(2) moves_grows] touches_mono [OF find_touches(3) moves_grows])

lemma generate_pair_touches: "touches grows st h (snd (snd (p11_generate_and_store_keypair ke st h mech t u old)))"
proof (cases "p11_get_session st h")
  case (Some s)
  show ?thesis
    by (auto simp: p11_generate_and_store_keypair_def Some Let_def touches_refl put_store_def
        intro!: touches_publish(3) touches_put intro: grows_pair [OF _ _ refl] split: option.split prod.split sum.split)
qed (simp add: p11_generate_and_store_keypair_def touches_refl)

lemma create_from_raw_touches: "touches grows st h (snd (snd (create_from_raw evp st h raw t)))"
  by (auto simp: create_from_raw_def Let_def touches_refl intro!: put_store_touches
      dest: create_with_template_grows split: option.split prod.split)

lemma unwrap_touches: "touches grows st h (snd (snd (C_UnwrapKey ke st h m u p n t r)))"
proof -
  have "touches grows st h st'" if "create_from_raw evp st h raw t = (rv, g, st')" for evp raw rv g st'
    using create_from_raw_touches [of st h evp raw t] that by simp
  then show ?thesis
    by (auto simp: C_UnwrapKey_def Let_def touches_refl intro!: touches_publish(1) split: option.split prod.split)
qed

lemma wrap_touches: "touches moves st h (snd (snd (snd (C_WrapKey ke st h m w k b l))))"
  by (auto simp: C_WrapKey_def Let_def touches_refl intro!: touches_publish(1) split: option.split prod.split)

lemma generate_touches: "touches grows st h (snd (snd (C_GenerateKey ke st h m t r)))"
  by (auto simp: C_GenerateKey_def Let_def touches_refl intro!: touches_publish(3) touches_put
      dest: create_with_template_grows split: option.split prod.split)

lemma derive_touches: "touches grows st h (snd (snd (C_DeriveKey ke st h m k t r)))"
  by (auto simp: C_DeriveKey_def Let_def touches_refl intro!: touches_publish(1) put_store_touches
      dest: create_with_template_grows split: option.split prod.split)

lemma key_step_touches: "touches grows st h (key_step c h st)"
  by (cases c) (simp_all add: generate_touches derive_touches unwrap_touches generate_pair_touches touches_refl
      touches_mono [OF wrap_touches moves_grows] C_GenerateKeyPair_def p11_rotate_keypair_def Let_def split: option.split)

subsection \<open>Tokens\<close>

lemma manager_tokens_put: "manager_tokens (v_put_slot m i (insert_token sl t)) \<subseteq> insert t (manager_tokens m)"
  by (fastforce simp: manager_tokens_def v_put_slot_def insert_token_def split: if_splits)

lemma put_slot_manager_tokens: "p11_tokens (put_slot_manager st m) \<subseteq> manager_tokens m \<union> p11_tokens st"
  by (auto simp: p11_tokens_def put_slot_manager_def split: slot_ptr.splits)

lemma global_manager_tokens: "manager_tokens (global_slot_manager st) \<subseteq> p11_tokens st"
  by (auto simp: p11_tokens_def global_slot_manager_def manager_tokens_def split: slot_ptr.splits)

lemma put_token_tokens: "p11_tokens (p11_put_token st i t) \<subseteq> insert t (p11_tokens st)"
proof (cases "p11_get_slot st i")
  case (Some sl)
  then show ?thesis
    using put_slot_manager_tokens [of st "v_put_slot (global_slot_manager st) i (insert_token sl t)"]
      manager_tokens_put [of "global_slot_manager st" i sl t] global_manager_tokens [of st]
    by (auto simp: p11_put_token_def)
qed (auto simp: p11_put_token_def)

lemma put_token_sessions [simp]: "g_sessionManager (p11_put_token st i t) = g_sessionManager st"
  by (simp add: p11_put_token_def put_slot_manager_def split: option.split slot_ptr.split)

lemma get_token_mem: "p11_get_token st i = Some t \<Longrightarrow> t \<in> p11_tokens st"
  using global_manager_tokens [of st]
  by (auto simp: p11_get_token_def v_get_slot_def manager_tokens_def dest!: map_of_SomeD split: option.splits)

lemma session_token_mem: "p11_get_token_for_session st h = Some t \<Longrightarrow> t \<in> p11_tokens st"
  by (auto simp: p11_get_token_for_session_def get_token_mem split: option.splits)

lemma token_ops_inv:
  assumes "token_inv t"
  shows "readable p n \<Longrightarrow> token_inv (snd (initialize_user_pin t p n))"
    and "readable p n \<Longrightarrow> token_inv (snd (initialize_so_pin t p n))"
    and "readable q k \<Longrightarrow> token_inv (snd (set_user_pin t p n q k))"
    and "readable q k \<Longrightarrow> token_inv (snd (change_user_pin t p n q k))"
    and "token_inv (snd (login t u p n))"
  using assms by (simp_all add: initialize_user_pin_def initialize_so_pin_def set_user_pin_def change_user_pin_def
      login_def token_inv_init_user token_inv_init_so token_inv_set_user token_inv_login)

subsection \<open>The invariant\<close>

lemma p11_inv_put_token:
  assumes "p11_inv st" "token_inv t"
  shows "p11_inv (p11_put_token st i t)"
  using assms put_token_tokens [of st i t] by (auto simp: p11_inv_def)

lemma p11_inv_session_token:
  "p11_inv st \<Longrightarrow> p11_get_token_for_session st h = Some t \<Longrightarrow> token_inv t"
  by (auto simp: p11_inv_def dest: session_token_mem)

lemma p11_tokens_frame:
  "g_slot_manager st' = g_slot_manager st \<Longrightarrow> slot_fallback st' = slot_fallback st \<Longrightarrow> p11_tokens st' = p11_tokens st"
  by (simp add: p11_tokens_def)

lemma touches_inv_general:
  assumes "touches P st h st'" "p11_inv st"
    and "\<And>s s'. p11_get_session st h = Some s \<Longrightarrow> P s s' \<Longrightarrow> session_reachable s \<Longrightarrow> session_reachable s'"
  shows "p11_inv st'"
proof -
  have tok: "p11_tokens st' = p11_tokens st" by (rule p11_tokens_frame) (use assms(1) in \<open>simp_all add: touches_def\<close>)
  show ?thesis
  proof (cases "g_sessionManager st' = g_sessionManager st")
    case True
    then show ?thesis using tok assms(2) by (simp add: p11_inv_def)
  next
    case False
    then obtain s s' where s: "p11_get_session st h = Some s" "handle_m s' = h" "P s s'"
      and m: "g_sessionManager st' = v_put_session (g_sessionManager st) h s'"
      using assms(1) by (auto simp: touches_def)
    have "session_reachable s" using assms(2) s(1) by (auto simp: p11_inv_def p11_get_session_def dest: get_session_Some)
    then have "session_reachable s'" using s assms(3) by blast
    moreover have "s'\<lparr>handle_m := h\<rparr> = s'" using s(2) by (cases s') simp
    then have "registry_inv (v_put_session (g_sessionManager st) h s')"
      using registry_put [of "g_sessionManager st" h s'] assms(2) by (simp add: p11_inv_def)
    ultimately show ?thesis using tok m assms(2) by (auto simp: p11_inv_def v_put_session_def)
  qed
qed

lemma touches_inv:
  "touches grows st h st' \<Longrightarrow> p11_inv st \<Longrightarrow> (\<And>s. p11_get_session st h = Some s \<Longrightarrow> two_free s) \<Longrightarrow> p11_inv st'"
  by (erule touches_inv_general) (auto simp: grows_def)

lemma touches_inv_moves: "touches moves st h st' \<Longrightarrow> p11_inv st \<Longrightarrow> p11_inv st'"
  by (erule touches_inv_general) (auto simp: moves_def)

lemma find_put:
  "handle_m s' = h \<Longrightarrow> g \<noteq> h \<Longrightarrow>
   find (\<lambda>x. handle_m x = g) (map (\<lambda>x. if handle_m x = h then s' else x) xs) = find (\<lambda>x. handle_m x = g) xs"
  by (induction xs) auto

lemma touches_isolates:
  assumes "touches P st h st'" "g \<noteq> h"
  shows "p11_get_session st' g = p11_get_session st g"
  using assms p11_get_put_session [of st h]
  by (auto simp: touches_def p11_get_session_def p11_put_session_def)

lemma p11_inv_frame [simp]:
  "p11_inv (st\<lparr>login_throttle := th\<rparr>) = p11_inv st"
  "p11_inv (p11_publish_event env st a b c d e f g i j) = p11_inv st"
  by (simp_all add: p11_inv_def p11_tokens_def)

lemma login_call_inv:
  assumes "p11_inv st"
  shows "p11_inv (snd (snd (C_Login env st h u p n)))"
proof (cases "p11_get_token_for_session st h")
  case (Some tok)
  then obtain s where s: "p11_get_session st h = Some s" by (auto simp: p11_get_token_for_session_def split: option.splits)
  define st1 where "st1 th = (p11_put_token st (slotID_m s) (snd (login tok u p n)))\<lparr>login_throttle := th\<rparr>" for th
  have inv1: "p11_inv (st1 th)" for th
    using p11_inv_put_token [OF assms] token_ops_inv(5) [OF p11_inv_session_token [OF assms Some]] by (simp add: st1_def)
  have "touches moves (st1 th) h (p11_put_session (st1 th) h (snd (session_login s u)))" for th
    using s by (intro touches_put [where s = s]) (simp_all add: st1_def p11_get_session_def moves_ops)
  then have "p11_inv (p11_put_session (st1 th) h (snd (session_login s u)))" for th
    using touches_inv_moves inv1 by blast
  then show ?thesis
    using assms inv1 s Some by (auto simp: C_Login_def Let_def split_beta publish_lockout_def st1_def)
qed (use assms in \<open>simp add: C_Login_def\<close>)

lemma logout_touches: "touches moves st h (snd (C_Logout st h))"
  by (auto simp: C_Logout_def Let_def touches_refl intro!: touches_put
      intro: moves_trans [OF moves_trans [OF moves_ops(2) moves_ops(4)] moves_ops(11)] split: option.split)

lemma login_step_inv:
  assumes "p11_inv st" "\<And>p n. c = InitPIN p n \<Longrightarrow> readable p n" "\<And>p n q k. c = SetPIN p n q k \<Longrightarrow> readable q k"
  shows "p11_inv (login_step c h st)"
proof (cases c)
  case (InitPIN p n)
  then show ?thesis using assms(1) p11_inv_session_token [OF assms(1), of h] assms(2) [OF InitPIN]
    by (auto simp: C_InitPIN_def split_beta Let_def put_session_token_def token_ops_inv
        intro!: p11_inv_put_token split: option.split)
next
  case (SetPIN p n q k)
  then show ?thesis using assms(1) p11_inv_session_token [OF assms(1), of h] assms(3) [OF SetPIN]
    by (auto simp: C_SetPIN_def split_beta Let_def put_session_token_def token_ops_inv
        intro!: p11_inv_put_token split: option.split)
next
  case CloseSession
  then show ?thesis using assms(1)
    by (auto simp: C_CloseSession_def split_beta Let_def p11_inv_def close_session_eq registry_filter p11_tokens_def)
next
  case Logout
  then show ?thesis using touches_inv_moves [OF logout_touches] assms(1) by simp
next
  case (Login env u p n)
  then show ?thesis using login_call_inv [OF assms(1)] by simp
qed

lemma finalize_inv: "p11_inv st \<Longrightarrow> p11_inv (snd (C_Finalize sc io st r))"
  by (auto simp: C_Finalize_def Let_def p11_inv_def p11_tokens_def put_slot_manager_def v_reset_def manager_tokens_def
      split: slot_ptr.split)

lemma initialize_inv:
  assumes "p11_inv st" "\<And>con fs. c = Inr (con, fs) \<Longrightarrow> \<forall>t\<in>manager_tokens (c_slot_manager con). token_inv t"
  shows "p11_inv (snd (C_Initialize st c f k))"
  using assms by (auto simp: C_Initialize_def Let_def p11_inv_def p11_tokens_def split: sum.split prod.split)

lemma init_token_inv: "p11_inv st \<Longrightarrow> readable p n \<Longrightarrow> p11_inv (snd (C_InitToken st sl p n))"
  using get_token_mem [of st sl]
  by (auto simp: C_InitToken_def Let_def split_beta p11_inv_def [of st] intro!: p11_inv_put_token token_ops_inv split: option.split)

lemma open_session_inv:
  assumes "p11_inv st" "v_next_session_id (g_sessionManager st) < 0xFFFFFFFFFFFFFFFF"
  shows "p11_inv (snd (snd (C_OpenSession st sl fl a n r)))"
proof -
  let ?m = "g_sessionManager st"
  have m: "registry_inv ?m" "0 < v_next_session_id ?m" using assms(1) by (simp_all add: p11_inv_def)
  have "registry_inv (snd (snd (v_open_session ?m sl fl a n)))" by (rule registry_open) (use m assms(2) in simp_all)
  moreover have "0 < v_next_session_id ?m + 1"
    using unat_plus_one [OF assms(2)] by (simp add: word_gt_0_no word_less_nat_alt)
  ultimately show ?thesis using assms(1) session_reachable.new
    by (auto simp: C_OpenSession_def openSession_def Let_def split_beta p11_inv_def open_session_eq [OF m(2)] p11_tokens_def)
qed

lemma close_all_inv: "p11_inv st \<Longrightarrow> p11_inv (snd (C_CloseAllSessions st sl))"
  by (auto simp: C_CloseAllSessions_def Let_def split_beta v_close_all_sessions_def p11_inv_def registry_filter p11_tokens_def)

lemma p11_step_inv:
  assumes "p11_inv st" "call_ok c st"
  shows "p11_inv (p11_step c st)"
proof (cases c)
  case (LoginCall h lc)
  then show ?thesis using assms by (auto simp: call_ok_def intro!: login_step_inv)
next
  case (ObjectCall h oc)
  then show ?thesis using assms touches_inv [OF object_step_touches] by (auto simp: call_ok_def)
next
  case (CryptoCall h cc)
  then show ?thesis using assms touches_inv_moves [OF crypto_step_touches] by simp
next
  case (KeyCall h kc)
  then show ?thesis using assms touches_inv [OF key_step_touches] by (auto simp: call_ok_def)
next
  case (Initialize con f k)
  then show ?thesis using assms by (auto simp: call_ok_def intro!: initialize_inv)
qed (use assms in \<open>simp_all add: call_ok_def finalize_inv init_token_inv open_session_inv close_all_inv\<close>)

lemma p11_inv_initial: "p11_inv (initial_P11 fs db)"
  by (simp add: initial_P11_def p11_inv_def new_SessionManager_def registry_inv_def p11_tokens_def manager_tokens_def)

lemma p11_run_inv: "p11_inv st \<Longrightarrow> calls_ok cs st \<Longrightarrow> p11_inv (p11_run cs st)"
  by (induction cs arbitrary: st) (simp_all add: p11_run_def p11_step_inv)

subsection \<open>Isolation\<close>

lemma find_close:
  "g \<noteq> h \<Longrightarrow> find (\<lambda>s. handle_m s = g) (takeWhile (\<lambda>s. handle_m s \<noteq> h) xs @ tl (dropWhile (\<lambda>s. handle_m s \<noteq> h) xs)) =
     find (\<lambda>s. handle_m s = g) xs"
  by (induction xs) auto

lemma login_step_isolates:
  assumes "g \<noteq> h"
  shows "p11_get_session (login_step c h st) g = p11_get_session st g"
proof (cases c)
  case CloseSession
  then show ?thesis using assms
    by (simp add: C_CloseSession_def split_beta Let_def v_close_session_def p11_get_session_def v_get_session_def find_close)
next
  case Logout
  then show ?thesis using assms touches_isolates [OF logout_touches] by simp
next
  case (Login env u p n)
  have "v_get_session (v_put_session m h s') g = v_get_session m g" if "handle_m s' = h" for m s'
    using that assms by (auto simp: v_put_session_def v_get_session_def intro: find_put)
  then show ?thesis
    using Login assms by (auto simp: C_Login_def Let_def split_beta publish_lockout_def p11_get_session_def p11_put_session_def
        dest: get_session_Some split: option.split)
qed (auto simp: C_InitPIN_def C_SetPIN_def Let_def split_beta put_session_token_def p11_get_session_def split: option.split)

lemma find_append: "find P (xs @ ys) = (case find P xs of None \<Rightarrow> find P ys | Some x \<Rightarrow> Some x)"
  by (induction xs) auto

lemma open_session_keeps:
  "p11_get_session st g = Some s \<Longrightarrow> p11_get_session (snd (snd (C_OpenSession st sl fl a n r))) g = Some s"
  by (auto simp: C_OpenSession_def openSession_def v_open_session_def Let_def split_beta p11_get_session_def
      v_get_session_def find_append split: option.split)

lemma close_all_keeps:
  assumes "p11_get_session st g = Some s" "slotID_m s \<noteq> sl"
  shows "p11_get_session (snd (C_CloseAllSessions st sl)) g = Some s"
proof -
  have "find (\<lambda>x. handle_m x = g) (filter (\<lambda>x. slotID_m x \<noteq> sl) xs) = Some s"
    if "find (\<lambda>x. handle_m x = g) xs = Some s" for xs
    using that assms(2) by (induction xs) (auto split: if_splits)
  then show ?thesis using assms(1)
    by (simp add: C_CloseAllSessions_def v_close_all_sessions_def Let_def split_beta p11_get_session_def v_get_session_def)
qed

lemma module_calls_keep:
  "p11_get_session (snd (C_Initialize st c f k)) g = p11_get_session st g"
  "p11_get_session (snd (C_Finalize sc io st r)) g = p11_get_session st g"
  "p11_get_session (snd (C_InitToken st sl p n)) g = p11_get_session st g"
  by (simp_all add: C_Initialize_def C_Finalize_def C_InitToken_def Let_def split_beta p11_get_session_def
      put_slot_manager_def split: sum.split option.split slot_ptr.split)

lemma p11_step_isolates:
  assumes "p11_get_session st g = Some s" "call_session c \<noteq> Some g" "c \<noteq> CloseAllSessions (slotID_m s)"
  shows "p11_get_session (p11_step c st) g = Some s"
  using assms
  by (cases c) (auto simp: login_step_isolates touches_isolates [OF object_step_touches]
      touches_isolates [OF crypto_step_touches] touches_isolates [OF key_step_touches] open_session_keeps
      close_all_keeps module_calls_keep)

lemma p11_run_isolates:
  "p11_get_session st g = Some s \<Longrightarrow> \<forall>c\<in>set cs. call_session c \<noteq> Some g \<and> c \<noteq> CloseAllSessions (slotID_m s) \<Longrightarrow>
   p11_get_session (p11_run cs st) g = Some s"
  by (induction cs arbitrary: st) (simp_all add: p11_run_def p11_step_isolates)

lemma session_info_state:
  assumes "p11_get_session st h = Some s" "session_inv s"
  shows "\<exists>i. C_GetSessionInfo st h True = (CKR_OK, Some i) \<and> si_slotID i = slotID_m s \<and> si_state i = state_m s"
  using assms by (simp add: C_GetSessionInfo_def session_inv_def session_state_of_def is_rw_def Let_def)

subsection \<open>Properties\<close>





end
