(* ===== verification/AuditLog.thy ===== *)
theory AuditLog
  imports Codec
begin

text \<open>
  The hash-chained audit log: audit/audit\_log.cpp.  HMAC-SHA256 of vhsm::scrypto is the parameter
  \<open>hmac\<close>.  The audit file is its text; \<open>fgets\<close> reads from it with the buffer sizes of the source, so
  a line longer than the buffer is read in pieces, and the conversion of the buffer to a string stops
  at a NUL.  The time stamp is an argument.  The outcome of the write is an argument too: whether the
  file could be opened, how many characters reached it, and whether flush and fsync succeeded.
  The metrics gauge and the tail publisher are not modelled.
\<close>

abbreviation (input) BAR :: char where "BAR \<equiv> CHR ''|''"

abbreviation (input) NL :: char where "NL \<equiv> CHR 0x0A"

definition kHexDigestLen :: nat where "kHexDigestLen = 64"

record HashChainedAuditLog =
  chain_key_m :: bytes
  seq_m :: u64
  tail_hex_m :: string

record append_io =
  io_open :: bool
  io_written :: nat
  io_synced :: bool

subsection \<open>Reading lines\<close>

definition first_line :: "string \<Rightarrow> string" where
  "first_line s = (let pre = takeWhile (\<lambda>c. c \<noteq> NL) s in pre @ (if pre = s then [] else [NL]))"

definition fgets :: "nat \<Rightarrow> string \<Rightarrow> (string \<times> string) option" where
  "fgets bufsize s =
     (if s = [] then None
      else let line = take (bufsize - 1) (first_line s) in Some (line, drop (length line) s))"

definition line_text :: "string \<Rightarrow> string" where
  "line_text raw =
     (let s = takeWhile (\<lambda>c. c \<noteq> CHR 0x00) raw in
      if s \<noteq> [] \<and> last s = NL then butlast s else s)"

definition isspace :: "char \<Rightarrow> bool" where
  "isspace c = (c = CHR '' '' \<or> (9 \<le> (of_char c :: nat) \<and> (of_char c :: nat) \<le> 13))"

definition strtoull :: "string \<Rightarrow> u64" where
  "strtoull s0 =
     (let s = dropWhile isspace s0;
          neg = (s \<noteq> [] \<and> hd s = CHR ''-'');
          d = (if s \<noteq> [] \<and> (hd s = CHR ''-'' \<or> hd s = CHR ''+'') then tl s else s);
          v = string_value (takeWhile is_digit_char d) in
      if 2 ^ 64 \<le> v then 0xFFFFFFFFFFFFFFFF
      else if neg then - of_nat v else of_nat v)"

text \<open>The part behind the last bar.\<close>

definition after_last_bar :: "string \<Rightarrow> string" where
  "after_last_bar s = rev (takeWhile (\<lambda>c. c \<noteq> BAR) (rev s))"

definition recover_line :: "string \<Rightarrow> u64 \<times> string \<Rightarrow> u64 \<times> string" where
  "recover_line s st =
     (if BAR \<notin> set s then st
      else (strtoull (takeWhile (\<lambda>c. c \<noteq> BAR) s), after_last_bar s))"

lemma first_line_Nil [simp]: "first_line s = [] \<longleftrightarrow> s = []"
  by (cases s) (auto simp: first_line_def Let_def)

lemma fgets_shorter:
  assumes "fgets bufsize s = Some (line, rest)" "1 < bufsize"
  shows "length rest < length s"
proof -
  have s: "s \<noteq> []" "rest = drop (length (take (bufsize - 1) (first_line s))) s"
    using assms(1) by (auto simp: fgets_def Let_def split: if_splits)
  have "take (bufsize - 1) (first_line s) \<noteq> []" using s(1) assms(2) by simp
  then have "0 < length (take (bufsize - 1) (first_line s))" by (rule length_greater_0_conv [THEN iffD2])
  then show ?thesis using s by (simp del: length_take)
qed

function recover_loop :: "string \<Rightarrow> u64 \<times> string \<Rightarrow> u64 \<times> string" where
  "recover_loop file st = (case fgets 1024 file of
     None \<Rightarrow> st
   | Some (raw, rest) \<Rightarrow> recover_loop rest (recover_line (line_text raw) st))"
  by pat_completeness auto

termination
  by (relation "measure (\<lambda>(file, st). length file)") (auto dest: fgets_shorter)

definition new_HashChainedAuditLog :: "bytes \<Rightarrow> string option \<Rightarrow> HashChainedAuditLog" where
  "new_HashChainedAuditLog key file =
     (let (s, t) = (case file of None \<Rightarrow> (0, replicate kHexDigestLen (CHR ''0''))
                    | Some f \<Rightarrow> recover_loop f (0, replicate kHexDigestLen (CHR ''0''))) in
      \<lparr>chain_key_m = key, seq_m = s, tail_hex_m = t\<rparr>)"

subsection \<open>Appending\<close>

definition chain_hmac :: "(bytes \<Rightarrow> bytes \<Rightarrow> bytes) \<Rightarrow> bytes \<Rightarrow> string \<Rightarrow> bytes" where
  "chain_hmac hmac key record_bytes = hmac key (map (\<lambda>c. word_of_nat (of_char c)) record_bytes)"

definition audit_append ::
  "(bytes \<Rightarrow> bytes \<Rightarrow> bytes) \<Rightarrow> string \<Rightarrow> append_io \<Rightarrow> string option \<Rightarrow> HashChainedAuditLog \<Rightarrow> string \<Rightarrow> string \<Rightarrow>
   CK_RV \<times> string option \<times> HashChainedAuditLog" where
  "audit_append hmac ts io file log event_id event_type =
     (let log1 = log\<lparr>seq_m := seq_m log + 1\<rparr>;
          record_bytes = to_string (unat (seq_m log1)) @ [BAR] @ ts @ [BAR] @ event_id @ [BAR] @
            event_type @ [BAR] @ tail_hex_m log1;
          hex = hex_encode (chain_hmac hmac (chain_key_m log1) record_bytes);
          line = record_bytes @ [BAR] @ hex @ [NL] in
      if \<not> io_open io then (CKR_FUNCTION_FAILED, file, log1)
      else let file1 = Some ((case file of None \<Rightarrow> [] | Some f \<Rightarrow> f) @ take (io_written io) line) in
        if \<not> (length line \<le> io_written io \<and> io_synced io) then (CKR_FUNCTION_FAILED, file1, log1)
        else (CKR_OK, file1, log1\<lparr>tail_hex_m := hex\<rparr>))"

subsection \<open>Verifying\<close>

fun split_fields :: "nat \<Rightarrow> string \<Rightarrow> string list" where
  "split_fields 0 s = [s]"
| "split_fields (Suc n) s =
     (if BAR \<notin> set s then []
      else takeWhile (\<lambda>c. c \<noteq> BAR) s # split_fields n (tl (dropWhile (\<lambda>c. c \<noteq> BAR) s)))"

definition check_line :: "(bytes \<Rightarrow> bytes \<Rightarrow> bytes) \<Rightarrow> bytes \<Rightarrow> string \<Rightarrow> string \<Rightarrow> string option" where
  "check_line hmac key prev s =
     (let parts = split_fields 5 s in
      if length parts \<noteq> 6 \<or> length (parts ! 5) \<noteq> kHexDigestLen \<or> parts ! 4 \<noteq> prev then None
      else let record_bytes = parts ! 0 @ [BAR] @ parts ! 1 @ [BAR] @ parts ! 2 @ [BAR] @ parts ! 3 @ [BAR] @ parts ! 4 in
        if hex_encode (chain_hmac hmac key record_bytes) \<noteq> parts ! 5 then None else Some (parts ! 5))"

function verify_loop :: "(bytes \<Rightarrow> bytes \<Rightarrow> bytes) \<Rightarrow> bytes \<Rightarrow> string \<Rightarrow> nat \<Rightarrow> string \<Rightarrow> nat + string" where
  "verify_loop hmac key prev lineno file = (case fgets 2048 file of
     None \<Rightarrow> Inr prev
   | Some (raw, rest) \<Rightarrow> (case check_line hmac key prev (line_text raw) of
       None \<Rightarrow> Inl (lineno + 1)
     | Some prev' \<Rightarrow> verify_loop hmac key prev' (lineno + 1) rest))"
  by pat_completeness auto

termination
  by (relation "measure (\<lambda>(hmac, key, prev, lineno, file). length file)") (auto dest: fgets_shorter)

definition verify_chain :: "(bytes \<Rightarrow> bytes \<Rightarrow> bytes) \<Rightarrow> bytes \<Rightarrow> string option \<Rightarrow> nat option" where
  "verify_chain hmac key file = (case file of
     None \<Rightarrow> None
   | Some f \<Rightarrow> (case verify_loop hmac key (replicate kHexDigestLen (CHR ''0'')) 0 f of
       Inl n \<Rightarrow> Some n
     | Inr _ \<Rightarrow> None))"

subsection \<open>Specification notions\<close>

definition genesis :: string where
  "genesis = replicate kHexDigestLen (CHR ''0'')"

text \<open>HMAC-SHA256 yields 32 bytes.\<close>

definition hmac_len :: "(bytes \<Rightarrow> bytes \<Rightarrow> bytes) \<Rightarrow> bool" where
  "hmac_len hmac = (\<forall>k d. length (hmac k d) = 32)"

definition field_ok :: "string \<Rightarrow> bool" where
  "field_ok s = (BAR \<notin> set s \<and> NL \<notin> set s \<and> CHR 0x00 \<notin> set s)"

definition ends_nl :: "string \<Rightarrow> bool" where
  "ends_nl f = (f = [] \<or> last f = NL)"

definition file_text :: "string option \<Rightarrow> string" where
  "file_text file = (case file of None \<Rightarrow> [] | Some f \<Rightarrow> f)"

text \<open>
  What a log object and its file agree on: the file is a verified chain whose last digest is the
  recorded tail, and re-opening the file recovers the recorded sequence number and tail.
\<close>

definition log_ok :: "(bytes \<Rightarrow> bytes \<Rightarrow> bytes) \<Rightarrow> HashChainedAuditLog \<Rightarrow> string option \<Rightarrow> bool" where
  "log_ok hmac log file =
     (let f = file_text file in
      ends_nl f \<and> field_ok (tail_hex_m log) \<and> length (tail_hex_m log) = kHexDigestLen \<and>
      verify_loop hmac (chain_key_m log) genesis 0 f = Inr (tail_hex_m log) \<and>
      recover_loop f (0, genesis) = (seq_m log, tail_hex_m log))"

definition io_ok :: "append_io \<Rightarrow> bool" where
  "io_ok io = (io_open io \<and> 1024 \<le> io_written io \<and> io_synced io)"

text \<open>The line an append writes (without its newline) and its digest.\<close>

definition audit_digest :: "(bytes \<Rightarrow> bytes \<Rightarrow> bytes) \<Rightarrow> string \<Rightarrow> HashChainedAuditLog \<Rightarrow> string \<Rightarrow> string \<Rightarrow> string" where
  "audit_digest hmac ts log event_id event_type =
     hex_encode (chain_hmac hmac (chain_key_m log)
       (to_string (unat (seq_m log + 1)) @ BAR # ts @ BAR # event_id @ BAR # event_type @ BAR # tail_hex_m log))"

definition audit_line :: "(bytes \<Rightarrow> bytes \<Rightarrow> bytes) \<Rightarrow> string \<Rightarrow> HashChainedAuditLog \<Rightarrow> string \<Rightarrow> string \<Rightarrow> string" where
  "audit_line hmac ts log event_id event_type =
     to_string (unat (seq_m log + 1)) @ BAR # ts @ BAR # event_id @ BAR # event_type @ BAR # tail_hex_m log @ BAR #
     audit_digest hmac ts log event_id event_type"

definition record_part :: "string \<Rightarrow> string" where
  "record_part l = take (length l - 65) l"

fun check_lines :: "(bytes \<Rightarrow> bytes \<Rightarrow> bytes) \<Rightarrow> bytes \<Rightarrow> string \<Rightarrow> string list \<Rightarrow> string option" where
  "check_lines hmac key prev [] = Some prev"
| "check_lines hmac key prev (l # ls) = (case check_line hmac key prev l of
     None \<Rightarrow> None
   | Some prev' \<Rightarrow> check_lines hmac key prev' ls)"

definition event_ok :: "string \<Rightarrow> string \<Rightarrow> string \<Rightarrow> bool" where
  "event_ok ts event_id event_type =
     (field_ok ts \<and> field_ok event_id \<and> field_ok event_type \<and>
      length ts + length event_id + length event_type \<le> 800)"

definition tail_ok :: "HashChainedAuditLog \<Rightarrow> bool" where
  "tail_ok log = (field_ok (tail_hex_m log) \<and> length (tail_hex_m log) = kHexDigestLen)"

definition plain_hmac :: "bytes \<Rightarrow> bytes \<Rightarrow> bytes" where
  "plain_hmac k d = take 32 (1 # d @ replicate 32 0)"

definition sample_line :: string where
  "sample_line = audit_line plain_hmac ''t'' (new_HashChainedAuditLog [] None) ''id'' ''E''"

text \<open>The lines of an audit file as the verifier reads them, and the authenticated part of a line.\<close>

function audit_lines :: "string \<Rightarrow> string list" where
  "audit_lines f = (case fgets 2048 f of None \<Rightarrow> [] | Some (raw, rest) \<Rightarrow> line_text raw # audit_lines rest)"
  by pat_completeness auto

termination
  by (relation "measure length") (auto dest: fgets_shorter)

declare recover_loop.simps [simp del] verify_loop.simps [simp del] audit_lines.simps [simp del]

subsection \<open>Reading appended text\<close>

lemma first_line_append: "NL \<in> set f \<Longrightarrow> first_line (f @ g) = first_line f"
proof -
  assume "NL \<in> set f"
  then obtain xs ys where "f = xs @ NL # ys" "NL \<notin> set xs" by (metis split_list_first)
  then show ?thesis by (simp add: first_line_def Let_def takeWhile_append)
qed

lemma first_line_prefix: "take (length (first_line f)) f = first_line f"
proof (cases "NL \<in> set f")
  case True
  then obtain xs ys where f: "f = xs @ NL # ys" "NL \<notin> set xs" by (metis split_list_first)
  then have "takeWhile (\<lambda>c. c \<noteq> NL) f = xs" by (simp add: takeWhile_append)
  then show ?thesis using f by (simp add: first_line_def Let_def)
next
  case False
  then have e: "takeWhile (\<lambda>c. c \<noteq> NL) f = f" by (auto simp: takeWhile_eq_all_conv)
  show ?thesis unfolding first_line_def Let_def e by simp
qed

lemma length_first_line: "length (first_line f) \<le> length f"
  using first_line_prefix [of f] by (metis nat_le_linear take_all_iff length_take min.cobounded1)

lemma fgets_append:
  assumes "ends_nl f" "fgets b f = Some (l, r)"
  shows "fgets b (f @ g) = Some (l, r @ g) \<and> ends_nl r"
proof -
  have f: "f \<noteq> []" "l = take (b - 1) (first_line f)" "r = drop (length l) f"
    using assms(2) by (auto simp: fgets_def Let_def split: if_splits)
  then have "last f = NL" "NL \<in> set f" using assms(1) last_in_set [of f] by (auto simp: ends_nl_def)
  then have "first_line (f @ g) = first_line f" by (simp add: first_line_append)
  moreover have "length l \<le> length f" using f(2) length_first_line [of f] by simp
  moreover have "ends_nl r" using \<open>last f = NL\<close> f(3)
    by (cases "length f \<le> length l") (auto simp: ends_nl_def last_drop)
  ultimately show ?thesis using f by (simp add: fgets_def)
qed

lemma fgets_None: "fgets b f = None \<longleftrightarrow> f = []"
  by (simp add: fgets_def Let_def)

lemma fgets_Nil [simp]: "fgets b [] = None"
  by (simp add: fgets_None)

lemma recover_loop_append:
  "ends_nl f \<Longrightarrow> recover_loop (f @ g) st = recover_loop g (recover_loop f st)"
proof (induction f st rule: recover_loop.induct)
  case (1 f st)
  show ?case
  proof (cases "fgets 1024 f")
    case (Some p)
    obtain l r where p: "p = (l, r)" by fastforce
    show ?thesis using 1 Some p fgets_append [OF "1.prems", of 1024 l r g]
      by (simp add: recover_loop.simps [of f] recover_loop.simps [of "f @ g"])
  qed (simp add: fgets_None recover_loop.simps [of "[]"])
qed

lemma verify_loop_append:
  "ends_nl f \<Longrightarrow> verify_loop hmac key p n f = Inr q \<Longrightarrow>
   \<exists>m. verify_loop hmac key p n (f @ g) = verify_loop hmac key q m g"
proof (induction hmac key p n f rule: verify_loop.induct)
  case (1 hmac key p n f)
  show ?case
  proof (cases "fgets 2048 f")
    case None
    then show ?thesis using 1 by (auto simp: fgets_None verify_loop.simps [of _ _ _ _ "[]"])
  next
    case (Some pr)
    obtain l r where p: "pr = (l, r)" by fastforce
    then obtain p' where c: "check_line hmac key p (line_text l) = Some p'"
      using "1.prems"(2) Some by (auto simp: verify_loop.simps [of _ _ _ _ f] split: option.splits)
    have a: "fgets 2048 (f @ g) = Some (l, r @ g)" "ends_nl r"
      using fgets_append [OF "1.prems"(1), of 2048 l r g] Some p by simp_all
    have "verify_loop hmac key p' (n + 1) r = Inr q"
      using "1.prems"(2) Some p c by (simp add: verify_loop.simps [of _ _ _ _ f])
    then obtain m where "verify_loop hmac key p' (n + 1) (r @ g) = verify_loop hmac key q m g"
      using "1.IH" [OF Some [unfolded p] refl c] a(2) by auto
    then show ?thesis using a(1) c by (auto simp: verify_loop.simps [of _ _ _ _ "f @ g"])
  qed
qed

lemma fgets_line:
  assumes "NL \<notin> set s" "length s + 1 < b"
  shows "fgets b (s @ [NL]) = Some (s @ [NL], [])"
proof -
  have "takeWhile (\<lambda>c. c \<noteq> NL) (s @ [NL]) = s" using assms(1) by (auto simp: takeWhile_append takeWhile_eq_all_conv)
  then show ?thesis using assms(2) by (simp add: fgets_def first_line_def Let_def)
qed

lemma line_text_line: "CHR 0x00 \<notin> set s \<Longrightarrow> line_text (s @ [NL]) = s"
  by (auto simp: line_text_def takeWhile_append takeWhile_eq_all_conv Let_def)

subsection \<open>Lines as they are appended\<close>

lemma hex_encode_chars: "c \<in> set (hex_encode bs) \<Longrightarrow> c \<in> set K_HEX_CHARS"
proof (induction bs)
  case (Cons b bs)
  have "length K_HEX_CHARS = 16" by (simp add: K_HEX_CHARS_def)
  then have "K_HEX_CHARS ! unat (drop_bit 4 b) \<in> set K_HEX_CHARS" "K_HEX_CHARS ! unat (b AND 0x0F) \<in> set K_HEX_CHARS"
    by simp_all
  then show ?case using Cons by auto
qed simp

lemma field_ok_hex [simp]: "field_ok (hex_encode bs)"
  using hex_encode_chars by (fastforce simp: field_ok_def K_HEX_CHARS_def)

lemma field_ok_genesis [simp]: "field_ok genesis"
  by (simp add: field_ok_def genesis_def)

lemma field_ok_to_string [simp]: "field_ok (to_string n)"
  using to_string_digits by (fastforce simp: field_ok_def is_digit_char_def)

lemma length_to_string: "n < 10 ^ k \<Longrightarrow> 0 < k \<Longrightarrow> length (to_string n) \<le> k"
proof (induction k arbitrary: n)
  case (Suc k)
  show ?case
  proof (cases "n < 10")
    case False
    then have "0 < k" using Suc.prems by (cases k) auto
    moreover have "n div 10 < 10 ^ k" using Suc.prems by (simp add: less_mult_imp_div_less mult.commute)
    ultimately show ?thesis using False Suc.IH by (simp add: to_string.simps [of n])
  qed (simp add: to_string.simps [of n])
qed simp

lemma length_to_string_u64: "length (to_string (unat (w :: u64))) \<le> 20"
proof (rule length_to_string)
  have "unat w < 2 ^ 64" using unsigned_less [of w] by simp
  then show "unat w < 10 ^ 20" by simp
qed simp

lemma split_at_bar:
  "BAR \<notin> set a \<Longrightarrow> takeWhile (\<lambda>c. c \<noteq> BAR) (a @ BAR # r) = a"
  "BAR \<notin> set a \<Longrightarrow> dropWhile (\<lambda>c. c \<noteq> BAR) (a @ BAR # r) = BAR # r"
  by (auto simp: takeWhile_append dropWhile_append)

lemma split_fields_bar: "BAR \<notin> set a \<Longrightarrow> split_fields (Suc n) (a @ BAR # r) = a # split_fields n r"
  by (simp add: split_at_bar)

lemma split_fields_line:
  assumes "field_ok a" "field_ok b" "field_ok c" "field_ok d" "field_ok e"
  shows "split_fields 5 (a @ BAR # b @ BAR # c @ BAR # d @ BAR # e @ BAR # h) = [a, b, c, d, e, h]"
proof -
  have "split_fields (Suc (Suc (Suc (Suc (Suc 0))))) (a @ BAR # b @ BAR # c @ BAR # d @ BAR # e @ BAR # h) =
    [a, b, c, d, e, h]"
    using assms by (simp only: split_fields_bar field_ok_def conj_commute simp_thms split_fields.simps(1))
  moreover have "5 = Suc (Suc (Suc (Suc (Suc 0))))" by simp
  ultimately show ?thesis by metis
qed

lemma after_last_bar_line: "BAR \<notin> set h \<Longrightarrow> after_last_bar (x @ BAR # h) = h"
  using split_at_bar(1) [of "rev h" "rev x"] by (simp add: after_last_bar_def)

lemma strtoull_to_string [simp]: "strtoull (to_string (unat w)) = w"
proof -
  obtain c cs where s: "to_string (unat w) = c # cs" by (cases "to_string (unat w)") auto
  have d: "\<forall>x\<in>set (to_string (unat w)). is_digit_char x" using to_string_digits by blast
  then have "is_digit_char c" using s by simp
  then have "\<not> isspace c" "c \<noteq> CHR ''-''" "c \<noteq> CHR ''+''" by (auto simp: is_digit_char_def isspace_def)
  moreover have "takeWhile is_digit_char (to_string (unat w)) = to_string (unat w)"
    using d by (simp add: takeWhile_eq_all_conv)
  moreover have "unat w < 2 ^ 64" using unsigned_less [of w] by simp
  ultimately show ?thesis using s string_value_to_string [of "unat w"]
    by (auto simp: strtoull_def Let_def)
qed

subsection \<open>Appending keeps the chain\<close>

lemma check_line_line:
  assumes "field_ok a" "field_ok b" "field_ok c" "field_ok d" "field_ok e" "hmac_len hmac"
    and h: "h = hex_encode (chain_hmac hmac key (a @ BAR # b @ BAR # c @ BAR # d @ BAR # e))"
  shows "check_line hmac key e (a @ BAR # b @ BAR # c @ BAR # d @ BAR # e @ BAR # h) = Some h"
proof -
  have "length h = 64" unfolding h by (simp add: chain_hmac_def assms(6) [unfolded hmac_len_def])
  moreover have "split_fields 5 (a @ BAR # b @ BAR # c @ BAR # d @ BAR # e @ BAR # h) = [a, b, c, d, e, h]"
    using assms(1-5) by (rule split_fields_line)
  ultimately show ?thesis using h [symmetric]
    by (simp add: check_line_def kHexDigestLen_def numeral_eq_Suc del: split_fields.simps)
qed

lemma verify_single:
  assumes "NL \<notin> set s" "CHR 0x00 \<notin> set s" "length s < 2047" "check_line hmac key p s = Some h"
  shows "verify_loop hmac key p n (s @ [NL]) = Inr h"
proof -
  have "fgets 2048 (s @ [NL]) = Some (s @ [NL], [])" using assms(1,3) by (intro fgets_line) simp_all
  then show ?thesis using assms(2,4) line_text_line [of s]
    by (simp add: verify_loop.simps [of _ _ _ _ "s @ [NL]"] verify_loop.simps [of _ _ _ _ "[]"])
qed

lemma recover_single:
  assumes "NL \<notin> set s" "CHR 0x00 \<notin> set s" "length s < 1023"
  shows "recover_loop (s @ [NL]) st = recover_line s st"
proof -
  have "fgets 1024 (s @ [NL]) = Some (s @ [NL], [])" using assms(1,3) by (intro fgets_line) simp_all
  then show ?thesis using assms(2) line_text_line [of s]
    by (simp add: recover_loop.simps [of "s @ [NL]"] recover_loop.simps [of "[]"])
qed

lemma recover_line_line:
  assumes "BAR \<notin> set h" "w = to_string (unat n)"
  shows "recover_line (w @ BAR # x @ BAR # h) st = (n, h)"
proof -
  have "BAR \<notin> set w" using field_ok_to_string [of "unat n"] assms(2) by (simp add: field_ok_def)
  then have "takeWhile (\<lambda>c. c \<noteq> BAR) (w @ BAR # x @ BAR # h) = w" by (rule split_at_bar)
  moreover have "after_last_bar ((w @ BAR # x) @ BAR # h) = h" using assms(1) by (rule after_last_bar_line)
  ultimately show ?thesis using assms(2) by (simp add: recover_line_def)
qed

lemma ends_nl_append: "ends_nl (f @ s @ [NL])"
  by (simp add: ends_nl_def)

lemma log_ok_new: "log_ok hmac (new_HashChainedAuditLog key None) None"
  by (simp add: log_ok_def file_text_def new_HashChainedAuditLog_def genesis_def [symmetric] ends_nl_def
      verify_loop.simps [of _ _ _ _ "[]"] recover_loop.simps [of "[]"]) (simp add: genesis_def)

lemma audit_digest_ok:
  assumes "hmac_len hmac"
  shows "length (audit_digest hmac ts log event_id event_type) = 64"
    "field_ok (audit_digest hmac ts log event_id event_type)"
  by (simp_all add: audit_digest_def chain_hmac_def assms [unfolded hmac_len_def])

lemma audit_line_ok:
  assumes "hmac_len hmac" "event_ok ts event_id event_type" "tail_ok log"
  shows "NL \<notin> set (audit_line hmac ts log event_id event_type)"
    "CHR 0x00 \<notin> set (audit_line hmac ts log event_id event_type)"
    "length (audit_line hmac ts log event_id event_type) < 1023"
  using assms(2,3) audit_digest_ok [OF assms(1), of ts log event_id event_type]
    field_ok_to_string [of "unat (seq_m log + 1)"] length_to_string_u64 [of "seq_m log + 1"]
  by (auto simp: audit_line_def event_ok_def tail_ok_def field_ok_def kHexDigestLen_def)

lemma check_audit_line:
  assumes "hmac_len hmac" "event_ok ts event_id event_type" "tail_ok log"
  shows "check_line hmac (chain_key_m log) (tail_hex_m log) (audit_line hmac ts log event_id event_type) =
    Some (audit_digest hmac ts log event_id event_type)"
  unfolding audit_line_def using assms
  by (intro check_line_line) (simp_all add: audit_digest_def event_ok_def tail_ok_def)

lemma recover_audit_line:
  assumes "hmac_len hmac"
  shows "recover_line (audit_line hmac ts log event_id event_type) st =
    (seq_m log + 1, audit_digest hmac ts log event_id event_type)"
  using recover_line_line [OF _ refl, of "audit_digest hmac ts log event_id event_type" "seq_m log + 1"
      "ts @ BAR # event_id @ BAR # event_type @ BAR # tail_hex_m log" st]
    audit_digest_ok(2) [OF assms, of ts log event_id event_type]
  by (simp add: audit_line_def field_ok_def)

lemma audit_append_eq:
  assumes "hmac_len hmac" "event_ok ts event_id event_type" "tail_ok log"
    and "io_open io" "1024 \<le> io_written io"
  shows "audit_append hmac ts io file log event_id event_type =
    (if io_synced io then CKR_OK else CKR_FUNCTION_FAILED,
     Some (file_text file @ audit_line hmac ts log event_id event_type @ [NL]),
     if io_synced io then log\<lparr>seq_m := seq_m log + 1, tail_hex_m := audit_digest hmac ts log event_id event_type\<rparr>
     else log\<lparr>seq_m := seq_m log + 1\<rparr>)"
proof -
  have "length (audit_line hmac ts log event_id event_type @ [NL]) \<le> io_written io"
    using audit_line_ok(3) [OF assms(1-3)] assms(5) by simp
  then show ?thesis using assms(4)
    by (simp add: audit_append_def Let_def audit_line_def audit_digest_def file_text_def
        del: length_append length_hex_encode length_Cons take_append)
qed



text \<open>
  A flush or fsync failure after the line reached the file breaks the chain for good: the append
  reports CKR\_FUNCTION\_FAILED and keeps the old tail, but the line stays in the file.  The next
  append, although it reports CKR\_OK, writes a record chained to the old tail, and verification
  rejects the file from then on (unless the lost digest happens to equal the old tail).
\<close>

lemma failed_sync_breaks_chain:
  assumes ok: "log_ok hmac log file" and key: "hmac_len hmac"
    and e: "event_ok ts event_id event_type" and e2: "event_ok ts2 event_id2 event_type2"
    and io: "io_open io" "1024 \<le> io_written io" "\<not> io_synced io" and io2: "io_ok io2"
    and d: "audit_digest hmac ts log event_id event_type \<noteq> tail_hex_m log"
  shows "case audit_append hmac ts io file log event_id event_type of (rv, file1, log1) \<Rightarrow>
           rv = CKR_FUNCTION_FAILED \<and>
           (case audit_append hmac ts2 io2 file1 log1 event_id2 event_type2 of (rv2, file2, log2) \<Rightarrow>
              rv2 = CKR_OK \<and> verify_chain hmac (chain_key_m log) file2 \<noteq> None)"
proof -
  let ?f = "file_text file" and ?s = "audit_line hmac ts log event_id event_type"
    and ?h = "audit_digest hmac ts log event_id event_type"
  define log1 where "log1 = log\<lparr>seq_m := seq_m log + 1\<rparr>"
  define s2 where "s2 = audit_line hmac ts2 log1 event_id2 event_type2"
  have t: "tail_ok log" "tail_ok log1" and old: "ends_nl ?f"
    "verify_loop hmac (chain_key_m log) genesis 0 ?f = Inr (tail_hex_m log)"
    using ok by (simp_all add: log_ok_def Let_def tail_ok_def log1_def)
  note s = audit_line_ok [OF key e t(1)]
  have v: "verify_loop hmac (chain_key_m log) genesis 0 (?f @ ?s @ [NL]) = Inr ?h"
    using verify_loop_append [OF old, of "?s @ [NL]"]
      verify_single [OF s(1,2) _ check_audit_line [OF key e t(1)]] s(3) by auto
  have "verify_loop hmac (chain_key_m log) ?h m (s2 @ [NL]) = Inl (m + 1)" for m
  proof -
    have "check_line hmac (chain_key_m log) ?h s2 = None"
      using d check_audit_line [OF key e2 t(2)]
      by (auto simp: s2_def check_line_def Let_def log1_def split: if_splits)
    moreover have "fgets 2048 (s2 @ [NL]) = Some (s2 @ [NL], [])"
      using audit_line_ok [OF key e2 t(2)] by (intro fgets_line) (simp_all add: s2_def)
    moreover have "line_text (s2 @ [NL]) = s2"
      using audit_line_ok(2) [OF key e2 t(2)] by (intro line_text_line) (simp add: s2_def)
    ultimately show ?thesis by (simp add: verify_loop.simps [of _ _ _ _ "s2 @ [NL]"])
  qed
  then have "\<exists>k. verify_loop hmac (chain_key_m log) genesis 0 ((?f @ ?s @ [NL]) @ s2 @ [NL]) = Inl k"
    using verify_loop_append [OF ends_nl_append v, of "s2 @ [NL]"] by auto
  then show ?thesis using io io2 audit_append_eq [OF key e t(1) io(1,2)]
      audit_append_eq [OF key e2 t(2), of io2 "Some (?f @ ?s @ [NL])"]
    by (auto simp: log1_def [symmetric] s2_def [symmetric] io_ok_def verify_chain_def genesis_def [symmetric]
        file_text_def)
qed


subsection \<open>Tamper evidence\<close>

lemma verify_loop_lines:
  "verify_loop hmac key p n f = Inr t \<longleftrightarrow> check_lines hmac key p (audit_lines f) = Some t"
proof (induction hmac key p n f rule: verify_loop.induct)
  case (1 hmac key p n f)
  then show ?case
    by (simp add: verify_loop.simps [of _ _ _ _ f] audit_lines.simps [of f] split: option.splits)
qed

lemma check_lines_snoc:
  "check_lines hmac key p (ls @ [l]) = Some t \<longleftrightarrow>
   (\<exists>q. check_lines hmac key p ls = Some q \<and> check_line hmac key q l = Some t)"
  by (induction ls arbitrary: p) (auto split: option.splits)

lemma split_fields_Suc:
  "length (split_fields (Suc n) s) = Suc (Suc n) \<Longrightarrow>
   \<exists>a r. BAR \<notin> set a \<and> s = a @ BAR # r \<and> split_fields (Suc n) s = a # split_fields n r \<and> length (split_fields n r) = Suc n"
proof -
  assume a: "length (split_fields (Suc n) s) = Suc (Suc n)"
  then have "BAR \<in> set s" by (auto split: if_splits)
  then obtain a r where "s = a @ BAR # r" "BAR \<notin> set a" by (metis split_list_first)
  then show ?thesis using a split_fields_bar [of a n r] by (auto simp del: split_fields.simps)
qed

lemma check_line_shape:
  assumes "check_line hmac key q l = Some t"
  shows "\<exists>x. l = (x @ BAR # q) @ BAR # t \<and> BAR \<notin> set q \<and> length t = 64 \<and>
    t = hex_encode (chain_hmac hmac key (x @ BAR # q))"
proof -
  define parts where "parts = split_fields 5 l"
  have p: "length parts = 6" "length (parts ! 5) = 64" "parts ! 4 = q" "t = parts ! 5"
    "hex_encode (chain_hmac hmac key
      (parts ! 0 @ BAR # parts ! 1 @ BAR # parts ! 2 @ BAR # parts ! 3 @ BAR # parts ! 4)) = parts ! 5"
    using assms by (auto simp: check_line_def Let_def kHexDigestLen_def parts_def split: if_splits)
  have l5: "length (split_fields (Suc (Suc (Suc (Suc (Suc 0))))) l) = Suc (Suc (Suc (Suc (Suc (Suc 0)))))"
    using p(1) by (simp add: parts_def numeral_eq_Suc del: split_fields.simps)
  obtain a r1 where 1: "l = a @ BAR # r1" "parts = a # split_fields 4 r1" "length (split_fields 4 r1) = 5"
    using split_fields_Suc [OF l5] by (auto simp: parts_def numeral_eq_Suc simp del: split_fields.simps)
  obtain b r2 where 2: "r1 = b @ BAR # r2" "split_fields 4 r1 = b # split_fields 3 r2" "length (split_fields 3 r2) = 4"
    using split_fields_Suc [of 3 r1] 1(3) by (auto simp: numeral_eq_Suc simp del: split_fields.simps)
  obtain c r3 where 3: "r2 = c @ BAR # r3" "split_fields 3 r2 = c # split_fields 2 r3" "length (split_fields 2 r3) = 3"
    using split_fields_Suc [of 2 r2] 2(3) by (auto simp: numeral_eq_Suc simp del: split_fields.simps)
  obtain d r4 where 4: "r3 = d @ BAR # r4" "split_fields 2 r3 = d # split_fields 1 r4" "length (split_fields 1 r4) = 2"
    using split_fields_Suc [of 1 r3] 3(3) by (auto simp: numeral_eq_Suc simp del: split_fields.simps)
  obtain e h where 5: "r4 = e @ BAR # h" "split_fields 1 r4 = [e, h]" "BAR \<notin> set e"
    using split_fields_Suc [of 0 r4] 4(3) by (auto simp: numeral_eq_Suc)
  have "parts = [a, b, c, d, e, h]" using 1 2 3 4 5 by simp
  then show ?thesis using p 1 2 3 4 5
    by (intro exI [of _ "a @ BAR # b @ BAR # c @ BAR # d"]) simp
qed

lemma record_part_line: "length t = 64 \<Longrightarrow> record_part (r @ BAR # t) = r"
  by (simp add: record_part_def)

lemma bar_tail_unique:
  assumes "x @ BAR # q = y @ BAR # r" "BAR \<notin> set q" "BAR \<notin> set r"
  shows "q = r"
  using after_last_bar_line [of q x] after_last_bar_line [of r y] assms by simp

lemma genesis_hex: "genesis = hex_encode (replicate 32 0)"
  by code_simp

lemma check_lines_unique:
  assumes "inj_on (chain_hmac hmac key) (record_part ` (set ls \<union> set ms))"
    and "\<forall>r\<in>record_part ` (set ls \<union> set ms). chain_hmac hmac key r \<noteq> replicate 32 0"
    and "check_lines hmac key genesis ls = Some t" "check_lines hmac key genesis ms = Some t"
  shows "ls = ms"
  using assms
proof (induction ls arbitrary: ms t rule: rev_induct)
  case Nil
  then show ?case
  proof (cases ms rule: rev_cases)
    case (snoc ms' m)
    then obtain q where "check_line hmac key q m = Some t" using Nil by (auto simp: check_lines_snoc)
    then obtain x where "m = (x @ BAR # q) @ BAR # t" "length t = 64" "t = hex_encode (chain_hmac hmac key (x @ BAR # q))"
      using check_line_shape by blast
    moreover have "t = genesis" using Nil by simp
    ultimately show ?thesis using Nil(2) snoc record_part_line [of t "x @ BAR # q"]
      by (auto simp: genesis_hex hex.encode_inject)
  qed simp
next
  case (snoc l ls)
  obtain q where q: "check_lines hmac key genesis ls = Some q" "check_line hmac key q l = Some t"
    using snoc.prems(3) by (auto simp: check_lines_snoc)
  obtain x where x: "l = (x @ BAR # q) @ BAR # t" "BAR \<notin> set q" "length t = 64"
    "t = hex_encode (chain_hmac hmac key (x @ BAR # q))" using check_line_shape [OF q(2)] by blast
  have lp: "record_part l = x @ BAR # q" using x(1,3) record_part_line by blast
  have "ms \<noteq> []" using snoc.prems(2,4) x(4) lp by (auto simp: genesis_hex hex.encode_inject)
  then obtain ms' m where m: "ms = ms' @ [m]" by (meson rev_exhaust)
  then obtain r where r: "check_lines hmac key genesis ms' = Some r" "check_line hmac key r m = Some t"
    using snoc.prems(4) by (auto simp: check_lines_snoc)
  obtain y where y: "m = (y @ BAR # r) @ BAR # t" "BAR \<notin> set r"
    "t = hex_encode (chain_hmac hmac key (y @ BAR # r))" using check_line_shape [OF r(2)] by blast
  have mp: "record_part m = y @ BAR # r" using y(1) x(3) record_part_line by blast
  have "chain_hmac hmac key (x @ BAR # q) = chain_hmac hmac key (y @ BAR # r)"
    using x(4) y(3) by (simp add: hex.encode_inject)
  then have e: "x @ BAR # q = y @ BAR # r"
    using snoc.prems(1) lp mp m inj_onD [OF snoc.prems(1)] by (metis UnI1 UnI2 imageI in_set_conv_decomp)
  then have "q = r" using x(2) y(2) by (rule bar_tail_unique)
  moreover have "inj_on (chain_hmac hmac key) (record_part ` (set ls \<union> set ms'))"
    using snoc.prems(1) m by (auto intro: inj_on_subset)
  moreover have "\<forall>r\<in>record_part ` (set ls \<union> set ms'). chain_hmac hmac key r \<noteq> replicate 32 0"
    using snoc.prems(2) m by auto
  ultimately have "ls = ms'" using snoc.IH q(1) r(1) by blast
  then show ?case using x(1) y(1) e m by simp
qed

text \<open>
  C23.  The chain is tamper evident once its tail is known: two audit files that both verify under the
  same key and end in the same digest hold exactly the same sequence of lines, provided HMAC-SHA256
  has no collision on the records of the two files and yields the all-zero digest for none of them.
  So no record can be altered, inserted, removed or reordered without changing the published tail.
\<close>

theorem audit_tail_determines_log:
  assumes "verify_loop hmac key genesis 0 f = Inr t" "verify_loop hmac key genesis 0 g = Inr t"
    and "inj_on (chain_hmac hmac key) (record_part ` (set (audit_lines f) \<union> set (audit_lines g)))"
    and "\<forall>r\<in>record_part ` (set (audit_lines f) \<union> set (audit_lines g)). chain_hmac hmac key r \<noteq> replicate 32 0"
  shows "audit_lines f = audit_lines g"
  using check_lines_unique [OF assms(3,4)] assms(1,2) by (simp add: verify_loop_lines)

theorem audit_tail_determines_log_witness:
  "audit_lines (sample_line @ [NL]) = audit_lines sample_line"
proof -
  have l: "audit_lines (sample_line @ [NL]) = [sample_line]" "audit_lines sample_line = [sample_line]" 
    by code_simp+
  have v: "verify_loop plain_hmac [] genesis 0 (sample_line @ [NL]) =
      Inr (audit_digest plain_hmac ''t'' (new_HashChainedAuditLog [] None) ''id'' ''E'')"
    "verify_loop plain_hmac [] genesis 0 sample_line =
      Inr (audit_digest plain_hmac ''t'' (new_HashChainedAuditLog [] None) ''id'' ''E'')"
    by code_simp+
  have n: "chain_hmac plain_hmac [] (record_part sample_line) \<noteq> replicate 32 0" by code_simp
  show ?thesis by (rule audit_tail_determines_log [OF v]) (simp_all add: l n)
qed

end
