(* ===== verification/ThreadPool.thy ===== *)
theory ThreadPool
  imports SecureBuffer "HOL-Library.Multiset"
begin

text \<open>
  The worker pool (threadpool/thread\_pool.cpp, thread\_pool.h, capability\_token.h): the two bounded tier
  queues, their counters, submission, and the worker loop with its condition variable.

  Threads interleave at the granularity of the code's atomic operations and critical sections.  A worker
  is where its loop stands, a call of \<open>enqueue\<close> is where its body stands, and an action lets one of them
  take its next step; the condition variable may also wake a waiting worker spuriously.  The state
  mutex is held by the worker that is evaluating the wait predicate.  Two logs record the accepted and the
  executed tasks.  A task is opaque; an exception of a task is swallowed by the wrapper.
\<close>

subsection \<open>Pool\<close>

datatype PrivilegeTier = Low | High

record CapabilityToken =
  tier_m :: PrivilegeTier
  valid_token_m :: bool

definition default_token :: CapabilityToken where
  "default_token = \<lparr>tier_m = Low, valid_token_m = False\<rparr>"

definition grant :: "PrivilegeTier \<Rightarrow> CapabilityToken" where
  "grant tier = \<lparr>tier_m = tier, valid_token_m = True\<rparr>"

record 'a Pool =
  high_queue_m :: "'a list"
  low_queue_m :: "'a list"
  high_capacity_m :: nat
  low_capacity_m :: nat
  stopping_m :: bool
  queued_m :: u64
  running_count_m :: u64
  enqueued_m :: u64
  executed_m :: u64
  pool_dropped_m :: u64

definition resolve_worker_count :: "nat \<Rightarrow> nat \<Rightarrow> nat" where
  "resolve_worker_count hardware_concurrency requested =
     (if requested \<noteq> 0 then requested
      else if hardware_concurrency = 0 then 1 else hardware_concurrency)"

definition new_ThreadPool :: "nat \<Rightarrow> 'a Pool" where
  "new_ThreadPool queue_capacity =
     \<lparr>high_queue_m = [], low_queue_m = [], high_capacity_m = queue_capacity, low_capacity_m = queue_capacity,
      stopping_m = False, queued_m = 0, running_count_m = 0, enqueued_m = 0, executed_m = 0, pool_dropped_m = 0\<rparr>"

definition validate_token :: "CapabilityToken \<Rightarrow> cpp_exn + unit" where
  "validate_token token = (if \<not> valid_token_m token then Inl runtime_error else Inr ())"

text \<open>The critical section of \<open>enqueue_locked\<close> on the tier's queue, and the counting after it.\<close>

definition tier_push :: "PrivilegeTier \<Rightarrow> 'a \<Rightarrow> 'a Pool \<Rightarrow> bool \<times> 'a Pool" where
  "tier_push tier worker p = (case tier of
     High \<Rightarrow>
       if high_capacity_m p > 0 \<and> length (high_queue_m p) \<ge> high_capacity_m p
       then (False, p\<lparr>pool_dropped_m := pool_dropped_m p + 1\<rparr>)
       else (True, p\<lparr>high_queue_m := high_queue_m p @ [worker]\<rparr>)
   | Low \<Rightarrow>
       if low_capacity_m p > 0 \<and> length (low_queue_m p) \<ge> low_capacity_m p
       then (False, p\<lparr>pool_dropped_m := pool_dropped_m p + 1\<rparr>)
       else (True, p\<lparr>low_queue_m := low_queue_m p @ [worker]\<rparr>))"

definition count_enqueued :: "'a Pool \<Rightarrow> 'a Pool" where
  "count_enqueued p = p\<lparr>queued_m := queued_m p + 1, enqueued_m := enqueued_m p + 1\<rparr>"

definition enqueue_locked :: "PrivilegeTier \<Rightarrow> 'a \<Rightarrow> 'a Pool \<Rightarrow> bool \<times> 'a Pool" where
  "enqueue_locked tier worker p = (case tier_push tier worker p of
     (False, p') \<Rightarrow> (False, p')
   | (True, p') \<Rightarrow> (True, count_enqueued p'))"

text \<open>A call of \<open>enqueue\<close> that no other thread interferes with.\<close>

definition enqueue :: "CapabilityToken \<Rightarrow> 'a \<Rightarrow> 'a Pool \<Rightarrow> (cpp_exn + bool) \<times> 'a Pool" where
  "enqueue token task p = (case validate_token token of
     Inl e \<Rightarrow> (Inl e, p)
   | Inr _ \<Rightarrow>
       if stopping_m p then (Inl runtime_error, p)
       else case enqueue_locked (tier_m token) task p of (accepted, p') \<Rightarrow> (Inr accepted, p'))"

definition enqueue_batch :: "CapabilityToken \<Rightarrow> 'a list \<Rightarrow> 'a Pool \<Rightarrow> (cpp_exn + nat) \<times> 'a Pool" where
  "enqueue_batch token tasks p = (case validate_token token of
     Inl e \<Rightarrow> (Inl e, p)
   | Inr _ \<Rightarrow>
       if stopping_m p then (Inl runtime_error, p)
       else case fold (\<lambda>t (n, q). case enqueue_locked (tier_m token) t q of (ok, q') \<Rightarrow> (if ok then n + 1 else n, q'))
           tasks (0, p) of (accepted, p') \<Rightarrow> (Inr accepted, p'))"

text \<open>The task a worker takes: from the high tier first.\<close>

definition take_task :: "'a Pool \<Rightarrow> 'a option \<times> 'a Pool" where
  "take_task p = (case high_queue_m p of
     t # ts \<Rightarrow> (Some t, p\<lparr>high_queue_m := ts\<rparr>)
   | [] \<Rightarrow> (case low_queue_m p of
       t # ts \<Rightarrow> (Some t, p\<lparr>low_queue_m := ts\<rparr>)
     | [] \<Rightarrow> (None, p)))"

subsection \<open>Threads\<close>

text \<open>
  A worker: at the top of its loop, holding the state mutex before the predicate, after finding it false
  and before it is blocked, blocked, after finding it true, outside the mutex before taking a task, with
  a task not yet counted out, with a counted task, running it, returned.
\<close>

datatype 'a wpc = WIdle | WCheck | WBlocking | WWaiting | WTest | WPop | WGot 'a | WReady 'a | WRun 'a | WExit

text \<open>A call of \<open>enqueue\<close>: before its checks, before the push, before the counting, before the notification.\<close>

datatype 'a ppc = PCall CapabilityToken 'a | PPush PrivilegeTier 'a | PCount | PNotify

record 'a Sys =
  sys_pool :: "'a Pool"
  sys_workers :: "'a wpc list"
  sys_calls :: "'a ppc list"
  accepted_log :: "'a list"
  executed_log :: "'a list"

definition holds_state_mutex :: "'a wpc \<Rightarrow> bool" where
  "holds_state_mutex w = (case w of WCheck \<Rightarrow> True | WBlocking \<Rightarrow> True | WTest \<Rightarrow> True | _ \<Rightarrow> False)"

definition state_mutex_free :: "'a Sys \<Rightarrow> bool" where
  "state_mutex_free s = (\<forall>w\<in>set (sys_workers s). \<not> holds_state_mutex w)"

definition wake :: "'a wpc \<Rightarrow> 'a wpc" where
  "wake w = (case w of WWaiting \<Rightarrow> WIdle | _ \<Rightarrow> w)"

definition is_waiting :: "'a wpc \<Rightarrow> bool" where
  "is_waiting w = (case w of WWaiting \<Rightarrow> True | _ \<Rightarrow> False)"

definition set_worker :: "nat \<Rightarrow> 'a wpc \<Rightarrow> 'a Sys \<Rightarrow> 'a Sys" where
  "set_worker i w s = s\<lparr>sys_workers := (sys_workers s)[i := w]\<rparr>"

text \<open>The next step of worker \<open>i\<close>; none while it is blocked, while another one holds the mutex, or after its return.\<close>

definition worker_step :: "nat \<Rightarrow> 'a Sys \<Rightarrow> 'a Sys option" where
  "worker_step i s =
     (let p = sys_pool s in
      if i \<ge> length (sys_workers s) then None
      else case sys_workers s ! i of
        WIdle \<Rightarrow> if state_mutex_free s then Some (set_worker i WCheck s) else None
      | WCheck \<Rightarrow> Some (set_worker i (if stopping_m p \<or> queued_m p > 0 then WTest else WBlocking) s)
      | WBlocking \<Rightarrow> Some (set_worker i WWaiting s)
      | WWaiting \<Rightarrow> None
      | WTest \<Rightarrow> Some (set_worker i (if stopping_m p \<and> queued_m p = 0 then WExit else WPop) s)
      | WPop \<Rightarrow> (case take_task p of
            (None, _) \<Rightarrow> Some (set_worker i WIdle s)
          | (Some t, p') \<Rightarrow> Some (set_worker i (WGot t) (s\<lparr>sys_pool := p'\<rparr>)))
      | WGot t \<Rightarrow> Some (set_worker i (WReady t) (s\<lparr>sys_pool := p\<lparr>queued_m := queued_m p - 1\<rparr>\<rparr>))
      | WReady t \<Rightarrow> Some (set_worker i (WRun t) (s\<lparr>sys_pool := p\<lparr>running_count_m := running_count_m p + 1\<rparr>\<rparr>))
      | WRun t \<Rightarrow> Some (set_worker i WIdle (s\<lparr>sys_pool := p\<lparr>running_count_m := running_count_m p - 1,
            executed_m := executed_m p + 1\<rparr>, executed_log := executed_log s @ [t]\<rparr>))
      | WExit \<Rightarrow> None)"

definition set_call :: "nat \<Rightarrow> 'a ppc \<Rightarrow> 'a Sys \<Rightarrow> 'a Sys" where
  "set_call j c s = s\<lparr>sys_calls := (sys_calls s)[j := c]\<rparr>"

definition end_call :: "nat \<Rightarrow> 'a Sys \<Rightarrow> 'a Sys" where
  "end_call j s = s\<lparr>sys_calls := take j (sys_calls s) @ drop (j + 1) (sys_calls s)\<rparr>"

text \<open>The next step of call \<open>j\<close>; \<open>w\<close> is the waiting worker that \<open>notify_one\<close> wakes when there is one.\<close>

definition call_step :: "nat \<Rightarrow> nat \<Rightarrow> 'a Sys \<Rightarrow> 'a Sys option" where
  "call_step j w s =
     (let p = sys_pool s in
      if j \<ge> length (sys_calls s) then None
      else case sys_calls s ! j of
        PCall token t \<Rightarrow> (case validate_token token of
            Inl _ \<Rightarrow> Some (end_call j s)
          | Inr _ \<Rightarrow> if stopping_m p then Some (end_call j s) else Some (set_call j (PPush (tier_m token) t) s))
      | PPush tier t \<Rightarrow> (case tier_push tier t p of
            (False, p') \<Rightarrow> Some (end_call j (s\<lparr>sys_pool := p'\<rparr>))
          | (True, p') \<Rightarrow> Some (set_call j PCount (s\<lparr>sys_pool := p', accepted_log := accepted_log s @ [t]\<rparr>)))
      | PCount \<Rightarrow> Some (set_call j PNotify (s\<lparr>sys_pool := count_enqueued p\<rparr>))
      | PNotify \<Rightarrow>
          if \<exists>v\<in>set (sys_workers s). is_waiting v
          then if w < length (sys_workers s) \<and> is_waiting (sys_workers s ! w)
            then Some (end_call j (set_worker w WIdle s)) else None
          else Some (end_call j s))"

datatype 'a action =
    Enqueue CapabilityToken 'a
  | Call nat nat
  | Worker nat
  | Spurious nat
  | Shutdown
  | NotifyAll

definition sys_step :: "'a action \<Rightarrow> 'a Sys \<Rightarrow> 'a Sys option" where
  "sys_step a s = (case a of
     Enqueue token t \<Rightarrow> Some (s\<lparr>sys_calls := sys_calls s @ [PCall token t]\<rparr>)
   | Call j w \<Rightarrow> call_step j w s
   | Worker i \<Rightarrow> worker_step i s
   | Spurious i \<Rightarrow>
       if i < length (sys_workers s) \<and> is_waiting (sys_workers s ! i) then Some (set_worker i WIdle s) else None
   | Shutdown \<Rightarrow>
       if state_mutex_free s then Some (s\<lparr>sys_pool := (sys_pool s)\<lparr>stopping_m := True\<rparr>\<rparr>) else None
   | NotifyAll \<Rightarrow> Some (s\<lparr>sys_workers := map wake (sys_workers s)\<rparr>))"

definition initial_Sys :: "nat \<Rightarrow> nat \<Rightarrow> 'a Sys" where
  "initial_Sys workers queue_capacity =
     \<lparr>sys_pool = new_ThreadPool queue_capacity, sys_workers = replicate workers WIdle, sys_calls = [],
      accepted_log = [], executed_log = []\<rparr>"

primrec sys_run :: "'a action list \<Rightarrow> 'a Sys \<Rightarrow> 'a Sys option" where
  "sys_run [] s = Some s"
| "sys_run (a # as) s = (case sys_step a s of None \<Rightarrow> None | Some s' \<Rightarrow> sys_run as s')"

inductive reachable :: "nat \<Rightarrow> nat \<Rightarrow> 'a Sys \<Rightarrow> bool" for workers queue_capacity where
  reachable_init: "reachable workers queue_capacity (initial_Sys workers queue_capacity)"
| reachable_step: "reachable workers queue_capacity s \<Longrightarrow> sys_step a s = Some s' \<Longrightarrow> reachable workers queue_capacity s'"

subsection \<open>Specification notions\<close>

definition in_hand :: "'a wpc \<Rightarrow> 'a multiset" where
  "in_hand w = (case w of WGot t \<Rightarrow> {#t#} | WReady t \<Rightarrow> {#t#} | WRun t \<Rightarrow> {#t#} | _ \<Rightarrow> {#})"

definition held :: "'a Sys \<Rightarrow> 'a multiset" where
  "held s = sum_list (map in_hand (sys_workers s))"

definition waiting_tasks :: "'a Sys \<Rightarrow> 'a list" where
  "waiting_tasks s = high_queue_m (sys_pool s) @ low_queue_m (sys_pool s)"

definition got_weight :: "'a wpc \<Rightarrow> nat" where
  "got_weight w = (case w of WGot _ \<Rightarrow> 1 | _ \<Rightarrow> 0)"

definition uncounted_out :: "'a Sys \<Rightarrow> nat" where
  "uncounted_out s = sum_list (map got_weight (sys_workers s))"

definition count_weight :: "'a ppc \<Rightarrow> nat" where
  "count_weight c = (case c of PCount \<Rightarrow> 1 | _ \<Rightarrow> 0)"

definition uncounted_in :: "'a Sys \<Rightarrow> nat" where
  "uncounted_in s = sum_list (map count_weight (sys_calls s))"

definition mutex_weight :: "'a wpc \<Rightarrow> nat" where
  "mutex_weight w = (if holds_state_mutex w then 1 else 0)"

definition mutex_holders :: "'a Sys \<Rightarrow> nat" where
  "mutex_holders s = sum_list (map mutex_weight (sys_workers s))"

text \<open>
  Every accepted task is in exactly one place, the queues respect their capacity, the mutex has at most one
  holder, and \<open>queued\<close> counts the waiting tasks up to the increments and decrements still outstanding.
\<close>

definition sys_inv :: "nat \<Rightarrow> nat \<Rightarrow> 'a Sys \<Rightarrow> bool" where
  "sys_inv workers cap s =
     (mset (accepted_log s) = mset (waiting_tasks s) + held s + mset (executed_log s) \<and>
      queued_m (sys_pool s) + of_nat (uncounted_in s) = of_nat (length (waiting_tasks s)) + of_nat (uncounted_out s) \<and>
      (0 < cap \<longrightarrow> length (high_queue_m (sys_pool s)) \<le> cap \<and> length (low_queue_m (sys_pool s)) \<le> cap) \<and>
      high_capacity_m (sys_pool s) = cap \<and> low_capacity_m (sys_pool s) = cap \<and>
      mutex_holders s \<le> 1 \<and> length (sys_workers s) = workers)"

definition sample_run :: "nat action list" where
  "sample_run = [Enqueue (grant Low) 3, Call 0 0, Call 0 0, Call 0 0, Enqueue (grant High) 7, Call 1 0, Call 1 0, Call 0 0,
     Worker 0, Worker 0, Worker 0, Worker 0, Worker 0, Worker 0, Worker 0]"

text \<open>After \<open>shutdown\<close> with no submission under way: no call passes its check, and a worker returns only when nothing waits.\<close>

definition draining :: "'a Sys \<Rightarrow> bool" where
  "draining s = (stopping_m (sys_pool s) \<and> (\<forall>c\<in>set (sys_calls s). \<exists>token t. c = PCall token t) \<and>
     (WExit \<in> set (sys_workers s) \<longrightarrow> waiting_tasks s = []))"

definition sample_shutdown :: "nat action list" where
  "sample_shutdown = [Shutdown, NotifyAll, Worker 0, Worker 0, Worker 0, Worker 0, Worker 0, Worker 0, Worker 0,
     Worker 0, Worker 0, Worker 0]"

definition sample_submit :: "nat action list" where
  "sample_submit = [Enqueue (grant High) 7, Call 0 0, Call 0 0, Call 0 0, Call 0 0]"

lemma sum_list_update_add:
  fixes f :: "'b \<Rightarrow> 'c::comm_monoid_add"
  shows "i < length xs \<Longrightarrow> sum_list (map f (xs[i := x])) + f (xs ! i) = sum_list (map f xs) + f x"
  by (induction xs arbitrary: i) (auto split: nat.splits simp: ac_simps)

lemma sum_list_remove:
  fixes f :: "'b \<Rightarrow> 'c::comm_monoid_add"
  assumes "i < length xs"
  shows "sum_list (map f (take i xs @ drop (i + 1) xs)) + f (xs ! i) = sum_list (map f xs)"
proof -
  have "sum_list (map f xs) = sum_list (map f (take i xs @ xs ! i # drop (Suc i) xs))"
    using id_take_nth_drop [OF assms] by simp
  then show ?thesis by (simp add: ac_simps)
qed

lemma set_worker_simps [simp]:
  "sys_pool (set_worker i w s) = sys_pool s" "sys_calls (set_worker i w s) = sys_calls s"
  "accepted_log (set_worker i w s) = accepted_log s" "executed_log (set_worker i w s) = executed_log s"
  "length (sys_workers (set_worker i w s)) = length (sys_workers s)"
  "uncounted_in (set_worker i w s) = uncounted_in s" "waiting_tasks (set_worker i w s) = waiting_tasks s"
  by (simp_all add: set_worker_def uncounted_in_def waiting_tasks_def)

lemma set_worker_held: "i < length (sys_workers s) \<Longrightarrow> held (set_worker i w s) + in_hand (sys_workers s ! i) = held s + in_hand w"
  by (simp add: held_def set_worker_def sum_list_update_add)

lemma set_worker_uncounted:
  "i < length (sys_workers s) \<Longrightarrow> uncounted_out (set_worker i w s) + got_weight (sys_workers s ! i) = uncounted_out s + got_weight w"
  by (simp add: uncounted_out_def set_worker_def sum_list_update_add)

lemma set_worker_holders:
  "i < length (sys_workers s) \<Longrightarrow> mutex_holders (set_worker i w s) + mutex_weight (sys_workers s ! i) = mutex_holders s + mutex_weight w"
  by (simp add: mutex_holders_def set_worker_def sum_list_update_add)

lemma state_mutex_free_iff: "state_mutex_free s \<longleftrightarrow> mutex_holders s = 0"
  by (auto simp: state_mutex_free_def mutex_holders_def mutex_weight_def)

lemma set_call_simps [simp]:
  "sys_pool (set_call i w s) = sys_pool s" "sys_workers (set_call i w s) = sys_workers s"
  "accepted_log (set_call i w s) = accepted_log s" "executed_log (set_call i w s) = executed_log s"
  "held (set_call i w s) = held s" "uncounted_out (set_call i w s) = uncounted_out s"
  "mutex_holders (set_call i w s) = mutex_holders s" "waiting_tasks (set_call i w s) = waiting_tasks s"
  by (simp_all add: set_call_def held_def uncounted_out_def waiting_tasks_def mutex_holders_def)

lemma end_call_simps [simp]:
  "sys_pool (end_call i s) = sys_pool s" "sys_workers (end_call i s) = sys_workers s"
  "accepted_log (end_call i s) = accepted_log s" "executed_log (end_call i s) = executed_log s"
  "held (end_call i s) = held s" "uncounted_out (end_call i s) = uncounted_out s"
  "mutex_holders (end_call i s) = mutex_holders s" "waiting_tasks (end_call i s) = waiting_tasks s"
  by (simp_all add: end_call_def held_def uncounted_out_def waiting_tasks_def mutex_holders_def)

lemma set_call_uncounted:
  "j < length (sys_calls s) \<Longrightarrow> uncounted_in (set_call j c s) + count_weight (sys_calls s ! j) = uncounted_in s + count_weight c"
  by (simp add: uncounted_in_def set_call_def sum_list_update_add)

lemma end_call_uncounted:
  "j < length (sys_calls s) \<Longrightarrow> uncounted_in (end_call j s) + count_weight (sys_calls s ! j) = uncounted_in s"
  using sum_list_remove [of j "sys_calls s" count_weight] by (simp add: uncounted_in_def end_call_def)

lemmas weights = in_hand_def got_weight_def count_weight_def mutex_weight_def holds_state_mutex_def

lemma field_updates [simp]:
  "held (s\<lparr>sys_pool := p\<rparr>) = held s" "uncounted_in (s\<lparr>sys_pool := p\<rparr>) = uncounted_in s"
  "uncounted_out (s\<lparr>sys_pool := p\<rparr>) = uncounted_out s" "mutex_holders (s\<lparr>sys_pool := p\<rparr>) = mutex_holders s"
  "held (s\<lparr>accepted_log := l\<rparr>) = held s" "uncounted_in (s\<lparr>accepted_log := l\<rparr>) = uncounted_in s"
  "uncounted_out (s\<lparr>accepted_log := l\<rparr>) = uncounted_out s" "mutex_holders (s\<lparr>accepted_log := l\<rparr>) = mutex_holders s"
  "held (s\<lparr>executed_log := l\<rparr>) = held s" "uncounted_in (s\<lparr>executed_log := l\<rparr>) = uncounted_in s"
  "uncounted_out (s\<lparr>executed_log := l\<rparr>) = uncounted_out s" "mutex_holders (s\<lparr>executed_log := l\<rparr>) = mutex_holders s"
  "waiting_tasks (s\<lparr>accepted_log := l\<rparr>) = waiting_tasks s" "waiting_tasks (s\<lparr>executed_log := l\<rparr>) = waiting_tasks s"
  by (simp_all add: held_def uncounted_in_def uncounted_out_def mutex_holders_def waiting_tasks_def)


lemma waiting_tasks_pool [simp]: "waiting_tasks (s\<lparr>sys_pool := p\<rparr>) = high_queue_m p @ low_queue_m p"
  by (simp add: waiting_tasks_def)

lemma take_task_cases:
  "take_task p = (None, p) \<and> high_queue_m p @ low_queue_m p = [] \<or>
   (\<exists>t p'. take_task p = (Some t, p') \<and> mset (high_queue_m p @ low_queue_m p) = add_mset t (mset (high_queue_m p' @ low_queue_m p')) \<and>
     queued_m p' = queued_m p \<and> high_capacity_m p' = high_capacity_m p \<and> low_capacity_m p' = low_capacity_m p \<and> stopping_m p' = stopping_m p \<and>
     length (high_queue_m p') \<le> length (high_queue_m p) \<and> length (low_queue_m p') \<le> length (low_queue_m p) \<and>
     length (high_queue_m p @ low_queue_m p) = Suc (length (high_queue_m p' @ low_queue_m p')))"
  by (auto simp: take_task_def split: list.splits)

lemma set_worker_inv:
  assumes i: "i < length (sys_workers s)" "length (sys_workers s) = n"
    and tasks: "mset (accepted_log s) + in_hand (sys_workers s ! i) = mset (waiting_tasks s) + held s + in_hand w + mset (executed_log s)"
    and counts: "queued_m (sys_pool s) + of_nat (uncounted_in s) + of_nat (got_weight (sys_workers s ! i)) =
      of_nat (length (waiting_tasks s)) + of_nat (uncounted_out s) + of_nat (got_weight w)"
    and caps: "0 < cap \<longrightarrow> length (high_queue_m (sys_pool s)) \<le> cap \<and> length (low_queue_m (sys_pool s)) \<le> cap"
      "high_capacity_m (sys_pool s) = cap" "low_capacity_m (sys_pool s) = cap"
    and mutex: "mutex_holders s + mutex_weight w \<le> 1 + mutex_weight (sys_workers s ! i)"
  shows "sys_inv n cap (set_worker i w s)"
proof -
  have "mset (accepted_log s) + in_hand (sys_workers s ! i) =
      mset (waiting_tasks s) + held (set_worker i w s) + mset (executed_log s) + in_hand (sys_workers s ! i)"
    using tasks set_worker_held [OF i(1), of w] by (simp add: ac_simps)
  moreover have "of_nat (uncounted_out (set_worker i w s)) + of_nat (got_weight (sys_workers s ! i)) =
      (of_nat (uncounted_out s) + of_nat (got_weight w) :: u64)"
    using set_worker_uncounted [OF i(1), of w] by (metis of_nat_add)
  then have "queued_m (sys_pool s) + of_nat (uncounted_in s) + of_nat (got_weight (sys_workers s ! i)) =
      of_nat (length (waiting_tasks s)) + of_nat (uncounted_out (set_worker i w s)) + of_nat (got_weight (sys_workers s ! i))"
    using counts by (simp add: ac_simps)
  moreover have "mutex_holders (set_worker i w s) \<le> 1"
    using mutex set_worker_holders [OF i(1), of w] by simp
  ultimately show ?thesis using caps i by (simp add: sys_inv_def)
qed

lemma take_task_inv:
  assumes "sys_inv n cap s" "i < length (sys_workers s)" "sys_workers s ! i = WPop" "take_task (sys_pool s) = (Some t, p')"
  shows "sys_inv n cap (set_worker i (WGot t) (s\<lparr>sys_pool := p'\<rparr>))"
proof -
  have "mset (waiting_tasks s) = add_mset t (mset (high_queue_m p' @ low_queue_m p'))"
    "queued_m p' = queued_m (sys_pool s)" "high_capacity_m p' = high_capacity_m (sys_pool s)" "low_capacity_m p' = low_capacity_m (sys_pool s)"
    "length (high_queue_m p') \<le> length (high_queue_m (sys_pool s))" "length (low_queue_m p') \<le> length (low_queue_m (sys_pool s))"
    "length (waiting_tasks s) = Suc (length (high_queue_m p' @ low_queue_m p'))"
    using take_task_cases [of "sys_pool s"] assms(4) by (auto simp: waiting_tasks_def)
  with assms show ?thesis
    by (intro set_worker_inv) (auto simp: sys_inv_def weights)
qed

lemma worker_step_index: "worker_step i s = Some s' \<Longrightarrow> i < length (sys_workers s)"
  by (auto simp: worker_step_def Let_def split: if_splits)

lemma worker_control_inv:
  assumes inv: "sys_inv n cap s" and st: "worker_step i s = Some s'"
    and pc: "sys_workers s ! i \<in> {WIdle, WCheck, WBlocking, WWaiting, WTest, WExit}"
  shows "sys_inv n cap s'"
proof -
  note i = worker_step_index [OF st]
  have "\<exists>w\<in>{WCheck, WTest, WBlocking, WWaiting, WExit, WPop}. s' = set_worker i w s \<and>
      (w = WCheck \<longrightarrow> mutex_holders s = 0) \<and> (w = WTest \<or> w = WBlocking \<longrightarrow> sys_workers s ! i = WCheck)"
    using st i pc by (auto simp: worker_step_def Let_def state_mutex_free_iff split: if_splits)
  then obtain w where s': "s' = set_worker i w s" and w: "w \<in> {WCheck, WTest, WBlocking, WWaiting, WExit, WPop}"
    and m: "w = WCheck \<longrightarrow> mutex_holders s = 0" "w = WTest \<or> w = WBlocking \<longrightarrow> sys_workers s ! i = WCheck"
    by blast
  have none: "in_hand w = {#}" "got_weight w = 0" "in_hand (sys_workers s ! i) = {#}" "got_weight (sys_workers s ! i) = 0"
    using w pc by (auto simp: weights)
  have "mutex_holders s \<le> 1" using inv by (simp add: sys_inv_def)
  then have "mutex_holders s + mutex_weight w \<le> 1 + mutex_weight (sys_workers s ! i)"
    using w m by (auto simp: weights)
  then show ?thesis unfolding s' using inv i none by (intro set_worker_inv) (simp_all add: sys_inv_def)
qed

lemma worker_step_inv:
  assumes inv: "sys_inv n cap s" and st: "worker_step i s = Some s'"
  shows "sys_inv n cap s'"
proof (cases "sys_workers s ! i")
  note i = worker_step_index [OF st]
  let ?p = "sys_pool s"
  {
    case WPop
    show ?thesis
    proof (cases "fst (take_task ?p)")
      case None
      then have s': "s' = set_worker i WIdle s"
        using st WPop i by (simp add: worker_step_def Let_def split: prod.splits)
      show ?thesis unfolding s' by (rule set_worker_inv) (use inv i WPop in \<open>auto simp: sys_inv_def weights\<close>)
    next
      case (Some t)
      then have s': "s' = set_worker i (WGot t) (s\<lparr>sys_pool := snd (take_task ?p)\<rparr>)"
        using st WPop i by (simp add: worker_step_def Let_def split: prod.splits)
      show ?thesis unfolding s' by (rule take_task_inv [OF inv i WPop]) (simp add: Some prod_eq_iff)
    qed
  next
    case (WGot t)
    have s': "s' = set_worker i (WReady t) (s\<lparr>sys_pool := ?p\<lparr>queued_m := queued_m ?p - 1\<rparr>\<rparr>)"
      using st i WGot by (simp add: worker_step_def Let_def)
    show ?thesis unfolding s' by (rule set_worker_inv) (use inv i WGot in \<open>auto simp: sys_inv_def weights waiting_tasks_def\<close>)
  next
    case (WReady t)
    have s': "s' = set_worker i (WRun t) (s\<lparr>sys_pool := ?p\<lparr>running_count_m := running_count_m ?p + 1\<rparr>\<rparr>)"
      using st i WReady by (simp add: worker_step_def Let_def)
    show ?thesis unfolding s' by (rule set_worker_inv) (use inv i WReady in \<open>auto simp: sys_inv_def weights waiting_tasks_def\<close>)
  next
    case (WRun t)
    have s': "s' = set_worker i WIdle (s\<lparr>sys_pool := ?p\<lparr>running_count_m := running_count_m ?p - 1,
        executed_m := executed_m ?p + 1\<rparr>, executed_log := executed_log s @ [t]\<rparr>)"
      using st i WRun by (simp add: worker_step_def Let_def)
    show ?thesis unfolding s' by (rule set_worker_inv) (use inv i WRun in \<open>auto simp: sys_inv_def weights waiting_tasks_def\<close>)
  }
qed (simp_all add: worker_control_inv [OF inv st])

lemma tier_push_cases:
  "(\<exists>p'. tier_push tier t p = (False, p') \<and> p' = p\<lparr>pool_dropped_m := pool_dropped_m p + 1\<rparr>) \<or>
   (\<exists>p'. tier_push tier t p = (True, p') \<and> mset (high_queue_m p' @ low_queue_m p') = add_mset t (mset (high_queue_m p @ low_queue_m p)) \<and>
     queued_m p' = queued_m p \<and> high_capacity_m p' = high_capacity_m p \<and> low_capacity_m p' = low_capacity_m p \<and> stopping_m p' = stopping_m p \<and>
     (high_capacity_m p = cap \<longrightarrow> low_capacity_m p = cap \<longrightarrow> 0 < cap \<longrightarrow> length (high_queue_m p) \<le> cap \<longrightarrow> length (low_queue_m p) \<le> cap \<longrightarrow>
       length (high_queue_m p') \<le> cap \<and> length (low_queue_m p') \<le> cap) \<and>
     length (high_queue_m p' @ low_queue_m p') = Suc (length (high_queue_m p @ low_queue_m p)))"
  by (auto simp: tier_push_def split: PrivilegeTier.splits)

lemma tier_push_False:
  "\<not> fst (tier_push tier t p) \<Longrightarrow> tier_push tier t p = (False, p\<lparr>pool_dropped_m := pool_dropped_m p + 1\<rparr>)"
  by (cases tier) (auto simp: tier_push_def split: if_splits)

lemma end_call_inv:
  assumes "sys_inv n cap s" "j < length (sys_calls s)" "sys_calls s ! j \<noteq> PCount"
  shows "sys_inv n cap (end_call j s)"
proof -
  have "uncounted_in (end_call j s) = uncounted_in s"
    using end_call_uncounted [OF assms(2)] assms(3) by (auto simp: weights split: ppc.splits)
  then show ?thesis using assms(1) by (simp add: sys_inv_def)
qed

lemma wake_one_inv:
  assumes "sys_inv n cap s" "w < length (sys_workers s)" "is_waiting (sys_workers s ! w)"
  shows "sys_inv n cap (set_worker w WIdle s)"
proof -
  have "sys_workers s ! w = WWaiting" using assms(3) by (auto simp: is_waiting_def split: wpc.splits)
  then show ?thesis using assms by (intro set_worker_inv) (auto simp: sys_inv_def weights)
qed

lemma accept_inv:
  assumes inv: "sys_inv n cap s" and j: "j < length (sys_calls s)" "sys_calls s ! j = PPush tier t"
    and push: "tier_push tier t (sys_pool s) = (True, p')"
  shows "sys_inv n cap (set_call j PCount (s\<lparr>sys_pool := p', accepted_log := accepted_log s @ [t]\<rparr>))"
proof -
  let ?t = "s\<lparr>sys_pool := p', accepted_log := accepted_log s @ [t]\<rparr>"
  have p': "mset (high_queue_m p' @ low_queue_m p') = add_mset t (mset (waiting_tasks s))" "queued_m p' = queued_m (sys_pool s)"
    "high_capacity_m p' = high_capacity_m (sys_pool s)" "low_capacity_m p' = low_capacity_m (sys_pool s)"
    "high_capacity_m (sys_pool s) = cap \<longrightarrow> low_capacity_m (sys_pool s) = cap \<longrightarrow> 0 < cap \<longrightarrow>
     length (high_queue_m (sys_pool s)) \<le> cap \<longrightarrow> length (low_queue_m (sys_pool s)) \<le> cap \<longrightarrow>
     length (high_queue_m p') \<le> cap \<and> length (low_queue_m p') \<le> cap"
    "length (high_queue_m p' @ low_queue_m p') = Suc (length (waiting_tasks s))"
    using tier_push_cases [of tier t "sys_pool s" cap] push by (auto simp: waiting_tasks_def)
  have "uncounted_in (set_call j PCount ?t) = Suc (uncounted_in s)"
    using set_call_uncounted [of j ?t PCount] j by (simp add: weights)
  then show ?thesis using inv p' by (auto simp: sys_inv_def)
qed

lemma call_step_inv:
  assumes inv: "sys_inv n cap s" and st: "call_step j w s = Some s'"
  shows "sys_inv n cap s'"
proof -
  have j: "j < length (sys_calls s)" using st by (auto simp: call_step_def Let_def split: if_splits)
  let ?p = "sys_pool s"
  show ?thesis
  proof (cases "sys_calls s ! j")
    case (PCall token t)
    then consider "s' = end_call j s" | "s' = set_call j (PPush (tier_m token) t) s"
      using st j by (auto simp: call_step_def Let_def split: sum.splits if_splits)
    then show ?thesis
    proof cases
      case 2
      then show ?thesis using inv PCall set_call_uncounted [OF j, of "PPush (tier_m token) t"]
        by (simp add: sys_inv_def weights)
    qed (simp add: end_call_inv [OF inv j] PCall)
  next
    case (PPush tier t)
    show ?thesis
    proof (cases "fst (tier_push tier t ?p)")
      case False
      let ?s = "s\<lparr>sys_pool := ?p\<lparr>pool_dropped_m := pool_dropped_m ?p + 1\<rparr>\<rparr>"
      have "s' = end_call j ?s" using st j PPush tier_push_False [OF False] by (simp add: call_step_def Let_def)
      moreover have "sys_inv n cap ?s" using inv by (simp add: sys_inv_def waiting_tasks_def)
      ultimately show ?thesis using end_call_inv [of n cap ?s j] j PPush by simp
    next
      case True
      then obtain p' where p': "tier_push tier t ?p = (True, p')" by (metis prod.collapse)
      then show ?thesis using accept_inv [OF inv j PPush p'] st j PPush by (simp add: call_step_def Let_def)
    qed
  next
    case PCount
    then have s': "s' = set_call j PNotify (s\<lparr>sys_pool := count_enqueued ?p\<rparr>)"
      using st j by (simp add: call_step_def Let_def)
    have "uncounted_in s = Suc (uncounted_in s')"
      using j PCount set_call_uncounted [of j "s\<lparr>sys_pool := count_enqueued ?p\<rparr>" PNotify] by (simp add: s' weights)
    then have "of_nat (uncounted_in s) = (1 + of_nat (uncounted_in s') :: u64)" by simp
    then show ?thesis using inv by (auto simp: sys_inv_def s' count_enqueued_def waiting_tasks_def algebra_simps)
  next
    case PNotify
    then consider "s' = end_call j s" | "s' = end_call j (set_worker w WIdle s)" "w < length (sys_workers s)" "is_waiting (sys_workers s ! w)"
      using st j by (auto simp: call_step_def Let_def split: if_splits)
    then show ?thesis
      using end_call_inv [OF inv j] end_call_inv [OF wake_one_inv [OF inv], of w j] j PNotify by cases simp_all
  qed
qed

lemma wake_weights [simp]:
  "in_hand (wake w) = in_hand w" "got_weight (wake w) = got_weight w" "mutex_weight (wake w) = mutex_weight w"
  by (cases w; simp add: wake_def weights)+

lemmas sys_measures = held_def uncounted_out_def uncounted_in_def mutex_holders_def waiting_tasks_def

lemma notify_all_inv: "sys_inv n cap s \<Longrightarrow> sys_inv n cap (s\<lparr>sys_workers := map wake (sys_workers s)\<rparr>)"
  by (simp add: sys_inv_def sys_measures o_def)

lemma new_call_inv: "sys_inv n cap s \<Longrightarrow> sys_inv n cap (s\<lparr>sys_calls := sys_calls s @ [PCall token t]\<rparr>)"
  by (simp add: sys_inv_def sys_measures count_weight_def)

lemma stopping_inv: "sys_inv n cap s \<Longrightarrow> sys_inv n cap (s\<lparr>sys_pool := (sys_pool s)\<lparr>stopping_m := True\<rparr>\<rparr>)"
  by (simp add: sys_inv_def sys_measures)

lemma sys_step_inv:
  assumes "sys_inv n cap s" "sys_step a s = Some s'"
  shows "sys_inv n cap s'"
proof (cases a)
  case NotifyAll
  then show ?thesis using assms notify_all_inv by (auto simp only: sys_step_def action.case option.inject)
next
  case (Enqueue token t)
  then show ?thesis using assms new_call_inv by (auto simp only: sys_step_def action.case option.inject)
next
  case (Call j w)
  then show ?thesis using assms call_step_inv by (simp add: sys_step_def)
next
  case (Worker i)
  then show ?thesis using assms worker_step_inv by (simp add: sys_step_def)
next
  case (Spurious i)
  then have "s' = set_worker i WIdle s" "i < length (sys_workers s)" "is_waiting (sys_workers s ! i)"
    using assms(2) by (simp_all add: sys_step_def split: if_splits)
  then show ?thesis using wake_one_inv [OF assms(1)] by simp
next
  case Shutdown
  then have "s' = s\<lparr>sys_pool := (sys_pool s)\<lparr>stopping_m := True\<rparr>\<rparr>"
    using assms(2) by (simp add: sys_step_def split: if_splits)
  then show ?thesis using stopping_inv [OF assms(1)] by simp
qed

lemma sum_list_replicate_zero: "sum_list (replicate n (0::'c::comm_monoid_add)) = 0"
  by (induction n) simp_all

lemma initial_inv: "sys_inv n cap (initial_Sys n cap)"
  using sum_list_replicate_zero [of n, where 'c="'a multiset"]
  by (simp add: sys_inv_def initial_Sys_def new_ThreadPool_def sys_measures weights sum_list_replicate map_replicate)

lemma reachable_inv: "reachable n cap s \<Longrightarrow> sys_inv n cap s"
  by (induction rule: reachable.induct) (auto intro: initial_inv sys_step_inv)

text \<open>
  C28. Tasks are neither lost nor duplicated by any interleaving of submissions, workers, spurious wake-ups and
  shutdown: in every reachable state the accepted tasks are, as a multiset, those waiting in a queue, those in
  the hands of a worker and those executed; each queue stays within a positive capacity; and at most one
  worker holds the state mutex.
\<close>

theorem pool_conserves_tasks:
  assumes "reachable workers cap s"
  shows "mset (accepted_log s) = mset (waiting_tasks s) + held s + mset (executed_log s) \<and>
    (cap = 0 \<or> length (high_queue_m (sys_pool s)) \<le> cap \<and> length (low_queue_m (sys_pool s)) \<le> cap) \<and>
    length (filter holds_state_mutex (sys_workers s)) \<le> 1"
proof -
  have "sum_list (map mutex_weight ws) = length (filter holds_state_mutex ws)" for ws :: "'a wpc list"
    by (induction ws) (auto simp: mutex_weight_def)
  then show ?thesis using reachable_inv [OF assms] by (auto simp: sys_inv_def mutex_holders_def)
qed

lemma sys_run_reachable: "reachable n cap s \<Longrightarrow> sys_run as s = Some s' \<Longrightarrow> reachable n cap s'"
  by (induction as arbitrary: s) (auto split: option.splits intro: reachable_step)

text \<open>A low and then a high task are submitted; the worker takes the high one first.\<close>

theorem pool_conserves_tasks_witness:
  "\<exists>s. sys_run sample_run (initial_Sys 1 2) = Some s \<and> executed_log s = [7] \<and> waiting_tasks s = [3] \<and>
     mset (accepted_log s) = {#3#} + {#7#}"
proof -
  have "map_option (\<lambda>s. (executed_log s, waiting_tasks s, sys_workers s)) (sys_run sample_run (initial_Sys 1 2)) = Some ([7], [3], [WIdle])"
    by code_simp
  then obtain s where s: "sys_run sample_run (initial_Sys 1 2) = Some s"
    and e: "executed_log s = [7]" "waiting_tasks s = [3]" "sys_workers s = [WIdle]" by auto
  have "reachable 1 2 s" by (rule sys_run_reachable [OF reachable_init s])
  from pool_conserves_tasks [OF this] show ?thesis
    using s e by (simp add: held_def in_hand_def)
qed

subsection \<open>Shutdown\<close>

lemma draining_no_count: "draining s \<Longrightarrow> uncounted_in s = 0"
  by (auto simp: draining_def uncounted_in_def count_weight_def sum_list_eq_0_iff split: ppc.splits)

lemma uncounted_out_le: "uncounted_out s \<le> length (sys_workers s)"
proof -
  have "sum_list (map got_weight ws) \<le> length ws" for ws :: "'a wpc list"
    by (induction ws) (auto simp: got_weight_def split: wpc.splits)
  then show ?thesis by (simp add: uncounted_out_def)
qed

lemma queued_zero_empty:
  assumes "sys_inv n cap s" "draining s" "0 < cap" "2 * cap + n < 2 ^ 64" "queued_m (sys_pool s) = 0"
  shows "waiting_tasks s = []"
proof -
  let ?k = "length (waiting_tasks s) + uncounted_out s"
  have "?k < 2 ^ 64"
    using assms(1,3,4) uncounted_out_le [of s] by (auto simp: sys_inv_def waiting_tasks_def)
  moreover have "(of_nat ?k :: u64) = 0"
    using assms(1,5) draining_no_count [OF assms(2)] by (simp add: sys_inv_def)
  ultimately have "?k = 0" using word_of_nat_eq_0_iff [of ?k, where 'a=64] by (auto dest: nat_dvd_not_less)
  then show ?thesis by simp
qed


lemma set_worker_draining:
  assumes "draining s" "w = WExit \<longrightarrow> waiting_tasks s = []"
  shows "draining (set_worker i w s)"
proof -
  have "set ((sys_workers s)[i := w]) \<subseteq> insert w (set (sys_workers s))" by (rule set_update_subset_insert)
  then show ?thesis using assms by (auto simp: draining_def set_worker_def waiting_tasks_def)
qed

lemma worker_step_draining:
  assumes "sys_inv n cap s" "draining s" "0 < cap" "2 * cap + n < 2 ^ 64" "worker_step i s = Some s'"
  shows "draining s'"
proof -
  note i = worker_step_index [OF assms(5)]
  have pool: "draining (s\<lparr>sys_pool := p\<rparr>)" if "stopping_m p" "waiting_tasks s = [] \<longrightarrow> high_queue_m p @ low_queue_m p = []" for p
    using assms(2) that by (auto simp: draining_def)
  have logs: "draining (t\<lparr>executed_log := l\<rparr>)" if "draining t" for t :: "'a Sys" and l
    using that by (auto simp: draining_def waiting_tasks_def)
  have st: "stopping_m (sys_pool s)" using assms(2) by (simp add: draining_def)
  show ?thesis
  proof (cases "sys_workers s ! i")
    case WPop
    obtain r p' where t: "take_task (sys_pool s) = (r, p')" by force
    have "stopping_m p' \<and> (waiting_tasks s = [] \<longrightarrow> high_queue_m p' @ low_queue_m p' = [])"
      using take_task_cases [of "sys_pool s"] st t by (auto simp: waiting_tasks_def)
    then show ?thesis
      using assms(2,5) i WPop t pool [of p'] by (cases r) (auto simp: worker_step_def Let_def intro!: set_worker_draining)
  next
    case (WRun t)
    then show ?thesis
      using assms(5) i st pool [of "(sys_pool s)\<lparr>running_count_m := running_count_m (sys_pool s) - 1, executed_m := executed_m (sys_pool s) + 1\<rparr>"]
      by (auto simp: worker_step_def Let_def waiting_tasks_def intro!: set_worker_draining logs)
  next
    case WTest
    then show ?thesis
      using assms(2,5) i queued_zero_empty [OF assms(1-4)]
      by (auto simp: worker_step_def Let_def split: if_splits intro!: set_worker_draining)
  qed (use assms(2,5) i st in \<open>auto simp: worker_step_def Let_def waiting_tasks_def split: if_splits intro!: set_worker_draining pool\<close>)
qed

lemma call_step_draining:
  assumes "draining s" "call_step j w s = Some s'"
  shows "draining s'"
proof -
  have j: "j < length (sys_calls s)" using assms(2) by (auto simp: call_step_def Let_def split: if_splits)
  then have "sys_calls s ! j \<in> set (sys_calls s)" by simp
  then obtain token t where c: "sys_calls s ! j = PCall token t" and st: "stopping_m (sys_pool s)"
    using assms(1) unfolding draining_def by blast
  then have s': "s' = end_call j s"
    using assms(2) j by (auto simp: call_step_def Let_def split: sum.splits)
  have "set (take j (sys_calls s) @ drop (j + 1) (sys_calls s)) \<subseteq> set (sys_calls s)"
    using set_take_subset set_drop_subset by fastforce
  then show ?thesis using assms(1) by (auto simp: s' draining_def end_call_def waiting_tasks_def)
qed

lemma sys_step_draining:
  assumes "sys_inv n cap s" "draining s" "0 < cap" "2 * cap + n < 2 ^ 64" "sys_step a s = Some s'"
  shows "draining s'"
proof (cases a)
  case (Worker i)
  then show ?thesis using worker_step_draining [OF assms(1-4)] assms(5) by (simp add: sys_step_def)
next
  case (Call j w)
  then show ?thesis using call_step_draining [OF assms(2)] assms(5) by (simp add: sys_step_def)
next
  case (Spurious i)
  then show ?thesis using assms(2,5) by (auto simp: sys_step_def split: if_splits intro!: set_worker_draining)
next
  case NotifyAll
  have "WExit = wake w \<longleftrightarrow> w = WExit" for w :: "'a wpc" by (cases w) (simp_all add: wake_def)
  then show ?thesis using NotifyAll assms(2,5) by (auto simp: sys_step_def draining_def waiting_tasks_def image_iff)
qed (use assms(2,5) in \<open>auto simp: sys_step_def draining_def waiting_tasks_def split: if_splits\<close>)

lemma sys_run_draining:
  assumes "sys_inv n cap s" "draining s" "0 < cap" "2 * cap + n < 2 ^ 64" "sys_run as s = Some s'"
  shows "draining s' \<and> sys_inv n cap s'"
  using assms(1,2,5)
proof (induction as arbitrary: s)
  case (Cons a as)
  then obtain s1 where s1: "sys_step a s = Some s1" "sys_run as s1 = Some s'" by (auto split: option.splits)
  show ?case
    by (rule Cons.IH [OF sys_step_inv [OF Cons.prems(1) s1(1)] sys_step_draining [OF Cons.prems(1,2) assms(3,4) s1(1)] s1(2)])
qed simp

text \<open>
  C29. Shutdown drains.  When \<open>shutdown\<close> is called while no submission is under way, then after any further
  interleaving, submissions included, in which every worker has returned, no task is left waiting and the
  executed tasks are exactly the accepted ones.
\<close>

theorem shutdown_drains:
  assumes "reachable workers cap s" "sys_calls s = []" "WExit \<notin> set (sys_workers s)"
    and "0 < workers" "0 < cap" "2 * cap + workers < 2 ^ 64"
    and "sys_run (Shutdown # as) s = Some s'" "\<forall>w\<in>set (sys_workers s'). w = WExit"
  shows "waiting_tasks s' = [] \<and> mset (executed_log s') = mset (accepted_log s')"
proof -
  let ?s = "s\<lparr>sys_pool := (sys_pool s)\<lparr>stopping_m := True\<rparr>\<rparr>"
  have run: "sys_run as ?s = Some s'" using assms(7) by (auto simp: sys_step_def split: option.splits if_splits)
  have inv: "sys_inv workers cap ?s" using stopping_inv [OF reachable_inv [OF assms(1)]] .
  have "draining ?s" using assms(2,3) by (simp add: draining_def)
  from sys_run_draining [OF inv this assms(5,6) run] have d: "draining s'" and i: "sys_inv workers cap s'" by simp_all
  have "sys_workers s' \<noteq> []" using i assms(4) by (auto simp: sys_inv_def)
  then have "WExit \<in> set (sys_workers s')" using assms(8) by (metis last_in_set)
  then have e: "waiting_tasks s' = []" using d by (simp add: draining_def)
  have "sum_list (map in_hand ws) = {#}" if "\<forall>w\<in>set ws. w = WExit" for ws :: "'a wpc list"
    using that by (induction ws) (simp_all add: in_hand_def)
  then have "held s' = {#}" using assms(8) by (simp add: held_def)
  then show ?thesis using e i by (simp add: sys_inv_def)
qed


theorem shutdown_drains_witness:
  "\<exists>s s'. sys_run sample_submit (initial_Sys 1 2) = Some s \<and> sys_run sample_shutdown s = Some s' \<and>
     waiting_tasks s = [7] \<and> waiting_tasks s' = [] \<and> mset (executed_log s') = {#7#}"
proof -
  have "map_option (\<lambda>s. (sys_calls s, sys_workers s, waiting_tasks s, accepted_log s)) (sys_run sample_submit (initial_Sys 1 2)) =
      Some ([], [WIdle], [7], [7])" by code_simp
  then obtain s where s: "sys_run sample_submit (initial_Sys 1 2) = Some s"
    and p: "sys_calls s = []" "sys_workers s = [WIdle]" "waiting_tasks s = [7]" by auto
  have "map_option (\<lambda>s. (sys_workers s, accepted_log s)) (sys_run (sample_submit @ sample_shutdown) (initial_Sys 1 2)) =
      Some ([WExit], [7])" by code_simp
  moreover have "sys_run (as @ bs) t = Option.bind (sys_run as t) (sys_run bs)" for as bs and t :: "nat Sys"
    by (induction as arbitrary: t) (auto split: option.splits)
  ultimately obtain s' where s': "sys_run sample_shutdown s = Some s'" "sys_workers s' = [WExit]" "accepted_log s' = [7]"
    using s by auto
  have "reachable 1 2 s" by (rule sys_run_reachable [OF reachable_init s])
  then have "waiting_tasks s' = [] \<and> mset (executed_log s') = mset (accepted_log s')"
    by (rule shutdown_drains [where as="tl sample_shutdown"]) (use p s' in \<open>simp_all add: sample_shutdown_def\<close>)
  then show ?thesis using s s' p by auto
qed

text \<open>
  C30. The wake-up of a worker can be lost.  The counter is raised and the notification sent without the state
  mutex, so both can fall between a worker's test of the wait predicate and its blocking: a state is reachable
  in which a task has been accepted and counted, no submission is under way, the only worker is blocked,
  and no thread of the pool can take a step.
\<close>

theorem wakeup_can_be_lost:
  "\<exists>s. reachable 1 1024 s \<and> waiting_tasks s = [7::nat] \<and> queued_m (sys_pool s) = 1 \<and> sys_calls s = [] \<and>
     sys_workers s = [WWaiting] \<and> (\<forall>i. worker_step i s = None) \<and> (\<forall>j w. call_step j w s = None)"
proof -
  let ?as = "[Worker 0, Worker 0, Enqueue (grant High) 7, Call 0 0, Call 0 0, Call 0 0, Call 0 0, Worker 0] :: nat action list"
  have "map_option (\<lambda>s. (waiting_tasks s, queued_m (sys_pool s), sys_calls s, sys_workers s)) (sys_run ?as (initial_Sys 1 1024)) =
      Some ([7], 1, [], [WWaiting])" by code_simp
  then obtain s where s: "sys_run ?as (initial_Sys 1 1024) = Some s"
    and p: "waiting_tasks s = [7]" "queued_m (sys_pool s) = 1" "sys_calls s = []" "sys_workers s = [WWaiting]" by auto
  have "worker_step i s = None" for i by (cases i) (simp_all add: worker_step_def p)
  moreover have "call_step j w s = None" for j w by (simp add: call_step_def p)
  ultimately show ?thesis using sys_run_reachable [OF reachable_init s] p by blast
qed

end
