(* ===== verification/LedgerWorker.thy ===== *)
theory LedgerWorker
  imports SignatureStore ThreadPool
begin

text \<open>
  The ledger worker (ledger/ledger\_worker.cpp, ledger\_worker.h): submission of signature records to the
  anchoring pool with the in-flight guard, the retry loop with exponential backoff, the outcome events, the
  callbacks the composition root installs (the signature database is updated after a commit and marked on
  submission) and the drain on shutdown.

  The ledger client is an argument: the answer it gives to each attempt.  Whether the worker is still
  running at the end of an attempt, the clock and the outcome of the database statements are arguments too.
  A submission and the processing of one task are atomic steps here; the interleaving inside the pool is the
  subject of the pool's own theory.
\<close>

subsection \<open>Retry policy\<close>

record RetryPolicy =
  max_retries :: nat
  base_delay_ms :: int
  max_delay_ms :: int
  delay_multiplier :: int

definition default_RetryPolicy :: RetryPolicy where
  "default_RetryPolicy = \<lparr>max_retries = 5, base_delay_ms = 1000, max_delay_ms = 60000, delay_multiplier = 2\<rparr>"

definition default_pool_size :: "nat \<Rightarrow> nat" where
  "default_pool_size hw = (if hw \<le> 2 then 2 else if hw \<ge> 4 then 4 else hw)"

definition backoff_delay :: "RetryPolicy \<Rightarrow> nat \<Rightarrow> int" where
  "backoff_delay rp retry_count =
     (let delay_ms = fold (\<lambda>_ d. d * delay_multiplier rp) [1..<retry_count] (base_delay_ms rp) in
      if delay_ms > max_delay_ms rp then max_delay_ms rp else delay_ms)"

text \<open>
  The loop of \<open>process_record\<close> from a retry count on: the entry it ends with, if any, and the delays it slept.
  \<open>submit k\<close> is the client's answer to attempt \<open>k\<close> and \<open>running k\<close> the flag read after it.
\<close>

function process_loop ::
  "RetryPolicy \<Rightarrow> (nat \<Rightarrow> LedgerEntry option) \<Rightarrow> (nat \<Rightarrow> bool) \<Rightarrow> nat \<Rightarrow> LedgerEntry option \<times> int list" where
  "process_loop rp submit running retry_count =
     (case submit retry_count of
        Some entry \<Rightarrow> (Some entry, [])
      | None \<Rightarrow>
          if \<not> running retry_count \<or> retry_count \<ge> max_retries rp then (None, [])
          else
            let retry_count' = retry_count + 1 in
            if retry_count' > max_retries rp then (None, [])
            else
              let delay_ms = backoff_delay rp retry_count' in
              case process_loop rp submit running retry_count' of
                (r, slept) \<Rightarrow> (r, if delay_ms > 0 then delay_ms # slept else slept))"
  by pat_completeness auto

termination
  by (relation "measure (\<lambda>(rp, _, _, n). max_retries rp - n)") auto

declare process_loop.simps [simp del]

subsection \<open>Worker\<close>

record LedgerWorker =
  lw_running :: bool
  lw_pool :: "SignatureRecord Pool option"
  lw_token :: CapabilityToken
  in_flight_m :: "string set"
  committed_count_m :: int
  failed_count_m :: int
  pending_count_m :: int
  lw_bus :: BoundedNotificationBus
  lw_db :: Db

definition new_LedgerWorker :: "BoundedNotificationBus \<Rightarrow> Db \<Rightarrow> LedgerWorker" where
  "new_LedgerWorker bus db =
     \<lparr>lw_running = False, lw_pool = None, lw_token = default_token, in_flight_m = {}, committed_count_m = 0,
      failed_count_m = 0, pending_count_m = 0, lw_bus = bus, lw_db = db\<rparr>"

text \<open>The anchoring pool the worker creates has the default queue capacity.\<close>

definition K_DEFAULT_QUEUE_CAPACITY :: nat where
  "K_DEFAULT_QUEUE_CAPACITY = 1024"

definition lw_start :: "LedgerWorker \<Rightarrow> LedgerWorker" where
  "lw_start w =
     (if lw_running w then w
      else w\<lparr>lw_running := True,
             lw_pool := (case lw_pool w of None \<Rightarrow> Some (new_ThreadPool K_DEFAULT_QUEUE_CAPACITY) | Some p \<Rightarrow> Some p),
             lw_token := grant High\<rparr>)"

record LwEnv =
  lwe_now :: int
  lwe_instance :: string

definition publish_committed :: "LwEnv \<Rightarrow> SignatureRecord \<Rightarrow> LedgerEntry \<Rightarrow> LedgerWorker \<Rightarrow> LedgerWorker" where
  "publish_committed env record entry w =
     w\<lparr>lw_bus := publish (lw_bus w) \<lparr>ev_type = LEDGER_COMMITTED, ev_severity = INFO, ev_timestamp = lwe_now env,
       ev_source = ''LedgerWorker'', ev_actor = ''system'',
       ev_summary = ''Record anchored to ledger: '' @ rec_record_id record,
       ev_detail_json = ''{\"record_id\":\"'' @ rec_record_id record @ ''\",\"ledger_tx_id\":\"'' @ le_tx_id entry @
         ''\",\"ledger_block_num\":'' @ int_text (le_block_number entry) @ ''}'',
       ev_hsm_instance = lwe_instance env\<rparr>\<rparr>"

definition publish_failed :: "LwEnv \<Rightarrow> SignatureRecord \<Rightarrow> LedgerWorker \<Rightarrow> LedgerWorker" where
  "publish_failed env record w =
     w\<lparr>lw_bus := publish (lw_bus w) \<lparr>ev_type = LEDGER_COMMIT_FAILED, ev_severity = WARNING, ev_timestamp = lwe_now env,
       ev_source = ''LedgerWorker'', ev_actor = ''system'',
       ev_summary = ''Failed to anchor record: '' @ rec_record_id record, ev_detail_json = ''{}'',
       ev_hsm_instance = lwe_instance env\<rparr>\<rparr>"

text \<open>\<open>mark_ok\<close> tells whether the database accepts the statement of the processing callback.\<close>

definition lw_submit_record :: "LwEnv \<Rightarrow> bool \<Rightarrow> SignatureRecord \<Rightarrow> LedgerWorker \<Rightarrow> LedgerWorker" where
  "lw_submit_record env mark_ok record w =
     (case lw_pool w of
        None \<Rightarrow> w
      | Some pool \<Rightarrow>
          if \<not> lw_running w then w
          else if rec_record_id record \<in> in_flight_m w then w
          else
            let w1 = w\<lparr>in_flight_m := insert (rec_record_id record) (in_flight_m w),
                  lw_db := snd (mark_processing mark_ok (rec_record_id record) (lw_db w))\<rparr> in
            case enqueue (lw_token w1) record pool of
              (Inl _, _) \<Rightarrow> publish_failed env record (w1\<lparr>failed_count_m := failed_count_m w1 + 1\<rparr>)
            | (Inr False, pool') \<Rightarrow>
                publish_failed env record (w1\<lparr>lw_pool := Some pool', failed_count_m := failed_count_m w1 + 1\<rparr>)
            | (Inr True, pool') \<Rightarrow> w1\<lparr>lw_pool := Some pool', pending_count_m := pending_count_m w1 + 1\<rparr>)"

record TaskEnv =
  te_env :: LwEnv
  te_policy :: RetryPolicy
  te_submit :: "SignatureRecord \<Rightarrow> nat \<Rightarrow> LedgerEntry option"
  te_running :: "nat \<Rightarrow> bool"
  te_hmac :: HmacEnv
  te_db_ok :: "bool \<times> bool \<times> bool"

definition process_record :: "TaskEnv \<Rightarrow> SignatureRecord \<Rightarrow> LedgerWorker \<Rightarrow> LedgerWorker" where
  "process_record te record w =
     (case fst (process_loop (te_policy te) (te_submit te record) (te_running te) 0) of
        Some entry \<Rightarrow>
          let w1 = publish_committed (te_env te) record entry
                (w\<lparr>committed_count_m := committed_count_m w + 1, pending_count_m := pending_count_m w - 1\<rparr>);
              (u_ok, q_ok, x_ok) = te_db_ok te;
              w2 = w1\<lparr>lw_db := snd (update_ledger_fields (te_hmac te) u_ok q_ok x_ok (rec_record_id record) entry (lw_db w1))\<rparr> in
          w2\<lparr>in_flight_m := in_flight_m w2 - {rec_record_id record}\<rparr>
      | None \<Rightarrow>
          let w1 = publish_failed (te_env te) record
                (w\<lparr>pending_count_m := pending_count_m w - 1, failed_count_m := failed_count_m w + 1\<rparr>) in
          w1\<lparr>in_flight_m := in_flight_m w1 - {rec_record_id record}\<rparr>)"

text \<open>A pool worker takes the next task and processes it.\<close>

definition run_task :: "TaskEnv \<Rightarrow> LedgerWorker \<Rightarrow> LedgerWorker" where
  "run_task te w = (case lw_pool w of
     None \<Rightarrow> w
   | Some pool \<Rightarrow> (case take_task pool of
       (None, _) \<Rightarrow> w
     | (Some record, pool') \<Rightarrow> process_record te record (w\<lparr>lw_pool := Some pool'\<rparr>)))"

text \<open>The pool's shutdown runs the tasks still queued; the running flag is already false.\<close>

definition drain_and_stop :: "TaskEnv \<Rightarrow> LedgerWorker \<Rightarrow> LedgerWorker" where
  "drain_and_stop te w =
     (if \<not> lw_running w then w
      else let w1 = w\<lparr>lw_running := False\<rparr>;
               queued = (case lw_pool w1 of None \<Rightarrow> 0 | Some p \<Rightarrow> length (high_queue_m p) + length (low_queue_m p));
               te' = te\<lparr>te_running := (\<lambda>_. False)\<rparr>;
               w2 = (run_task te' ^^ queued) w1 in
           w2\<lparr>lw_pool := None\<rparr>)"

subsection \<open>Specification notions\<close>

definition lw_tasks :: "LedgerWorker \<Rightarrow> SignatureRecord list" where
  "lw_tasks w = (case lw_pool w of None \<Rightarrow> [] | Some p \<Rightarrow> high_queue_m p @ low_queue_m p)"

definition lw_ids :: "LedgerWorker \<Rightarrow> string list" where
  "lw_ids w = map rec_record_id (lw_tasks w)"

text \<open>
  The queued records are distinct and in flight, and the pending counter is their number.
\<close>

definition lw_inv :: "LedgerWorker \<Rightarrow> bool" where
  "lw_inv w = (distinct (lw_ids w) \<and> set (lw_ids w) \<subseteq> in_flight_m w \<and> pending_count_m w = int (length (lw_tasks w)) \<and>
     (lw_running w \<longrightarrow> lw_token w = grant High \<and> lw_pool w \<noteq> None) \<and>
     (\<forall>p. lw_pool w = Some p \<longrightarrow> low_queue_m p = [] \<and> \<not> stopping_m p) \<and> db_inv (lw_db w))"

datatype lw_op = Start | Submit LwEnv bool SignatureRecord | RunTask TaskEnv | Drain TaskEnv

definition lw_step :: "lw_op \<Rightarrow> LedgerWorker \<Rightarrow> LedgerWorker" where
  "lw_step op w = (case op of
     Start \<Rightarrow> lw_start w
   | Submit env ok r \<Rightarrow> lw_submit_record env ok r w
   | RunTask te \<Rightarrow> run_task te w
   | Drain te \<Rightarrow> drain_and_stop te w)"

text \<open>The submissions that are not dropped: the worker runs and the record is not in flight.\<close>

definition lw_effective :: "lw_op \<Rightarrow> LedgerWorker \<Rightarrow> bool" where
  "lw_effective op w = (case op of
     Submit _ _ r \<Rightarrow> lw_running w \<and> lw_pool w \<noteq> None \<and> rec_record_id r \<notin> in_flight_m w
   | _ \<Rightarrow> False)"

fun lw_run :: "lw_op list \<Rightarrow> LedgerWorker \<times> nat \<Rightarrow> LedgerWorker \<times> nat" where
  "lw_run [] s = s"
| "lw_run (op # ops) (w, n) = lw_run ops (lw_step op w, if lw_effective op w then n + 1 else n)"

definition lw_total :: "LedgerWorker \<Rightarrow> int" where
  "lw_total w = committed_count_m w + failed_count_m w + pending_count_m w"

definition high_only :: "'a Pool \<Rightarrow> bool" where
  "high_only p = (low_queue_m p = [] \<and> \<not> stopping_m p)"

definition pool_tasks :: "'a Pool \<Rightarrow> 'a list" where
  "pool_tasks p = high_queue_m p @ low_queue_m p"

text \<open>The record is in flight and not queued: no operation of the worker ever queues or anchors it again.\<close>

definition abandoned :: "string \<Rightarrow> SigRow option \<Rightarrow> LedgerWorker \<Rightarrow> bool" where
  "abandoned i row w = (i \<in> in_flight_m w \<and> i \<notin> set (lw_ids w) \<and> select_signature i (lw_db w) = row)"

definition sample_record :: "string \<Rightarrow> SignatureRecord" where
  "sample_record i = (dispatch_record (sample_env [9]) sample_input ''AQID'')\<lparr>rec_record_id := i\<rparr>"

definition sample_full_pool :: "SignatureRecord Pool" where
  "sample_full_pool = snd (enqueue_locked High (sample_record ''a'') (new_ThreadPool 1))"

definition sample_full_worker :: LedgerWorker where
  "sample_full_worker = (lw_start (new_LedgerWorker (new_BoundedNotificationBus 4) empty_db))
     \<lparr>lw_pool := Some sample_full_pool, in_flight_m := {''a''}, pending_count_m := 1\<rparr>"

definition sample_lw_env :: LwEnv where
  "sample_lw_env = \<lparr>lwe_now = 8, lwe_instance = ''hsm''\<rparr>"

definition sample_entry :: LedgerEntry where
  "sample_entry = \<lparr>le_record_id = ''s'', le_key_fingerprint = ''f'', le_payload_digest = ''ab'', le_signature_b64 = ''AQID'',
     le_created_at = 5, le_tx_id = ''tx1'', le_block_number = 12\<rparr>"

definition sample_task_env :: TaskEnv where
  "sample_task_env = \<lparr>te_env = sample_lw_env, te_policy = default_RetryPolicy, te_submit = (\<lambda>_ _. Some sample_entry),
     te_running = (\<lambda>_. True), te_hmac = sample_hmac_env [9], te_db_ok = (True, True, True)\<rparr>"

definition loop_outcome ::
  "RetryPolicy \<Rightarrow> (nat \<Rightarrow> LedgerEntry option) \<Rightarrow> (nat \<Rightarrow> bool) \<Rightarrow> nat \<Rightarrow> LedgerEntry option \<times> int list \<Rightarrow> nat \<Rightarrow> bool" where
  "loop_outcome rp submit running n r k =
     (n \<le> k \<and> k \<le> max_retries rp \<and> r = (submit k, filter (\<lambda>d. d > 0) (map (backoff_delay rp) [n + 1..<k + 1])) \<and>
      (\<forall>j. n \<le> j \<and> j < k \<longrightarrow> submit j = None \<and> running j) \<and>
      (submit k = None \<longrightarrow> \<not> running k \<or> k = max_retries rp))"

lemma publish_committed_simps [simp]:
  "lw_running (publish_committed env r e w) = lw_running w" "lw_pool (publish_committed env r e w) = lw_pool w"
  "lw_token (publish_committed env r e w) = lw_token w" "in_flight_m (publish_committed env r e w) = in_flight_m w"
  "committed_count_m (publish_committed env r e w) = committed_count_m w" "failed_count_m (publish_committed env r e w) = failed_count_m w"
  "pending_count_m (publish_committed env r e w) = pending_count_m w" "lw_db (publish_committed env r e w) = lw_db w"
  by (simp_all add: publish_committed_def)

lemma publish_failed_simps [simp]:
  "lw_running (publish_failed env r w) = lw_running w" "lw_pool (publish_failed env r w) = lw_pool w"
  "lw_token (publish_failed env r w) = lw_token w" "in_flight_m (publish_failed env r w) = in_flight_m w"
  "committed_count_m (publish_failed env r w) = committed_count_m w" "failed_count_m (publish_failed env r w) = failed_count_m w"
  "pending_count_m (publish_failed env r w) = pending_count_m w" "lw_db (publish_failed env r w) = lw_db w"
  by (simp_all add: publish_failed_def)

subsection \<open>The queue interface\<close>

text \<open>What the worker relies on: a submission appends or is refused without effect, a take removes the oldest task.\<close>

locale task_queue =
  fixes put :: "'t \<Rightarrow> 'q \<Rightarrow> bool \<times> 'q" and pop :: "'q \<Rightarrow> 't option \<times> 'q" and tasks :: "'q \<Rightarrow> 't list" and ok :: "'q \<Rightarrow> bool"
  assumes put_ok: "ok q \<Longrightarrow> ok (snd (put t q))"
    and put_tasks: "ok q \<Longrightarrow> tasks (snd (put t q)) = (if fst (put t q) then tasks q @ [t] else tasks q)"
    and pop_ok: "ok q \<Longrightarrow> ok (snd (pop q))"
    and pop_result: "ok q \<Longrightarrow> fst (pop q) = (case tasks q of [] \<Rightarrow> None | t # _ \<Rightarrow> Some t)"
    and pop_tasks: "ok q \<Longrightarrow> tasks (snd (pop q)) = tl (tasks q)"
begin

lemma pop_Some: "ok q \<Longrightarrow> pop q = (Some t, q') \<Longrightarrow> tasks q = t # tasks q' \<and> ok q'"
  using pop_tasks [of q] pop_result [of q] pop_ok [of q] by (auto split: list.splits)

lemma pop_None: "ok q \<Longrightarrow> pop q = (None, q') \<Longrightarrow> tasks q = []"
  using pop_result [of q] by (auto split: list.splits)

lemma put_cases: "ok q \<Longrightarrow> put t q = (b, q') \<Longrightarrow> tasks q' = (if b then tasks q @ [t] else tasks q) \<and> ok q'"
  using put_tasks [of q t] put_ok [of q t] by simp

end

interpretation anchoring_queue: task_queue "enqueue_locked High" take_task pool_tasks high_only
  by unfold_locales
    (auto simp: enqueue_locked_def tier_push_def count_enqueued_def take_task_def high_only_def pool_tasks_def split: list.splits)

lemma enqueue_high:
  assumes "high_only p"
  shows "enqueue (grant High) r p = (Inr (fst (enqueue_locked High r p)), snd (enqueue_locked High r p))"
  using assms by (simp add: enqueue_def validate_token_def grant_def high_only_def split: prod.splits)

lemma process_record_frame:
  "lw_pool (process_record te r w) = lw_pool w \<and> lw_running (process_record te r w) = lw_running w \<and>
   lw_token (process_record te r w) = lw_token w \<and> in_flight_m (process_record te r w) = in_flight_m w - {rec_record_id r} \<and>
   pending_count_m (process_record te r w) = pending_count_m w - 1 \<and> lw_total (process_record te r w) = lw_total w \<and>
   (db_inv (lw_db w) \<longrightarrow> db_inv (lw_db (process_record te r w)))"
  using update_ledger_keeps
  by (auto simp: process_record_def Let_def lw_total_def split: option.splits prod.splits)

lemma submit_cases:
  assumes "lw_inv w"
  shows "lw_submit_record env ok r w = w \<and> \<not> lw_effective (Submit env ok r) w \<or>
    lw_effective (Submit env ok r) w \<and>
    (\<exists>p p'. lw_pool w = Some p \<and> high_only p \<and> high_only p' \<and> lw_pool (lw_submit_record env ok r w) = Some p' \<and>
      lw_running (lw_submit_record env ok r w) = lw_running w \<and> lw_token (lw_submit_record env ok r w) = lw_token w \<and>
      in_flight_m (lw_submit_record env ok r w) = insert (rec_record_id r) (in_flight_m w) \<and>
      lw_db (lw_submit_record env ok r w) = lw_db w \<and> lw_total (lw_submit_record env ok r w) = lw_total w + 1 \<and>
      (if pool_tasks p' = pool_tasks p @ [r] then pending_count_m (lw_submit_record env ok r w) = pending_count_m w + 1
       else pool_tasks p' = pool_tasks p \<and> pending_count_m (lw_submit_record env ok r w) = pending_count_m w))"
proof (cases "lw_effective (Submit env ok r) w")
  case False
  then show ?thesis by (auto simp: lw_effective_def lw_submit_record_def split: option.splits)
next
  case True
  then obtain p where p: "lw_pool w = Some p" "lw_running w" "rec_record_id r \<notin> in_flight_m w" by (auto simp: lw_effective_def)
  then have tok: "lw_token w = grant High" and h: "high_only p"
    using assms by (auto simp: lw_inv_def high_only_def)
  obtain b p' where e: "enqueue_locked High r p = (b, p')" by force
  have "pool_tasks p' = (if b then pool_tasks p @ [r] else pool_tasks p) \<and> high_only p'"
    by (rule anchoring_queue.put_cases [OF h e])
  moreover have "db_inv (lw_db w)" using assms by (simp add: lw_inv_def)
  ultimately show ?thesis
    using p tok h e True enqueue_high [OF h, of r]
    by (cases b) (auto simp: lw_submit_record_def Let_def mark_processing_eq lw_total_def)
qed


lemma lw_tasks_pool: "lw_tasks w = (case lw_pool w of None \<Rightarrow> [] | Some p \<Rightarrow> pool_tasks p)"
  by (simp add: lw_tasks_def pool_tasks_def split: option.splits)

lemma lw_inv_high_only: "lw_inv w \<Longrightarrow> lw_pool w = Some p \<Longrightarrow> high_only p"
  by (simp add: lw_inv_def high_only_def)

lemma run_task_cases:
  assumes "lw_inv w"
  shows "run_task te w = w \<and> lw_tasks w = [] \<or>
    (\<exists>r p p'. lw_pool w = Some p \<and> lw_tasks w = r # pool_tasks p' \<and> high_only p' \<and> run_task te w = process_record te r (w\<lparr>lw_pool := Some p'\<rparr>))"
proof (cases "lw_pool w")
  case None
  then show ?thesis by (simp add: run_task_def lw_tasks_def)
next
  case (Some p)
  obtain r p' where t: "take_task p = (r, p')" by force
  have h: "high_only p" using lw_inv_high_only [OF assms Some] .
  show ?thesis
  proof (cases r)
    case None
    then show ?thesis using anchoring_queue.pop_None [OF h] Some t by (simp add: run_task_def lw_tasks_pool)
  next
    case (Some rec')
    then show ?thesis using anchoring_queue.pop_Some [OF h, of rec' p'] \<open>lw_pool w = Some p\<close> t by (auto simp: run_task_def lw_tasks_pool)
  qed
qed

lemma run_task_inv:
  assumes inv: "lw_inv w"
  shows "lw_inv (run_task te w) \<and> lw_total (run_task te w) = lw_total w \<and> lw_tasks (run_task te w) = tl (lw_tasks w) \<and>
    lw_running (run_task te w) = lw_running w"
  using run_task_cases [OF inv, of te]
proof (elim disjE exE conjE)
  fix r p p'
  assume p: "lw_pool w = Some p" "lw_tasks w = r # pool_tasks p'" "high_only p'" "run_task te w = process_record te r (w\<lparr>lw_pool := Some p'\<rparr>)"
  let ?v = "w\<lparr>lw_pool := Some p'\<rparr>"
  have t: "lw_tasks (run_task te w) = pool_tasks p'" using process_record_frame [of te r ?v] p by (simp add: lw_tasks_pool)
  moreover have "set (map rec_record_id (pool_tasks p')) \<subseteq> in_flight_m w - {rec_record_id r}"
    using inv p(2) by (simp add: lw_inv_def lw_ids_def subset_Diff_insert)
  then have "lw_inv (run_task te w)"
    using inv process_record_frame [of te r ?v] p t by (simp add: lw_inv_def lw_ids_def high_only_def)
  moreover have "lw_total (run_task te w) = lw_total w" using process_record_frame [of te r ?v] p by (simp add: lw_total_def)
  ultimately show ?thesis using process_record_frame [of te r ?v] p by simp
qed (use inv in simp)

lemma run_tasks_inv:
  "lw_inv w \<Longrightarrow> lw_inv ((run_task te ^^ n) w) \<and> lw_total ((run_task te ^^ n) w) = lw_total w \<and>
     lw_tasks ((run_task te ^^ n) w) = drop n (lw_tasks w) \<and> lw_running ((run_task te ^^ n) w) = lw_running w"
  by (induction n) (use run_task_inv in \<open>auto simp: tl_drop drop_Suc\<close>)

lemma submit_inv:
  assumes inv: "lw_inv w"
  shows "lw_inv (lw_submit_record env ok r w) \<and>
    lw_total (lw_submit_record env ok r w) = lw_total w + (if lw_effective (Submit env ok r) w then 1 else 0)"
  using submit_cases [OF inv, of env ok r]
proof (elim disjE exE conjE)
  fix p p'
  let ?w = "lw_submit_record env ok r w"
  assume e: "lw_effective (Submit env ok r) w" and p: "lw_pool w = Some p" "high_only p" "high_only p'" "lw_pool ?w = Some p'"
    and f: "lw_running ?w = lw_running w" "lw_token ?w = lw_token w" "in_flight_m ?w = insert (rec_record_id r) (in_flight_m w)"
      "lw_db ?w = lw_db w" "lw_total ?w = lw_total w + 1"
    and q: "if pool_tasks p' = pool_tasks p @ [r] then pending_count_m ?w = pending_count_m w + 1
       else pool_tasks p' = pool_tasks p \<and> pending_count_m ?w = pending_count_m w"
  have "rec_record_id r \<notin> set (lw_ids w)" using e inv by (auto simp: lw_effective_def lw_inv_def)
  then have "lw_inv ?w"
    using inv p f q by (auto simp: lw_inv_def lw_ids_def lw_tasks_pool high_only_def split: if_splits)
  then show ?thesis using e f by simp
qed (use inv in simp)

lemma drain_inv:
  assumes inv: "lw_inv w"
  shows "lw_inv (drain_and_stop te w) \<and> lw_total (drain_and_stop te w) = lw_total w"
proof (cases "lw_running w")
  case True
  let ?v = "w\<lparr>lw_running := False\<rparr>" and ?te = "te\<lparr>te_running := (\<lambda>_. False)\<rparr>"
  let ?u = "(run_task ?te ^^ length (lw_tasks w)) ?v"
  have v: "lw_inv ?v" "lw_tasks ?v = lw_tasks w" "lw_total ?v = lw_total w"
    using inv by (auto simp: lw_inv_def lw_ids_def lw_tasks_def lw_total_def)
  note r = run_tasks_inv [OF v(1), where te="?te" and n="length (lw_tasks w)"]
  have n: "(case lw_pool ?v of None \<Rightarrow> 0 | Some p \<Rightarrow> length (high_queue_m p) + length (low_queue_m p)) = length (lw_tasks w)"
    by (simp add: lw_tasks_def split: option.splits)
  have d: "drain_and_stop te w = ?u\<lparr>lw_pool := None\<rparr>"
    using True n by (simp add: drain_and_stop_def Let_def)
  have "lw_tasks ?u = []" using r v(2) by simp
  then have "lw_inv (?u\<lparr>lw_pool := None\<rparr>)"
    using r by (auto simp: lw_inv_def lw_ids_def lw_tasks_def)
  then show ?thesis using r v(3) d by (simp add: lw_total_def)
qed (use inv in \<open>simp add: drain_and_stop_def\<close>)

lemma start_inv:
  assumes inv: "lw_inv w"
  shows "lw_inv (lw_start w) \<and> lw_total (lw_start w) = lw_total w"
  using inv by (cases "lw_pool w")
    (auto simp: lw_start_def lw_inv_def lw_ids_def lw_tasks_def lw_total_def new_ThreadPool_def)

lemma lw_step_inv:
  "lw_inv w \<Longrightarrow> lw_inv (lw_step op w) \<and> lw_total (lw_step op w) = lw_total w + (if lw_effective op w then 1 else 0)"
  using submit_inv run_task_inv drain_inv start_inv by (cases op) (auto simp: lw_step_def lw_effective_def)

lemma lw_run_inv:
  "lw_inv w \<Longrightarrow> lw_inv (fst (lw_run ops (w, n))) \<and> lw_total (fst (lw_run ops (w, n))) - int (snd (lw_run ops (w, n))) = lw_total w - int n"
proof (induction ops arbitrary: w n)
  case (Cons op ops)
  then show ?case using lw_step_inv [OF Cons.prems, of op] Cons.IH [of "lw_step op w"] by (auto split: if_splits)
qed simp

lemma new_worker_inv: "db_inv db \<Longrightarrow> lw_inv (new_LedgerWorker bus db)"
  by (simp add: lw_inv_def new_LedgerWorker_def lw_ids_def lw_tasks_def)



subsection \<open>Records refused by a full queue\<close>

lemma row_id_updates [simp]:
  "row_id (r\<lparr>sr_hmac := h\<rparr>) = row_id r"
  "row_id (r\<lparr>sr_cols := (sr_cols r)[12 := a, 13 := b, 17 := c]\<rparr>) = row_id r"
  by (simp_all add: row_id_def)

lemma update_signatures_other:
  assumes "update_signatures (\<lambda>r. row_id r = i) f db = Some (n, db')" "i \<noteq> j" "\<And>r. row_id (f r) = row_id r"
  shows "select_signature j db' = select_signature j db"
proof -
  have "find (\<lambda>r. row_id r = j) (map (\<lambda>r. if row_id r = i then f r else r) rows) = find (\<lambda>r. row_id r = j) rows" for rows
    using assms(2,3) by (induction rows) auto
  then show ?thesis using assms(1) by (auto simp: update_signatures_def Let_def select_signature_def split: if_splits)
qed

lemma recompute_other:
  "i \<noteq> j \<Longrightarrow> select_signature j (snd (recompute_integrity_hmac he q x i db)) = select_signature j db"
  by (auto simp: recompute_integrity_hmac_def split: option.splits sum.splits dest!: update_signatures_other)

lemma update_ledger_other:
  assumes "i \<noteq> j"
  shows "select_signature j (snd (update_ledger_fields he u q x i e db)) = select_signature j db"
proof (cases "update_signatures (\<lambda>r. row_id r = i)
    (\<lambda>r. r\<lparr>sr_cols := (sr_cols r)[12 := le_tx_id e, 13 := int_text (le_block_number e), 17 := ''COMMITTED'']\<rparr>) db")
  case (Some p)
  then obtain n db' where p: "p = (n, db')" by force
  have "select_signature j db' = select_signature j db"
    by (rule update_signatures_other [OF Some [unfolded p] assms]) simp
  then show ?thesis using Some p recompute_other [OF assms] by (simp add: update_ledger_fields_def)
qed (simp add: update_ledger_fields_def)

lemma process_record_db:
  "rec_record_id r \<noteq> i \<Longrightarrow> select_signature i (lw_db (process_record te r w)) = select_signature i (lw_db w)"
  by (auto simp: process_record_def Let_def update_ledger_other split: option.splits prod.splits)

lemma run_task_abandoned:
  assumes "lw_inv w" "abandoned i row w"
  shows "abandoned i row (run_task te w)"
  using run_task_cases [OF assms(1), of te]
proof (elim disjE exE conjE)
  fix r p p'
  assume p: "lw_pool w = Some p" "lw_tasks w = r # pool_tasks p'" "high_only p'" "run_task te w = process_record te r (w\<lparr>lw_pool := Some p'\<rparr>)"
  have "rec_record_id r \<noteq> i" using assms(2) p(2) by (auto simp: abandoned_def lw_ids_def)
  moreover have "lw_tasks (run_task te w) = pool_tasks p'" using run_task_inv [OF assms(1), of te] p(2) by simp
  ultimately show ?thesis
    using assms(2) p process_record_frame [of te r "w\<lparr>lw_pool := Some p'\<rparr>"] process_record_db [of r i te "w\<lparr>lw_pool := Some p'\<rparr>"]
    by (auto simp: abandoned_def lw_ids_def)
qed (use assms in simp)

lemma run_tasks_abandoned:
  "lw_inv w \<Longrightarrow> abandoned i row w \<Longrightarrow> abandoned i row ((run_task te ^^ n) w)"
  by (induction n) (auto intro: run_task_abandoned run_tasks_inv [THEN conjunct1])

lemma drain_abandoned:
  assumes "lw_inv w" "abandoned i row w"
  shows "abandoned i row (drain_and_stop te w)"
proof (cases "lw_running w")
  case True
  let ?n = "case lw_pool w of None \<Rightarrow> 0 | Some p \<Rightarrow> length (high_queue_m p) + length (low_queue_m p)"
  let ?v = "w\<lparr>lw_running := False\<rparr>" and ?te = "te\<lparr>te_running := (\<lambda>_. False)\<rparr>"
  have "lw_inv ?v" "abandoned i row ?v" using assms by (auto simp: lw_inv_def lw_ids_def lw_tasks_def abandoned_def)
  then have "abandoned i row ((run_task ?te ^^ ?n) ?v)" by (rule run_tasks_abandoned)
  then show ?thesis using True by (auto simp: drain_and_stop_def Let_def abandoned_def lw_ids_def lw_tasks_def)
qed (use assms in \<open>simp add: drain_and_stop_def\<close>)

lemma submit_abandoned:
  assumes "lw_inv w" "abandoned i row w"
  shows "abandoned i row (lw_submit_record env ok r w)"
  using submit_cases [OF assms(1), of env ok r]
proof (elim disjE exE conjE)
  fix p p'
  assume e: "lw_effective (Submit env ok r) w" and p: "lw_pool w = Some p" "lw_pool (lw_submit_record env ok r w) = Some p'"
    and f: "in_flight_m (lw_submit_record env ok r w) = insert (rec_record_id r) (in_flight_m w)" "lw_db (lw_submit_record env ok r w) = lw_db w"
    and q: "if pool_tasks p' = pool_tasks p @ [r] then pending_count_m (lw_submit_record env ok r w) = pending_count_m w + 1
       else pool_tasks p' = pool_tasks p \<and> pending_count_m (lw_submit_record env ok r w) = pending_count_m w"
  have "rec_record_id r \<noteq> i" using e assms(2) by (auto simp: lw_effective_def abandoned_def)
  then show ?thesis using assms(2) p f q by (auto simp: abandoned_def lw_ids_def lw_tasks_pool split: if_splits)
qed (use assms in simp)

lemma lw_step_abandoned:
  assumes "lw_inv w" "abandoned i row w"
  shows "abandoned i row (lw_step op w)"
proof (cases op)
  case Start
  have "lw_tasks (lw_start w) = lw_tasks w" "in_flight_m (lw_start w) = in_flight_m w" "lw_db (lw_start w) = lw_db w"
    by (auto simp: lw_start_def lw_tasks_def new_ThreadPool_def split: option.splits)
  then show ?thesis using assms(2) by (simp add: Start lw_step_def abandoned_def lw_ids_def)
qed (use submit_abandoned [OF assms] run_task_abandoned [OF assms] drain_abandoned [OF assms] in \<open>simp_all add: lw_step_def\<close>)

lemma lw_run_abandoned:
  "lw_inv w \<Longrightarrow> abandoned i row w \<Longrightarrow> abandoned i row (fst (lw_run ops (w, n)))"
proof (induction ops arbitrary: w n)
  case (Cons op ops)
  then show ?case using lw_step_inv [of w op] lw_step_abandoned [of w i row op] by simp
qed simp

text \<open>
  C32. A record refused because the queue is full is lost to the worker for good.  The refusal leaves its
  identifier in the in-flight set, so whatever is submitted, executed, drained and restarted afterwards, the
  record is never queued again and its row in the signature database stays as it was.
\<close>

theorem refused_record_never_anchored:
  assumes "lw_inv w" "lw_running w" "lw_pool w = Some p" "rec_record_id r \<notin> in_flight_m w"
    and full: "fst (enqueue_locked High r p) = False"
    and w': "w' = fst (lw_run ops (lw_submit_record env ok r w, 0))"
  shows "rec_record_id r \<notin> set (lw_ids w') \<and>
    select_signature (rec_record_id r) (lw_db w') = select_signature (rec_record_id r) (lw_db w)"
proof -
  let ?v = "lw_submit_record env ok r w"
  have h: "high_only p" by (rule lw_inv_high_only [OF assms(1,3)])
  obtain p' where e: "enqueue_locked High r p = (False, p')" using full by (metis prod.collapse)
  have t: "pool_tasks p' = pool_tasks p" using anchoring_queue.put_cases [OF h e] by simp
  have tok: "lw_token w = grant High" using assms(1,2) by (simp add: lw_inv_def)
  have "rec_record_id r \<notin> set (lw_ids w)" using assms(1,4) by (auto simp: lw_inv_def)
  moreover have "in_flight_m ?v = insert (rec_record_id r) (in_flight_m w)" "lw_pool ?v = Some p'" "lw_db ?v = lw_db w"
    using assms(1-4) tok e enqueue_high [OF h, of r] by (auto simp: lw_submit_record_def Let_def mark_processing_eq lw_inv_def)
  ultimately have "abandoned (rec_record_id r) (select_signature (rec_record_id r) (lw_db w)) ?v"
    using t assms(3) by (simp add: abandoned_def lw_ids_def lw_tasks_pool)
  from lw_run_abandoned [OF _ this, of ops 0] submit_inv [OF assms(1), of env ok r] show ?thesis
    by (simp add: w' abandoned_def)
qed


lemma sample_record_id [simp]: "rec_record_id (sample_record i) = i"
  by (simp add: sample_record_def)

lemma empty_db_inv [simp]: "db_inv empty_db"
  by (simp add: db_inv_def empty_db_def)

lemma sample_full_worker_inv:
  "lw_inv sample_full_worker" "lw_running sample_full_worker" "lw_pool sample_full_worker = Some sample_full_pool"
  "''b'' \<notin> in_flight_m sample_full_worker" "fst (enqueue_locked High (sample_record ''b'') sample_full_pool) = False"
  by (simp_all add: sample_full_worker_def sample_full_pool_def lw_inv_def lw_ids_def lw_tasks_def lw_start_def new_LedgerWorker_def
      new_ThreadPool_def enqueue_locked_def tier_push_def count_enqueued_def)

text \<open>The queue has become free in between, and the record is offered again.\<close>

theorem refused_record_never_anchored_witness:
  "''b'' \<notin> set (lw_ids (fst (lw_run [RunTask sample_task_env, Submit sample_lw_env True (sample_record ''b'')]
     (lw_submit_record sample_lw_env True (sample_record ''b'') sample_full_worker, 0))))"
  using refused_record_never_anchored [OF sample_full_worker_inv(1-3) _ sample_full_worker_inv(5) refl,
      of "[RunTask sample_task_env, Submit sample_lw_env True (sample_record ''b'')]" sample_lw_env True]
    sample_full_worker_inv(4) by (simp only: sample_record_id not_False_eq_True simp_thms)


subsection \<open>The retry loop\<close>

lemma loop_outcome_here:
  assumes "n \<le> max_retries rp" "submit n \<noteq> None \<or> \<not> running n \<or> n = max_retries rp"
  shows "loop_outcome rp submit running n (process_loop rp submit running n) n"
  using assms by (auto simp: loop_outcome_def process_loop.simps [of _ _ _ n] split: option.splits)

lemma loop_outcome_later:
  assumes "submit n = None" "running n" "n < max_retries rp"
    and "loop_outcome rp submit running (n + 1) (process_loop rp submit running (n + 1)) k"
  shows "loop_outcome rp submit running n (process_loop rp submit running n) k"
proof -
  have k: "n + 1 \<le> k" using assms(4) by (simp add: loop_outcome_def)
  have "[n + 1..<k + 1] = (n + 1) # [n + 1 + 1..<k + 1]" using upt_conv_Cons [of "n + 1" "k + 1"] k by simp
  moreover have "\<forall>j. n \<le> j \<and> j < k \<longrightarrow> submit j = None \<and> running j"
    using assms(1,2,4) unfolding loop_outcome_def by (metis Suc_eq_plus1 Suc_leI le_neq_implies_less)
  moreover have "process_loop rp submit running n = (case process_loop rp submit running (n + 1) of
      (r, slept) \<Rightarrow> (r, if backoff_delay rp (n + 1) > 0 then backoff_delay rp (n + 1) # slept else slept))"
    using assms(1-3) by (simp add: process_loop.simps [of _ _ _ n] Let_def split: prod.split)
  ultimately show ?thesis using assms(4) k by (simp add: loop_outcome_def del: upt.simps)
qed

lemma process_loop_spec:
  "n \<le> max_retries rp \<Longrightarrow> \<exists>k. loop_outcome rp submit running n (process_loop rp submit running n) k"
proof (induction "max_retries rp - n" arbitrary: n)
  case 0
  then show ?case using loop_outcome_here by (metis diff_is_0_eq' le_antisym zero_diff diff_zero diff_self_eq_0 diffs0_imp_equal)
next
  case (Suc d)
  show ?case
  proof (cases "submit n \<noteq> None \<or> \<not> running n")
    case True
    then show ?thesis using loop_outcome_here Suc.prems by blast
  next
    case False
    have "d = max_retries rp - (n + 1)" "n + 1 \<le> max_retries rp" using Suc.hyps(2) by simp_all
    then obtain k where "loop_outcome rp submit running (n + 1) (process_loop rp submit running (n + 1)) k"
      using Suc.hyps(1) [of "n + 1"] by blast
    then show ?thesis using loop_outcome_later False Suc.hyps(2) by (metis zero_less_Suc zero_less_diff)
  qed
qed

lemma default_backoff: "map (backoff_delay default_RetryPolicy) [1..<6] = [1000, 2000, 4000, 8000, 16000]"
  by code_simp




subsection \<open>From a signature to its anchor\<close>

lemma submit_accepted:
  assumes "lw_inv w" "lw_running w" "lw_pool w = Some p" "rec_record_id r \<notin> in_flight_m w" "enqueue_locked High r p = (True, p')"
  shows "lw_submit_record env ok r w =
    w\<lparr>in_flight_m := insert (rec_record_id r) (in_flight_m w), lw_pool := Some p', pending_count_m := pending_count_m w + 1\<rparr>"
proof -
  have h: "high_only p" by (rule lw_inv_high_only [OF assms(1,3)])
  have "lw_token w = grant High" "db_inv (lw_db w)" using assms(1,2) by (simp_all add: lw_inv_def)
  then show ?thesis
    using assms enqueue_high [OF h, of r] by (simp add: lw_submit_record_def Let_def mark_processing_eq)
qed

lemma run_only_task:
  assumes "lw_inv w" "lw_tasks w = [r]" "process_loop (te_policy te) (te_submit te r) (te_running te) 0 = (Some entry, slept)"
    "te_db_ok te = (True, True, True)"
  shows "lw_db (run_task te w) = snd (update_ledger_fields (te_hmac te) True True True (rec_record_id r) entry (lw_db w)) \<and>
    committed_count_m (run_task te w) = committed_count_m w + 1 \<and> in_flight_m (run_task te w) = in_flight_m w - {rec_record_id r}"
  using run_task_cases [OF assms(1), of te]
proof (elim disjE exE conjE)
  fix s p p'
  assume "lw_tasks w = s # pool_tasks p'" "run_task te w = process_record te s (w\<lparr>lw_pool := Some p'\<rparr>)"
  then show ?thesis using assms by (simp add: process_record_def)
qed (use assms in simp)



end
