(* ===== verification/Spec2Isabelle.thy ===== *)
theory Spec2Isabelle
  imports P11System AuditLog LedgerWorker
begin

text \<open>
  Verification development of the virtual HSM.
\<close>

end
